theory Spec2Isabelle
  imports Main "HOL-Library.Sublist"
begin

section \<open>The document tree\<close>

text \<open>
  Both variants of the reader parse the fetched markup with the platform's parser and then
  work on the resulting tree through the DOM interface. A node is a text node or an
  element with its tag (the local name as the parser leaves it: lower case for the
  elements of HTML), its attributes in source order and its children. A document is the list of the children of the document
  node (for a parsed page: the \<open>html\<close> element). Strings are lists of code units.
\<close>

type_synonym attrs = "(string \<times> string) list"

datatype node = Text string | Element string attrs "node list"

type_synonym document = "node list"

fun is_element :: "node \<Rightarrow> bool" where
  "is_element (Text s) = False"
| "is_element (Element t a cs) = True"

fun tag_of :: "node \<Rightarrow> string" where
  "tag_of (Text s) = []"
| "tag_of (Element t a cs) = t"

fun attrs_of :: "node \<Rightarrow> attrs" where
  "attrs_of (Text s) = []"
| "attrs_of (Element t a cs) = a"

fun children :: "node \<Rightarrow> node list" where
  "children (Text s) = []"
| "children (Element t a cs) = cs"

text \<open>\<open>node.textContent\<close>: the text of all text nodes below the node, in tree order.\<close>

fun textContent :: "node \<Rightarrow> string" where
  "textContent (Text s) = s"
| "textContent (Element t a cs) = concat (map textContent cs)"

text \<open>The elements of a subtree in tree order (the element itself first).\<close>

fun subtree_elems :: "node \<Rightarrow> node list" where
  "subtree_elems (Text s) = []"
| "subtree_elems (Element t a cs) = Element t a cs # concat (map subtree_elems cs)"

definition descendants :: "node \<Rightarrow> node list" where
  "descendants n = concat (map subtree_elems (children n))"

definition doc_elems :: "document \<Rightarrow> node list" where
  "doc_elems d = concat (map subtree_elems d)"

definition doc_tags :: "document \<Rightarrow> string list" where
  "doc_tags d = map tag_of (doc_elems d)"

subsection \<open>Selectors\<close>

text \<open>
  The three kinds of simple selector the source uses: a type selector (\<open>article\<close>), a
  class selector (\<open>.content\<close>) and an id selector (\<open>#content\<close>). A selector list
  (\<open>'script, iframe, object, embed'\<close>) is a list of them.
\<close>

datatype selector = Tag string | Class string | Id string

fun getAttribute :: "node \<Rightarrow> string \<Rightarrow> string option" where
  "getAttribute n k = map_of (attrs_of n) k"

definition is_space :: "char \<Rightarrow> bool" where
  "is_space c = (c \<in> set [CHR 0x09, CHR 0x0A, CHR 0x0B, CHR 0x0C, CHR 0x0D, CHR 0x20, CHR 0xA0])"

text \<open>The tokens of a \<open>class\<close> attribute: its maximal runs of non-blank characters.\<close>

fun class_tokens_from :: "string \<Rightarrow> string \<Rightarrow> string list" where
  "class_tokens_from cur [] = (if cur = [] then [] else [rev cur])"
| "class_tokens_from cur (c # cs) =
     (if c \<in> set [CHR 0x09, CHR 0x0A, CHR 0x0C, CHR 0x0D, CHR 0x20]
      then (if cur = [] then class_tokens_from [] cs else rev cur # class_tokens_from [] cs)
      else class_tokens_from (c # cur) cs)"

definition class_tokens :: "string \<Rightarrow> string list" where
  "class_tokens s = class_tokens_from [] s"

fun matches :: "selector \<Rightarrow> node \<Rightarrow> bool" where
  "matches (Tag t) n = (is_element n \<and> tag_of n = t)"
| "matches (Class c) n =
     (case getAttribute n ''class'' of None \<Rightarrow> False | Some v \<Rightarrow> c \<in> set (class_tokens v))"
| "matches (Id i) n = (getAttribute n ''id'' = Some i)"

definition matches_any :: "selector list \<Rightarrow> node \<Rightarrow> bool" where
  "matches_any sels n = list_ex (\<lambda>s. matches s n) sels"

text \<open>\<open>document.querySelectorAll\<close>, \<open>element.querySelectorAll\<close> and \<open>querySelector\<close>.\<close>

definition doc_querySelectorAll :: "selector list \<Rightarrow> document \<Rightarrow> node list" where
  "doc_querySelectorAll sels d = filter (matches_any sels) (doc_elems d)"

definition querySelectorAll :: "selector list \<Rightarrow> node \<Rightarrow> node list" where
  "querySelectorAll sels n = filter (matches_any sels) (descendants n)"

definition doc_querySelector :: "selector list \<Rightarrow> document \<Rightarrow> node option" where
  "doc_querySelector sels d = find (matches_any sels) (doc_elems d)"

text \<open>
  \<open>doc.documentElement\<close>, \<open>doc.body\<close> and \<open>doc.head\<close>: the first element child of the
  document; its first \<open>body\<close> (or \<open>frameset\<close>) child; its first \<open>head\<close> child.
\<close>

definition documentElement :: "document \<Rightarrow> node option" where
  "documentElement d = find is_element d"

definition doc_body :: "document \<Rightarrow> node option" where
  "doc_body d =
     (case documentElement d of
        None \<Rightarrow> None
      | Some h \<Rightarrow>
          if tag_of h = ''html''
          then find (\<lambda>c. is_element c \<and> (tag_of c = ''body'' \<or> tag_of c = ''frameset'')) (children h)
          else None)"

section \<open>Sanitizer\<close>

text \<open>
  \<open>doc.querySelectorAll(sel).forEach(el => el.remove())\<close>: every element matching the
  selector list is detached from its parent, with everything below it. What remains of the
  tree is every node that has no matching element on its path from the root.
\<close>

fun remove_matching :: "selector list \<Rightarrow> node \<Rightarrow> node" where
  "remove_matching sels (Text s) = Text s"
| "remove_matching sels (Element t a cs) =
     Element t a (map (remove_matching sels) (filter (\<lambda>c. \<not> matches_any sels c) cs))"

definition remove_all :: "selector list \<Rightarrow> document \<Rightarrow> document" where
  "remove_all sels d = map (remove_matching sels) (filter (\<lambda>c. \<not> matches_any sels c) d)"

text \<open>The isolated-render (iframe) variant: one selector list.\<close>

definition sanitize_iframe :: "document \<Rightarrow> document" where
  "sanitize_iframe d = remove_all [Tag ''script'', Tag ''iframe'', Tag ''object'', Tag ''embed''] d"

text \<open>The direct-render variant: one pass for each entry of \<open>irrelevantTags\<close>.\<close>

definition irrelevantTags :: "string list" where
  "irrelevantTags = [''script'', ''style'', ''noscript'', ''iframe'', ''svg'', ''nav'', ''footer'',
     ''header'', ''aside'', ''form'', ''ads'', ''button'']"

definition sanitize_direct :: "document \<Rightarrow> document" where
  "sanitize_direct d = foldl (\<lambda>doc t. remove_all [Tag t] doc) d irrelevantTags"

section \<open>Strings as the source uses them\<close>

text \<open>
  \<open>String.prototype.trim\<close> removes white space and line terminators from both ends
  (\<open>is_space\<close>, the same class the regular expression \<open>\s\<close> matches);
  \<open>Array.prototype.join\<close> puts the separator between the entries;
  \<open>.replace(/\s+/g, ' ')\<close> turns every maximal run of white space into one blank.
\<close>

definition js_trim :: "string \<Rightarrow> string" where
  "js_trim s = rev (dropWhile is_space (rev (dropWhile is_space s)))"

fun js_join :: "string \<Rightarrow> string list \<Rightarrow> string" where
  "js_join sep [] = []"
| "js_join sep [x] = x"
| "js_join sep (x # y # ys) = x @ sep @ js_join sep (y # ys)"

function collapse_ws :: "string \<Rightarrow> string" where
  "collapse_ws [] = []"
| "collapse_ws (c # cs) =
     (if is_space c then CHR '' '' # collapse_ws (dropWhile is_space cs)
      else c # collapse_ws cs)"
  by pat_completeness auto
termination
  by (relation "measure length") (auto simp: length_dropWhile_le le_imp_less_Suc)

section \<open>Application state\<close>

datatype LoadingState = IDLE | ANALYZING | DEFINING | CHATTING | IMAGE_ANALYZING

record KeyPoint =
  kp_id :: string
  kp_title :: string
  kp_description :: string
  quoteAnchor :: string

record AnalysisResult =
  summary :: string
  keyPoints :: "KeyPoint list"

record DictionaryResult =
  dict_word :: string
  englishDefinition :: string
  chineseDefinition :: string
  contextExplanation :: string

datatype role = User | Model

record ChatMessage =
  msg_id :: string
  msg_role :: role
  msg_text :: string
  msg_timestamp :: nat

text \<open>
  The \<open>useState\<close> cells of the \<open>App\<close> component. The direct-render variant keeps the
  extracted text in \<open>articleContent\<close>; the iframe variant calls the same cell
  \<open>articleText\<close> and has \<open>iframeHtml\<close> besides (the direct variant never writes it).
\<close>

record app_state =
  urlInput :: string
  articleContent :: string
  iframeHtml :: string
  loadingState :: LoadingState
  analysis :: "AnalysisResult option"
  dictionary :: "DictionaryResult option"
  contextMenuPos :: "(int \<times> int) option"
  selectedTextData :: "(string \<times> string) option"
  chatHistory :: "ChatMessage list"
  chatInput :: string
  selectedImage :: "string option"
  imagePrompt :: string
  imageAnalysisResult :: string

text \<open>
  What the load pipeline can throw: the fetch through the fall-back proxy failed (with
  its message), the fetched markup was empty or under 50 code units, the extracted text
  was under the minimum, the platform raised a \<open>TypeError\<close> (a missing \<open>body\<close> or
  \<open>head\<close>), or the analysis call was rejected (with its message).
\<close>

datatype load_error =
    FetchFailure string
  | EmptyContent
  | ExtractionTooShort
  | Fault string
  | AnalysisFailure string

text \<open>
  The collaborators of the handlers: the two proxies (the primary one yields the
  \<open>contents\<close> field of its JSON answer, or nothing when the request or the JSON parse
  failed; the fall-back one the body or the message of its failure), the platform's HTML
  parser, the platform's URL resolution (\<open>new URL(url, base).href\<close>, nothing when it
  throws), the analysis service (its result or the message of its rejection), and the
  dictionary, chat and image services (their result, or nothing when the call is rejected:
  the handlers only log that error).
\<close>

record env =
  fetch_primary :: "string \<Rightarrow> string option"
  fetch_fallback :: "string \<Rightarrow> string + string"
  parseFromString :: "string \<Rightarrow> document"
  resolveUrl :: "string \<Rightarrow> string \<Rightarrow> string option"
  analyzeArticle :: "string \<Rightarrow> string + AnalysisResult"
  defineWord :: "string \<Rightarrow> string \<Rightarrow> DictionaryResult option"
  chatWithGemini :: "ChatMessage list \<Rightarrow> string \<Rightarrow> string \<Rightarrow> string option"
  analyzeImage :: "string \<Rightarrow> string \<Rightarrow> string option"

definition fetch_html :: "env \<Rightarrow> string \<Rightarrow> load_error + string" where
  "fetch_html e url =
     (let fallback = (case fetch_fallback e url of
                        Inl msg \<Rightarrow> Inl (FetchFailure msg)
                      | Inr body \<Rightarrow> Inr body);
          fetched = (case fetch_primary e url of
                       None \<Rightarrow> fallback
                     | Some c \<Rightarrow> if c \<noteq> [] then Inr c else fallback)
      in case fetched of
           Inl err \<Rightarrow> Inl err
         | Inr html \<Rightarrow> if html = [] \<or> length html < 50 then Inl EmptyContent else Inr html)"

section \<open>Text extractor\<close>

fun or_else :: "'a option \<Rightarrow> 'a option \<Rightarrow> 'a option" where
  "or_else (Some x) y = Some x"
| "or_else None y = y"

subsection \<open>Block collection (direct-render variant)\<close>

definition contentRoot_direct :: "document \<Rightarrow> node option" where
  "contentRoot_direct d =
     or_else (doc_querySelector [Tag ''article''] d)
    (or_else (doc_querySelector [Tag ''main''] d)
    (or_else (doc_querySelector [Class ''content''] d)
    (or_else (doc_querySelector [Id ''content''] d)
    (or_else (doc_querySelector [Class ''post-body''] d)
             (doc_body d)))))"

definition block_selectors :: "selector list" where
  "block_selectors = [Tag ''p'', Tag ''h1'', Tag ''h2'', Tag ''h3'', Tag ''h4'', Tag ''h5'',
     Tag ''h6'', Tag ''li'', Tag ''blockquote'']"

definition textBlocks :: "node \<Rightarrow> string list" where
  "textBlocks root =
     filter (\<lambda>text. length text > 40)
       (map (\<lambda>el. js_trim (textContent el)) (querySelectorAll block_selectors root))"

definition extractedText :: "node \<Rightarrow> string" where
  "extractedText root = js_join [CHR 0x0A, CHR 0x0A] (textBlocks root)"

definition extract_direct :: "document \<Rightarrow> load_error + string" where
  "extract_direct d =
     (case contentRoot_direct (sanitize_direct d) of
        None \<Rightarrow> Inl (Fault ''contentRoot is null'')
      | Some root \<Rightarrow>
          if length (extractedText root) < 200 then Inl ExtractionTooShort
          else Inr (extractedText root))"

subsection \<open>Whole-region text (iframe variant)\<close>

definition contentRoot_iframe :: "document \<Rightarrow> node option" where
  "contentRoot_iframe d =
     or_else (doc_querySelector [Tag ''article''] d)
    (or_else (doc_querySelector [Tag ''main''] d)
    (or_else (doc_querySelector [Class ''content''] d)
             (doc_body d)))"

definition cleanText :: "node \<Rightarrow> string" where
  "cleanText root = js_trim (collapse_ws (textContent root))"

definition extract_iframe :: "document \<Rightarrow> load_error + string" where
  "extract_iframe d =
     (case contentRoot_iframe d of
        None \<Rightarrow> Inl (Fault ''contentRoot is null'')
      | Some root \<Rightarrow>
          if length (cleanText root) < 100 then Inl ExtractionTooShort
          else Inr (cleanText root))"

section \<open>URL rewriter\<close>

text \<open>
  \<open>toAbsolute\<close>: the resolved URL, or the argument itself when the resolution throws.
\<close>

definition toAbsolute :: "(string \<Rightarrow> string \<Rightarrow> string option) \<Rightarrow> string \<Rightarrow> string \<Rightarrow> string" where
  "toAbsolute resolve baseUrl url = (case resolve url baseUrl of Some href \<Rightarrow> href | None \<Rightarrow> url)"

text \<open>
  \<open>setAttribute\<close> (which the reflecting properties \<open>src\<close>, \<open>href\<close> and \<open>target\<close> write
  through) replaces the value of an attribute where it stands, or appends the attribute;
  \<open>removeAttribute\<close> drops it.
\<close>

fun setAttribute :: "string \<Rightarrow> string \<Rightarrow> attrs \<Rightarrow> attrs" where
  "setAttribute k v [] = [(k, v)]"
| "setAttribute k v ((k', v') # a) =
     (if k' = k then (k, v) # a else (k', v') # setAttribute k v a)"

definition removeAttribute :: "string \<Rightarrow> attrs \<Rightarrow> attrs" where
  "removeAttribute k a = filter (\<lambda>kv. fst kv \<noteq> k) a"

subsection \<open>Namespaces\<close>

text \<open>
  The parser puts an \<open>svg\<close> element and what is below it in the SVG namespace, a \<open>math\<close>
  element and what is below it in the MathML namespace, and returns to HTML below an
  integration point (\<open>foreignObject\<close>, \<open>desc\<close> and \<open>title\<close> in SVG; \<open>annotation-xml\<close>
  with an HTML \<open>encoding\<close> in MathML; \<open>mi\<close>, \<open>mo\<close>, \<open>mn\<close>, \<open>ms\<close> and \<open>mtext\<close> for
  every child but \<open>mglyph\<close> and \<open>malignmark\<close>; an \<open>svg\<close> child of \<open>annotation-xml\<close>).
  The tree does not store the namespace of an element: \<open>child_namespace\<close> computes the
  namespace of an element with tag \<open>ct\<close> from the namespace, tag and attributes of its
  parent, and the children of the document are in HTML content.
\<close>

datatype namespace = HTML | SVG | MathML

definition ascii_lower :: "char \<Rightarrow> char" where
  "ascii_lower c = (let n = (of_char c :: nat) in if 65 \<le> n \<and> n \<le> 90 then char_of (n + 32) else c)"

definition html_encoding :: "attrs \<Rightarrow> bool" where
  "html_encoding a =
     (case map_of a ''encoding'' of
        None \<Rightarrow> False
      | Some v \<Rightarrow> map ascii_lower v \<in> set [''text/html'', ''application/xhtml+xml''])"

definition html_content :: "namespace \<Rightarrow> string \<Rightarrow> attrs \<Rightarrow> string \<Rightarrow> bool" where
  "html_content ns t a ct =
     (ns = HTML
      \<or> (ns = SVG \<and> t \<in> set [''foreignObject'', ''desc'', ''title''])
      \<or> (ns = MathML \<and> t = ''annotation-xml'' \<and> (html_encoding a \<or> ct = ''svg''))
      \<or> (ns = MathML \<and> t \<in> set [''mi'', ''mo'', ''mn'', ''ms'', ''mtext'']
            \<and> ct \<notin> set [''mglyph'', ''malignmark'']))"

definition child_namespace :: "namespace \<Rightarrow> string \<Rightarrow> attrs \<Rightarrow> string \<Rightarrow> namespace" where
  "child_namespace ns t a ct =
     (if html_content ns t a ct
      then (if ct = ''svg'' then SVG else if ct = ''math'' then MathML else HTML)
      else ns)"

definition root_namespace :: "node \<Rightarrow> namespace" where
  "root_namespace n = child_namespace HTML [] [] (tag_of n)"

text \<open>The elements of a subtree, and of a document, in tree order, each with its namespace.\<close>

fun subtree_elems_ns :: "namespace \<Rightarrow> node \<Rightarrow> (namespace \<times> node) list" where
  "subtree_elems_ns ns (Text s) = []"
| "subtree_elems_ns ns (Element t a cs) =
     (ns, Element t a cs) #
       concat (map (\<lambda>c. subtree_elems_ns (child_namespace ns t a (tag_of c)) c) cs)"

definition doc_elems_ns :: "document \<Rightarrow> (namespace \<times> node) list" where
  "doc_elems_ns d = concat (map (\<lambda>n. subtree_elems_ns (root_namespace n) n) d)"

subsection \<open>The three loops\<close>

text \<open>
  The body of each of the three \<open>forEach\<close> loops, on the attributes of one element.
  \<open>src\<close>, \<open>href\<close> and \<open>target\<close> are reflecting properties of the HTML elements
  \<open>img\<close>, \<open>link\<close> and \<open>a\<close> only. On an element of these names in another namespace
  the assignment creates a property of the script object and leaves the attributes as they
  are (\<open>removeAttribute\<close> works on every element), except on an \<open>a\<close> element of the SVG
  namespace, where \<open>href\<close> and \<open>target\<close> are read-only and the assignment throws a
  \<open>TypeError\<close> (the source is module code, hence strict).
\<close>

definition rewrite_attr ::
  "(string \<Rightarrow> string \<Rightarrow> string option) \<Rightarrow> string \<Rightarrow> string \<Rightarrow> attrs \<Rightarrow> attrs" where
  "rewrite_attr resolve baseUrl k a =
     (case map_of a k of
        None \<Rightarrow> a
      | Some v \<Rightarrow> if v \<noteq> [] then setAttribute k (toAbsolute resolve baseUrl v) a else a)"

definition rewrite_img ::
  "(string \<Rightarrow> string \<Rightarrow> string option) \<Rightarrow> string \<Rightarrow> namespace \<Rightarrow> attrs \<Rightarrow> attrs" where
  "rewrite_img resolve baseUrl ns a =
     removeAttribute ''srcset'' (if ns = HTML then rewrite_attr resolve baseUrl ''src'' a else a)"

definition rewrite_link ::
  "(string \<Rightarrow> string \<Rightarrow> string option) \<Rightarrow> string \<Rightarrow> namespace \<Rightarrow> attrs \<Rightarrow> attrs" where
  "rewrite_link resolve baseUrl ns a = (if ns = HTML then rewrite_attr resolve baseUrl ''href'' a else a)"

definition rewrite_a ::
  "(string \<Rightarrow> string \<Rightarrow> string option) \<Rightarrow> string \<Rightarrow> namespace \<Rightarrow> attrs \<Rightarrow> attrs" where
  "rewrite_a resolve baseUrl ns a =
     (if ns = HTML then setAttribute ''target'' ''_blank'' (rewrite_attr resolve baseUrl ''href'' a)
      else a)"

text \<open>
  \<open>doc.querySelectorAll(tag).forEach(f)\<close> for a loop body that only writes attributes
  of the element it is given, and does not throw.
\<close>

fun forEach_node :: "string \<Rightarrow> (namespace \<Rightarrow> attrs \<Rightarrow> attrs) \<Rightarrow> namespace \<Rightarrow> node \<Rightarrow> node" where
  "forEach_node tg f ns (Text s) = Text s"
| "forEach_node tg f ns (Element t a cs) =
     Element t (if t = tg then f ns a else a)
       (map (\<lambda>c. forEach_node tg f (child_namespace ns t a (tag_of c)) c) cs)"

definition forEach_tag :: "string \<Rightarrow> (namespace \<Rightarrow> attrs \<Rightarrow> attrs) \<Rightarrow> document \<Rightarrow> document" where
  "forEach_tag tg f d = map (\<lambda>n. forEach_node tg f (root_namespace n) n) d"

text \<open>
  The loop over the \<open>a\<close> elements throws at the first one of the SVG namespace: at the
  assignment to \<open>href\<close> when its \<open>href\<close> attribute is not empty, at the assignment to
  \<open>target\<close> otherwise. The message is the engine's. The exception leaves \<open>rewriteUrls\<close>
  and is caught by the handler, which drops the document.
\<close>

definition read_only_message :: "string \<Rightarrow> string" where
  "read_only_message property =
     ''Cannot set property '' @ property @ '' of #<SVGAElement> which has only a getter''"

definition is_svg_anchor :: "namespace \<times> node \<Rightarrow> bool" where
  "is_svg_anchor x = (fst x = SVG \<and> tag_of (snd x) = ''a'')"

definition rewrite_anchors ::
  "(string \<Rightarrow> string \<Rightarrow> string option) \<Rightarrow> string \<Rightarrow> document \<Rightarrow> load_error + document" where
  "rewrite_anchors resolve baseUrl d =
     (case find is_svg_anchor (doc_elems_ns d) of
        Some x \<Rightarrow>
          Inl (Fault (read_only_message
                 (case map_of (attrs_of (snd x)) ''href'' of
                    None \<Rightarrow> ''target''
                  | Some href \<Rightarrow> if href \<noteq> [] then ''href'' else ''target'')))
      | None \<Rightarrow> Inr (forEach_tag ''a'' (rewrite_a resolve baseUrl) d))"

definition rewriteUrls ::
  "(string \<Rightarrow> string \<Rightarrow> string option) \<Rightarrow> string \<Rightarrow> document \<Rightarrow> load_error + document" where
  "rewriteUrls resolve baseUrl d =
     rewrite_anchors resolve baseUrl
       (forEach_tag ''link'' (rewrite_link resolve baseUrl)
         (forEach_tag ''img'' (rewrite_img resolve baseUrl) d))"

section \<open>Serialisation\<close>

text \<open>
  \<open>innerHTML\<close> and \<open>outerHTML\<close> as the platform's fragment serialisation gives them:
  text is escaped (\<open>&\<close>, \<open><\<close>, \<open>>\<close> and the no-break space), except under the
  raw-text elements; attribute values are escaped (\<open>&\<close>, the no-break space and the
  double quote); void elements have no end tag and no content.
\<close>

definition escape_char :: "char \<Rightarrow> string" where
  "escape_char c =
     (if c = CHR ''&'' then ''&amp;''
      else if c = CHR ''<'' then ''&lt;''
      else if c = CHR ''>'' then ''&gt;''
      else if c = CHR 0xA0 then ''&nbsp;''
      else [c])"

definition escape_text :: "string \<Rightarrow> string" where
  "escape_text s = concat (map escape_char s)"

definition escape_attr_char :: "char \<Rightarrow> string" where
  "escape_attr_char c =
     (if c = CHR ''&'' then ''&amp;''
      else if c = CHR 0x22 then ''&quot;''
      else if c = CHR 0xA0 then ''&nbsp;''
      else [c])"

definition serialize_attr :: "string \<times> string \<Rightarrow> string" where
  "serialize_attr kv = '' '' @ fst kv @ [CHR ''='', CHR 0x22] @ concat (map escape_attr_char (snd kv)) @ [CHR 0x22]"

definition void_tags :: "string list" where
  "void_tags = [''area'', ''base'', ''basefont'', ''bgsound'', ''br'', ''col'', ''embed'', ''frame'',
     ''hr'', ''img'', ''input'', ''keygen'', ''link'', ''meta'', ''param'', ''source'', ''track'',
     ''wbr'']"

definition rawtext_tags :: "string list" where
  "rawtext_tags = [''style'', ''script'', ''xmp'', ''iframe'', ''noembed'', ''noframes'', ''plaintext'']"

fun serialize :: "string \<Rightarrow> node \<Rightarrow> string" where
  "serialize parent (Text s) = (if parent \<in> set rawtext_tags then s else escape_text s)"
| "serialize parent (Element t a cs) =
     ''<'' @ t @ concat (map serialize_attr a) @ ''>'' @
     (if t \<in> set void_tags then []
      else concat (map (serialize t) cs) @ ''</'' @ t @ ''>'')"

definition innerHTML :: "node \<Rightarrow> string" where
  "innerHTML n = concat (map (serialize (tag_of n)) (children n))"

definition outerHTML :: "node \<Rightarrow> string" where
  "outerHTML n = serialize [] n"

section \<open>Style injector\<close>

definition highlight_css :: string where
  \<open>highlight_css =
     ''\<newline>        .smartread-highlight { background-color: #fef08a !important; color: #000 !important; transition: background-color 1s; border-radius: 2px; }'' @
     ''\<newline>        body { cursor: default; }'' @
     ''\<newline>        /* Hide common nuisance elements like cookie banners or ads */'' @
     ''\<newline>        #onetrust-banner-sdk, .ads, .ad-container, [id*="cookie"], [class*="popup"] { display: none !important; }'' @
     ''\<newline>      ''\<close>

definition style_element :: node where
  "style_element = Element ''style'' [] [Text highlight_css]"

fun update_first :: "('a \<Rightarrow> bool) \<Rightarrow> ('a \<Rightarrow> 'a) \<Rightarrow> 'a list \<Rightarrow> 'a list" where
  "update_first P f [] = []"
| "update_first P f (x # xs) = (if P x then f x # xs else x # update_first P f xs)"

definition appendChild :: "node \<Rightarrow> node \<Rightarrow> node" where
  "appendChild c n = Element (tag_of n) (attrs_of n) (children n @ [c])"

definition is_head :: "node \<Rightarrow> bool" where
  "is_head c = (is_element c \<and> tag_of c = ''head'')"

definition doc_head :: "document \<Rightarrow> node option" where
  "doc_head d =
     (case documentElement d of
        None \<Rightarrow> None
      | Some h \<Rightarrow> if tag_of h = ''html'' then find is_head (children h) else None)"

text \<open>\<open>doc.head.appendChild(style)\<close>; a \<open>TypeError\<close> when the document has no head.\<close>

definition inject_style :: "document \<Rightarrow> load_error + document" where
  "inject_style d =
     (case doc_head d of
        None \<Rightarrow> Inl (Fault ''doc.head is null'')
      | Some head_el \<Rightarrow>
          Inr (update_first is_element
                 (\<lambda>h. Element (tag_of h) (attrs_of h)
                         (update_first is_head (appendChild style_element) (children h))) d))"

section \<open>Loading an article\<close>

subsection \<open>Direct-render variant\<close>

fun error_message_direct :: "load_error \<Rightarrow> string" where
  "error_message_direct (FetchFailure msg) = msg"
| "error_message_direct EmptyContent = ''Retrieved content is empty or too short.''"
| "error_message_direct ExtractionTooShort =
     ''Extracted content is too short. The website might be using complex JavaScript rendering.''"
| "error_message_direct (Fault msg) = msg"
| "error_message_direct (AnalysisFailure msg) = msg"

definition failure_text :: "string \<Rightarrow> string" where
  "failure_text msg =
     ''Unable to automatically extract content from this URL.\<newline>\<newline>Error details: '' @ msg @
     ''\<newline>\<newline>Most websites block automated access, or the content is rendered dynamically with JavaScript which cannot be parsed by this simple reader.''"

text \<open>
  \<open>handleLoadArticle\<close> is asynchronous. It runs in three steps, and between two of them
  any other handler or continuation of the page may run:

    \<^item> up to its first \<open>await\<close>: the guard on the URL input and the clearing writes
      (\<open>begin_load_direct\<close>);

    \<^item> when the proxies have answered: everything from the check of the fetched markup to
      the call of the analysis service, or the \<open>catch\<close> and \<open>finally\<close> blocks when one
      of these steps throws (\<open>load_fetched_direct\<close>, which returns the new state and the
      text sent to the analysis, if any). The handler reads and writes no cell between its
      \<open>await\<close>s on the proxies, so they are one step here; the URL is the one the handler
      was started with;

    \<^item> when the analysis service has answered: the write of the result, or the \<open>catch\<close>
      block, and the \<open>finally\<close> block (\<open>load_analyzed_direct\<close>).

  The continuations write into the state as it is when they run.
\<close>

definition begin_load_direct :: "app_state \<Rightarrow> app_state" where
  "begin_load_direct st =
     st\<lparr>loadingState := ANALYZING, analysis := None, chatHistory := [], articleContent := []\<rparr>"

definition catch_direct :: "load_error \<Rightarrow> app_state \<Rightarrow> app_state" where
  "catch_direct err st = st\<lparr>articleContent := failure_text (error_message_direct err)\<rparr>"

definition load_fetched_direct :: "env \<Rightarrow> string \<Rightarrow> app_state \<Rightarrow> app_state \<times> string option" where
  "load_fetched_direct e url st =
     (case fetch_html e url of
        Inl err \<Rightarrow> ((catch_direct err st)\<lparr>loadingState := IDLE\<rparr>, None)
      | Inr htmlContent \<Rightarrow>
          (case extract_direct (parseFromString e htmlContent) of
             Inl err \<Rightarrow> ((catch_direct err st)\<lparr>loadingState := IDLE\<rparr>, None)
           | Inr text \<Rightarrow> (st\<lparr>articleContent := text\<rparr>, Some text)))"

definition load_analyzed_direct :: "env \<Rightarrow> string \<Rightarrow> app_state \<Rightarrow> app_state" where
  "load_analyzed_direct e text st =
     (case analyzeArticle e text of
        Inl msg \<Rightarrow> catch_direct (AnalysisFailure msg) st
      | Inr result \<Rightarrow> st\<lparr>analysis := Some result\<rparr>)\<lparr>loadingState := IDLE\<rparr>"

text \<open>
  A load that nothing interrupts: the three steps one after the other, on the state the
  handler was invoked in.
\<close>

definition handleLoadArticle_direct :: "env \<Rightarrow> app_state \<Rightarrow> app_state" where
  "handleLoadArticle_direct e st =
     (if urlInput st = [] then st
      else
        (case load_fetched_direct e (urlInput st) (begin_load_direct st) of
           (st1, None) \<Rightarrow> st1
         | (st1, Some text) \<Rightarrow> load_analyzed_direct e text st1))"

subsection \<open>Iframe variant\<close>

fun error_message_iframe :: "load_error \<Rightarrow> string" where
  "error_message_iframe (FetchFailure msg) = msg"
| "error_message_iframe EmptyContent = ''Retrieved content is empty or too short.''"
| "error_message_iframe ExtractionTooShort = ''Could not extract meaningful text from this page.''"
| "error_message_iframe (Fault msg) = msg"
| "error_message_iframe (AnalysisFailure msg) = msg"

definition error_page :: "string \<Rightarrow> string" where
  \<open>error_page msg =
     ''<div style="padding: 20px; font-family: sans-serif; text-align: center; color: #666;">'' @
     ''\<newline>        <h2>Oops! Could not load website.</h2>'' @
     ''\<newline>        <p>'' @ msg @ ''</p>'' @
     ''\<newline>        <p>Some websites block proxy access. Try a simpler blog URL.</p>'' @
     ''\<newline>      </div>''\<close>

definition begin_load_iframe :: "app_state \<Rightarrow> app_state" where
  "begin_load_iframe st =
     st\<lparr>loadingState := ANALYZING, analysis := None, chatHistory := [], articleContent := [],
        iframeHtml := [], dictionary := None\<rparr>"

definition catch_iframe :: "load_error \<Rightarrow> app_state \<Rightarrow> app_state" where
  "catch_iframe err st = st\<lparr>iframeHtml := error_page (error_message_iframe err)\<rparr>"

text \<open>Steps 1 to 4 of the handler: sanitise, rewrite, inject the style, serialise.\<close>

definition prepare_iframe :: "env \<Rightarrow> string \<Rightarrow> document \<Rightarrow> load_error + (document \<times> string)" where
  "prepare_iframe e url d =
     (case rewriteUrls (resolveUrl e) url (sanitize_iframe d) of
        Inl err \<Rightarrow> Inl err
      | Inr d1 \<Rightarrow>
          (case inject_style d1 of
             Inl err \<Rightarrow> Inl err
           | Inr d' \<Rightarrow>
               (case documentElement d' of
                  None \<Rightarrow> Inl (Fault ''doc.documentElement is null'')
                | Some h \<Rightarrow> Inr (d', outerHTML h))))"

text \<open>The three steps of the handler, as in the direct-render variant.\<close>

definition load_fetched_iframe :: "env \<Rightarrow> string \<Rightarrow> app_state \<Rightarrow> app_state \<times> string option" where
  "load_fetched_iframe e url st =
     (case fetch_html e url of
        Inl err \<Rightarrow> ((catch_iframe err st)\<lparr>loadingState := IDLE\<rparr>, None)
      | Inr rawHtml \<Rightarrow>
          (case prepare_iframe e url (parseFromString e rawHtml) of
             Inl err \<Rightarrow> ((catch_iframe err st)\<lparr>loadingState := IDLE\<rparr>, None)
           | Inr (d', html) \<Rightarrow>
               (case extract_iframe d' of
                  Inl err \<Rightarrow> ((catch_iframe err (st\<lparr>iframeHtml := html\<rparr>))\<lparr>loadingState := IDLE\<rparr>, None)
                | Inr text \<Rightarrow> (st\<lparr>iframeHtml := html, articleContent := text\<rparr>, Some text))))"

definition load_analyzed_iframe :: "env \<Rightarrow> string \<Rightarrow> app_state \<Rightarrow> app_state" where
  "load_analyzed_iframe e text st =
     (case analyzeArticle e text of
        Inl msg \<Rightarrow> catch_iframe (AnalysisFailure msg) st
      | Inr result \<Rightarrow> st\<lparr>analysis := Some result\<rparr>)\<lparr>loadingState := IDLE\<rparr>"

definition handleLoadArticle_iframe :: "env \<Rightarrow> app_state \<Rightarrow> app_state" where
  "handleLoadArticle_iframe e st =
     (if urlInput st = [] then st
      else
        (case load_fetched_iframe e (urlInput st) (begin_load_iframe st) of
           (st1, None) \<Rightarrow> st1
         | (st1, Some text) \<Rightarrow> load_analyzed_iframe e text st1))"

section \<open>Selection capture\<close>

text \<open>
  What the handlers read of the platform's selection object: \<open>selection.toString()\<close> and
  \<open>selection.anchorNode?.parentElement?.textContent\<close> (nothing when the selection has no
  anchor node, or the anchor node no parent element).
\<close>

record selection =
  sel_string :: string
  anchor_parent_text :: "string option"

text \<open>
  Both handlers return the new state and whether \<open>preventDefault\<close> was called on the
  event. \<open>handleContextMenu\<close> is the direct-render variant's, with the event's client
  coordinates; \<open>handleIframeContextMenu\<close> has the frame's offset besides.
\<close>

definition handleContextMenu :: "selection option \<Rightarrow> int \<times> int \<Rightarrow> app_state \<Rightarrow> app_state \<times> bool" where
  "handleContextMenu sel client st =
     (case sel of
        None \<Rightarrow> (st\<lparr>contextMenuPos := None\<rparr>, True)
      | Some s \<Rightarrow>
          if length (js_trim (sel_string s)) = 0 then (st\<lparr>contextMenuPos := None\<rparr>, True)
          else
            let word = js_trim (sel_string s);
                context = (case anchor_parent_text s of None \<Rightarrow> [] | Some t \<Rightarrow> t)
            in (st\<lparr>selectedTextData := Some (word, context), contextMenuPos := Some client\<rparr>, True))"

definition truncate_context :: "string \<Rightarrow> string" where
  "truncate_context context = (if length context > 200 then take 200 context @ ''...'' else context)"

definition handleIframeContextMenu ::
  "selection option \<Rightarrow> int \<times> int \<Rightarrow> int \<times> int \<Rightarrow> app_state \<Rightarrow> app_state \<times> bool" where
  "handleIframeContextMenu sel client iframeRect st =
     (case sel of
        None \<Rightarrow> (st\<lparr>contextMenuPos := None\<rparr>, True)
      | Some s \<Rightarrow>
          let word = js_trim (sel_string s) in
          if word \<noteq> [] \<and> length word > 0 then
            let context = (case anchor_parent_text s of None \<Rightarrow> [] | Some t \<Rightarrow> truncate_context t);
                x = fst iframeRect + fst client;
                y = snd iframeRect + snd client
            in (st\<lparr>selectedTextData := Some (word, context), contextMenuPos := Some (x, y)\<rparr>, True)
          else (st\<lparr>contextMenuPos := None\<rparr>, True))"

section \<open>The host and its requests in flight\<close>

text \<open>
  The handlers are asynchronous: each runs up to its first \<open>await\<close> when its control
  fires, and its continuation runs when the collaborator answers, on the state as it is
  then. The host is the component state together with the requests that are in flight,
  each with the arguments its handler passed to the collaborator (the values of the cells
  when the handler was invoked). An event is a control of the page firing, an input
  changing, or a request being answered; a control that is not rendered, or rendered
  \<open>disabled\<close>, does not fire its handler. The tab that shows a control is taken to be the
  open one. The \<open>alert\<close> of \<open>handleManualAnalyze\<close> and the console output of the
  handlers are not part of the state.
\<close>

datatype request =
    FetchArticle string
  | AnalyzeLoaded string
  | AnalyzeManual string
  | Define string string
  | ChatReply "ChatMessage list" string string
  | DescribeImage string string

datatype event =
    ChangeUrl string
  | ChangeChatInput string
  | LoadClick
  | AnalyzeClick
  | DefineClick
  | SendClick nat nat
  | SendEnter nat nat
  | ImageClick
  | Completed nat nat nat

record host =
  app :: app_state
  in_flight :: "request list"

definition start :: "request \<Rightarrow> LoadingState \<Rightarrow> host \<Rightarrow> host" where
  "start r l h = h\<lparr>app := (app h)\<lparr>loadingState := l\<rparr>, in_flight := in_flight h @ [r]\<rparr>"

datatype variant = DirectRender | IframeRender

fun begin_load :: "variant \<Rightarrow> app_state \<Rightarrow> app_state" where
  "begin_load DirectRender = begin_load_direct"
| "begin_load IframeRender = begin_load_iframe"

fun load_fetched :: "variant \<Rightarrow> env \<Rightarrow> string \<Rightarrow> app_state \<Rightarrow> app_state \<times> string option" where
  "load_fetched DirectRender = load_fetched_direct"
| "load_fetched IframeRender = load_fetched_iframe"

fun load_analyzed :: "variant \<Rightarrow> env \<Rightarrow> string \<Rightarrow> app_state \<Rightarrow> app_state" where
  "load_analyzed DirectRender = load_analyzed_direct"
| "load_analyzed IframeRender = load_analyzed_iframe"

fun handleLoadArticle :: "variant \<Rightarrow> env \<Rightarrow> app_state \<Rightarrow> app_state" where
  "handleLoadArticle DirectRender = handleLoadArticle_direct"
| "handleLoadArticle IframeRender = handleLoadArticle_iframe"

text \<open>The handlers up to their first \<open>await\<close>.\<close>

definition start_load :: "variant \<Rightarrow> host \<Rightarrow> host" where
  "start_load v h =
     (if urlInput (app h) = [] then h
      else h\<lparr>app := begin_load v (app h), in_flight := in_flight h @ [FetchArticle (urlInput (app h))]\<rparr>)"

definition start_manual_analyze :: "host \<Rightarrow> host" where
  "start_manual_analyze h =
     (if articleContent (app h) = [] then h
      else start (AnalyzeManual (articleContent (app h))) ANALYZING h)"

definition start_define :: "host \<Rightarrow> host" where
  "start_define h =
     (let h1 = h\<lparr>app := (app h)\<lparr>contextMenuPos := None\<rparr>\<rparr>
      in case selectedTextData (app h) of
           None \<Rightarrow> h1
         | Some (word, context) \<Rightarrow> start (Define word context) DEFINING h1)"

text \<open>
  A chat message takes its id (in decimal) from one reading of \<open>Date.now()\<close>, here
  \<open>now\<close>, and its time stamp from the next one, here \<open>stamp\<close>.
\<close>

function decimal :: "nat \<Rightarrow> string" where
  "decimal n = (if n < 10 then [char_of (48 + n)] else decimal (n div 10) @ [char_of (48 + n mod 10)])"
  by pat_completeness auto
termination
  by (relation "measure id") auto

declare decimal.simps [simp del]

definition start_send :: "nat \<Rightarrow> nat \<Rightarrow> host \<Rightarrow> host" where
  "start_send now stamp h =
     (if js_trim (chatInput (app h)) = [] then h
      else
        let userMsg = \<lparr>msg_id = decimal now, msg_role = User, msg_text = chatInput (app h),
                       msg_timestamp = stamp\<rparr>;
            newHistory = chatHistory (app h) @ [userMsg]
        in start (ChatReply newHistory (msg_text userMsg) (articleContent (app h))) CHATTING
             (h\<lparr>app := (app h)\<lparr>chatHistory := newHistory, chatInput := []\<rparr>\<rparr>))"

definition start_image :: "host \<Rightarrow> host" where
  "start_image h =
     (case selectedImage (app h) of
        None \<Rightarrow> h
      | Some picture \<Rightarrow> start (DescribeImage picture (imagePrompt (app h))) IMAGE_ANALYZING h)"

text \<open>
  The continuations: what each handler does when its request is answered, up to the end of
  its \<open>finally\<close> block. \<open>setChatHistory(prev => [...prev, botMsg])\<close> appends to the
  history as it is when the continuation runs.
\<close>

definition manual_analyzed :: "env \<Rightarrow> string \<Rightarrow> app_state \<Rightarrow> app_state" where
  "manual_analyzed e text st =
     (case analyzeArticle e text of
        Inl msg \<Rightarrow> st
      | Inr result \<Rightarrow> st\<lparr>analysis := Some result\<rparr>)\<lparr>loadingState := IDLE\<rparr>"

definition word_defined :: "env \<Rightarrow> string \<Rightarrow> string \<Rightarrow> app_state \<Rightarrow> app_state" where
  "word_defined e word context st =
     (case defineWord e word context of
        None \<Rightarrow> st
      | Some result \<Rightarrow> st\<lparr>dictionary := Some result\<rparr>)\<lparr>loadingState := IDLE\<rparr>"

definition chat_replied ::
  "env \<Rightarrow> nat \<Rightarrow> nat \<Rightarrow> ChatMessage list \<Rightarrow> string \<Rightarrow> string \<Rightarrow> app_state \<Rightarrow> app_state" where
  "chat_replied e now stamp history text article st =
     (case chatWithGemini e history text article of
        None \<Rightarrow> st
      | Some responseText \<Rightarrow>
          st\<lparr>chatHistory := chatHistory st @
                [\<lparr>msg_id = decimal (now + 1), msg_role = Model, msg_text = responseText,
                  msg_timestamp = stamp\<rparr>]\<rparr>)\<lparr>loadingState := IDLE\<rparr>"

definition image_described :: "env \<Rightarrow> string \<Rightarrow> string \<Rightarrow> app_state \<Rightarrow> app_state" where
  "image_described e picture prompt st =
     (case analyzeImage e picture prompt of
        None \<Rightarrow> st
      | Some result \<Rightarrow> st\<lparr>imageAnalysisResult := result\<rparr>)\<lparr>loadingState := IDLE\<rparr>"

text \<open>
  The continuation of a request: the new state and the request it goes on to await (only a
  load whose fetch and extraction succeeded has one: the analysis of the extracted text).
\<close>

fun continuation :: "variant \<Rightarrow> env \<Rightarrow> nat \<Rightarrow> nat \<Rightarrow> request \<Rightarrow> app_state \<Rightarrow> app_state \<times> request list" where
  "continuation v e now stamp (FetchArticle url) st =
     (case load_fetched v e url st of
        (st1, None) \<Rightarrow> (st1, [])
      | (st1, Some text) \<Rightarrow> (st1, [AnalyzeLoaded text]))"
| "continuation v e now stamp (AnalyzeLoaded text) st = (load_analyzed v e text st, [])"
| "continuation v e now stamp (AnalyzeManual text) st = (manual_analyzed e text st, [])"
| "continuation v e now stamp (Define word context) st = (word_defined e word context st, [])"
| "continuation v e now stamp (ChatReply history text article) st = (chat_replied e now stamp history text article st, [])"
| "continuation v e now stamp (DescribeImage picture prompt) st = (image_described e picture prompt st, [])"

text \<open>
  \<open>Completed k now stamp\<close>: the request at position \<open>k\<close> of those in flight is answered;
  \<open>now\<close> and \<open>stamp\<close> are the readings of the clock its continuation takes, if any.
\<close>

definition complete :: "variant \<Rightarrow> env \<Rightarrow> nat \<Rightarrow> nat \<Rightarrow> nat \<Rightarrow> host \<Rightarrow> host" where
  "complete v e k now stamp h =
     (if k < length (in_flight h)
      then
        (case continuation v e now stamp (in_flight h ! k) (app h) of
           (st1, next_requests) \<Rightarrow>
             \<lparr>app = st1,
              in_flight = take k (in_flight h) @ drop (Suc k) (in_flight h) @ next_requests\<rparr>)
      else h)"

fun fire :: "variant \<Rightarrow> env \<Rightarrow> event \<Rightarrow> host \<Rightarrow> host" where
  "fire v e (ChangeUrl u) h = h\<lparr>app := (app h)\<lparr>urlInput := u\<rparr>\<rparr>"
| "fire v e (ChangeChatInput c) h = h\<lparr>app := (app h)\<lparr>chatInput := c\<rparr>\<rparr>"
| "fire v e LoadClick h = start_load v h"
| "fire v e AnalyzeClick h =
     (if articleContent (app h) \<noteq> [] \<and> analysis (app h) = None \<and> loadingState (app h) \<noteq> ANALYZING
      then start_manual_analyze h else h)"
| "fire v e DefineClick h =
     (if contextMenuPos (app h) \<noteq> None then start_define h else h)"
| "fire v e (SendClick now stamp) h =
     (if loadingState (app h) = CHATTING then h else start_send now stamp h)"
| "fire v e (SendEnter now stamp) h = start_send now stamp h"
| "fire v e ImageClick h =
     (if selectedImage (app h) \<noteq> None \<and> loadingState (app h) \<noteq> IMAGE_ANALYZING
      then start_image h else h)"
| "fire v e (Completed k now stamp) h = complete v e k now stamp h"

definition run_events :: "variant \<Rightarrow> env \<Rightarrow> event list \<Rightarrow> host \<Rightarrow> host" where
  "run_events v e evs h = foldl (\<lambda>h ev. fire v e ev h) h evs"

text \<open>The component as \<open>useState\<close> initialises it, with nothing in flight.\<close>

definition initial_state :: app_state where
  "initial_state =
     \<lparr>urlInput = ''https://example.com/blog-post'', articleContent = [], iframeHtml = [],
      loadingState = IDLE, analysis = None, dictionary = None, contextMenuPos = None,
      selectedTextData = None, chatHistory = [], chatInput = [], selectedImage = None,
      imagePrompt = [], imageAnalysisResult = []\<rparr>"


section \<open>A model of URL resolution for the worked examples\<close>

text \<open>
  The rewriter takes the platform's URL resolution as a parameter. For the worked examples
  \<open>resolve_url\<close> models \<open>new URL(url, base).href\<close> on \<open>http\<close> and \<open>https\<close> URLs written
  in lower case whose characters need no percent-encoding: an absolute URL is kept (with
  its path normalised), a scheme-relative, path-absolute, query-only, fragment-only, empty
  or path-relative reference is resolved against the base, and a URL with an empty host,
  or a base that is not absolute, gives nothing (the constructor throws).
\<close>

record url =
  u_scheme :: string
  u_authority :: string
  u_path :: string
  u_query :: string
  u_fragment :: string

definition serialize_url :: "url \<Rightarrow> string" where
  "serialize_url x = u_scheme x @ ''://'' @ u_authority x @ u_path x @ u_query x @ u_fragment x"

fun split_char :: "char \<Rightarrow> string \<Rightarrow> string \<Rightarrow> string list" where
  "split_char sep cur [] = [rev cur]"
| "split_char sep cur (c # cs) =
     (if c = sep then rev cur # split_char sep [] cs else split_char sep (c # cur) cs)"

fun dot_segments :: "string list \<Rightarrow> string list \<Rightarrow> string list" where
  "dot_segments [] acc = rev acc"
| "dot_segments [seg] acc =
     (if seg = ''.'' then rev ([] # acc)
      else if seg = ''..'' then rev ([] # tl acc)
      else rev (seg # acc))"
| "dot_segments (seg # segs) acc =
     (if seg = ''.'' then dot_segments segs acc
      else if seg = ''..'' then dot_segments segs (tl acc)
      else dot_segments segs (seg # acc))"

definition remove_dots :: "string \<Rightarrow> string" where
  "remove_dots p = ''/'' @ js_join ''/'' (dot_segments (split_char CHR ''/'' [] (tl p)) [])"

definition split_pqf :: "string \<Rightarrow> string \<times> string \<times> string" where
  "split_pqf s =
     (let p = takeWhile (\<lambda>c. c \<noteq> CHR ''?'' \<and> c \<noteq> CHR ''#'') s;
          r = dropWhile (\<lambda>c. c \<noteq> CHR ''?'' \<and> c \<noteq> CHR ''#'') s;
          q = takeWhile (\<lambda>c. c \<noteq> CHR ''#'') r;
          f = dropWhile (\<lambda>c. c \<noteq> CHR ''#'') r
      in (p, q, f))"

definition is_alpha :: "char \<Rightarrow> bool" where
  "is_alpha c = (let n = (of_char c :: nat) in (97 \<le> n \<and> n \<le> 122) \<or> (65 \<le> n \<and> n \<le> 90))"

definition is_alnum :: "char \<Rightarrow> bool" where
  "is_alnum c = (let n = (of_char c :: nat) in is_alpha c \<or> (48 \<le> n \<and> n \<le> 57))"

definition url_scheme :: "string \<Rightarrow> string option" where
  "url_scheme u =
     (let sch = takeWhile (\<lambda>c. c \<noteq> CHR '':'') u
      in if length sch < length u \<and> sch \<noteq> [] \<and> is_alpha (hd sch)
            \<and> list_all (\<lambda>c. is_alnum c \<or> c \<in> set ''+-.'') sch
         then Some sch else None)"

text \<open>\<open>parse_hier sch rest\<close>: the URL \<open>sch://rest\<close>, nothing when its host is empty.\<close>

definition parse_hier :: "string \<Rightarrow> string \<Rightarrow> url option" where
  "parse_hier sch rest =
     (let auth = takeWhile (\<lambda>c. c \<notin> set ''/?#'') rest;
          tail = dropWhile (\<lambda>c. c \<notin> set ''/?#'') rest
      in if auth = [] then None
         else (case split_pqf tail of
                 (p, q, f) \<Rightarrow>
                   Some \<lparr>u_scheme = sch, u_authority = auth,
                         u_path = (if p = [] then ''/'' else remove_dots p),
                         u_query = q, u_fragment = f\<rparr>))"

definition parse_absolute :: "string \<Rightarrow> url option" where
  "parse_absolute u =
     (case url_scheme u of
        None \<Rightarrow> None
      | Some sch \<Rightarrow>
          if sch \<in> set [''http'', ''https'']
          then parse_hier sch (dropWhile (\<lambda>c. c = CHR ''/'') (drop (length sch + 1) u))
          else None)"

definition merge_path :: "string \<Rightarrow> string \<Rightarrow> string" where
  "merge_path base_path p = rev (dropWhile (\<lambda>c. c \<noteq> CHR ''/'') (rev base_path)) @ p"

definition resolve_relative :: "string \<Rightarrow> url \<Rightarrow> url option" where
  "resolve_relative r base =
     (if prefix ''//'' r then parse_hier (u_scheme base) (drop 2 r)
      else
        (case split_pqf r of
           (p, q, f) \<Rightarrow>
             if p = [] then
               (if q = [] then Some (base\<lparr>u_fragment := f\<rparr>)
                else Some (base\<lparr>u_query := q, u_fragment := f\<rparr>))
             else if hd p = CHR ''/'' then
               Some (base\<lparr>u_path := remove_dots p, u_query := q, u_fragment := f\<rparr>)
             else
               Some (base\<lparr>u_path := remove_dots (merge_path (u_path base) p),
                          u_query := q, u_fragment := f\<rparr>)))"

definition resolve_url :: "string \<Rightarrow> string \<Rightarrow> string option" where
  "resolve_url u b =
     (case parse_absolute b of
        None \<Rightarrow> None
      | Some base \<Rightarrow>
          (case url_scheme u of
             None \<Rightarrow> map_option serialize_url (resolve_relative u base)
           | Some sch \<Rightarrow>
               if sch \<in> set [''http'', ''https''] then
                 (if prefix ''//'' (drop (length sch + 1) u) \<or> sch \<noteq> u_scheme base
                  then map_option serialize_url (parse_absolute u)
                  else map_option serialize_url (resolve_relative (drop (length sch + 1) u) base))
               else Some u))"

section \<open>Notions used in the statements about the rewriter\<close>

text \<open>
  \<open>map_attrs g\<close> rewrites the attributes of every element of a tree by \<open>g\<close>, given the
  namespace and the tag; \<open>rewrite_for\<close> is what the three loops of \<open>rewriteUrls\<close>
  together do to the attributes of an element with a given namespace and tag, when none
  throws; \<open>url_values\<close> are the values of the attributes the loops read (\<open>src\<close> of
  \<open>img\<close>, \<open>href\<close> of \<open>link\<close> and \<open>a\<close>); \<open>then_rewrite\<close> runs the rewriter on the
  outcome of a run, where there is one.
\<close>

fun map_attrs :: "(namespace \<Rightarrow> string \<Rightarrow> attrs \<Rightarrow> attrs) \<Rightarrow> namespace \<Rightarrow> node \<Rightarrow> node" where
  "map_attrs g ns (Text s) = Text s"
| "map_attrs g ns (Element t a cs) =
     Element t (g ns t a) (map (\<lambda>c. map_attrs g (child_namespace ns t a (tag_of c)) c) cs)"

definition rewrite_for ::
  "(string \<Rightarrow> string \<Rightarrow> string option) \<Rightarrow> string \<Rightarrow> namespace \<Rightarrow> string \<Rightarrow> attrs \<Rightarrow> attrs" where
  "rewrite_for resolve baseUrl ns t a =
     (if t = ''img'' then rewrite_img resolve baseUrl ns a
      else if t = ''link'' then rewrite_link resolve baseUrl ns a
      else if t = ''a'' then rewrite_a resolve baseUrl ns a
      else a)"

definition url_value :: "string \<Rightarrow> attrs \<Rightarrow> string option" where
  "url_value t a =
     (if t = ''img'' then map_of a ''src''
      else if t = ''link'' \<or> t = ''a'' then map_of a ''href''
      else None)"

definition url_values :: "document \<Rightarrow> string list" where
  "url_values d =
     concat (map (\<lambda>e. case url_value (tag_of e) (attrs_of e) of None \<Rightarrow> [] | Some v \<Rightarrow> [v]) (doc_elems d))"

definition then_rewrite ::
  "(string \<Rightarrow> string \<Rightarrow> string option) \<Rightarrow> string \<Rightarrow> load_error + document \<Rightarrow> load_error + document" where
  "then_rewrite resolve baseUrl outcome =
     (case outcome of Inl err \<Rightarrow> Inl err | Inr d \<Rightarrow> rewriteUrls resolve baseUrl d)"

section \<open>Worked examples\<close>

definition page :: "node list \<Rightarrow> document" where
  "page body = [Element ''html'' [] [Element ''head'' [] [], Element ''body'' [] body]]"

definition logo_page :: document where
  "logo_page =
     page [Element ''img'' [(''src'', ''/logo.png''), (''srcset'', ''/logo-2x.png 2x''), (''alt'', ''Logo'')] [],
           Element ''p'' [] [Text ''Read '', Element ''a'' [(''href'', ''more.html#top'')] [Text ''more''],
                            Text '' or '', Element ''a'' [(''href'', ''http://'')] [Text ''nothing'']]]"

definition rewritten_logo_page :: document where
  "rewritten_logo_page =
     page [Element ''img'' [(''src'', ''https://example.com/logo.png''), (''alt'', ''Logo'')] [],
           Element ''p'' [] [Text ''Read '',
              Element ''a'' [(''href'', ''https://example.com/more.html#top''), (''target'', ''_blank'')] [Text ''more''],
              Text '' or '', Element ''a'' [(''href'', ''http://''), (''target'', ''_blank'')] [Text ''nothing'']]]"

definition page_with_embeds :: document where
  "page_with_embeds =
     page [Element ''p'' [] [Text ''intro'', Element ''script'' [] [Text ''alert(1)'']],
           Element ''iframe'' [(''src'', ''https://ads.example.net/'')] [],
           Element ''object'' [(''data'', ''movie.swf'')] [Element ''embed'' [(''src'', ''movie.swf'')] []],
           Element ''nav'' [] [Element ''a'' [(''href'', ''/home'')] [Text ''Home'']]]"

definition hello_markup :: string where
  "hello_markup = ''<article><p>Hello world. The sky is blue today.</p></article>''"

definition hello_page :: document where
  "hello_page = page [Element ''article'' [] [Element ''p'' [] [Text ''Hello world. The sky is blue today.'']]]"

definition hello_env :: env where
  "hello_env =
     \<lparr>fetch_primary = (\<lambda>u. Some hello_markup),
      fetch_fallback = (\<lambda>u. Inl ''Fallback proxy failed: Not Found''),
      parseFromString = (\<lambda>markup. hello_page),
      resolveUrl = resolve_url,
      analyzeArticle = (\<lambda>text. Inl ''analysis is not reached''),
      defineWord = (\<lambda>word context. None),
      chatWithGemini = (\<lambda>history text article. None),
      analyzeImage = (\<lambda>picture prompt. None)\<rparr>"

definition offline_env :: env where
  "offline_env =
     \<lparr>fetch_primary = (\<lambda>u. None),
      fetch_fallback = (\<lambda>u. Inl ''Failed to fetch''),
      parseFromString = (\<lambda>markup. []),
      resolveUrl = resolve_url,
      analyzeArticle = (\<lambda>text. Inl ''analysis is not reached''),
      defineWord = (\<lambda>word context. None),
      chatWithGemini = (\<lambda>history text article. None),
      analyzeImage = (\<lambda>picture prompt. None)\<rparr>"

text \<open>A page with a link inside a drawing, and a proxy that serves it.\<close>

definition drawing_page :: document where
  "drawing_page =
     page [Element ''article'' []
             [Element ''p'' [] [Text ''See the '', Element ''a'' [(''href'', ''/map'')] [Text ''map''], Text ''.''],
              Element ''svg'' [(''viewBox'', ''0 0 10 10'')]
                [Element ''a'' [(''href'', ''/map'')] [Element ''circle'' [(''r'', ''5'')] []]]]]"

definition drawing_env :: env where
  \<open>drawing_env =
     \<lparr>fetch_primary = (\<lambda>u. Some ''<article><p>See the <a href="/map">map</a>.</p><svg viewBox="0 0 10 10"><a href="/map"><circle r="5"/></a></svg></article>''),
      fetch_fallback = (\<lambda>u. Inl ''Fallback proxy failed: Not Found''),
      parseFromString = (\<lambda>markup. drawing_page),
      resolveUrl = resolve_url,
      analyzeArticle = (\<lambda>text. Inl ''analysis is not reached''),
      defineWord = (\<lambda>word context. None),
      chatWithGemini = (\<lambda>history text article. None),
      analyzeImage = (\<lambda>picture prompt. None)\<rparr>\<close>

definition old_analysis :: AnalysisResult where
  "old_analysis = \<lparr>summary = ''Summary of the previous article'', keyPoints = []\<rparr>"

definition old_message :: ChatMessage where
  "old_message = \<lparr>msg_id = ''1'', msg_role = User, msg_text = ''What is it about?'', msg_timestamp = 1\<rparr>"

definition old_dictionary :: DictionaryResult where
  "old_dictionary = \<lparr>dict_word = ''sky'', englishDefinition = ''the upper air'',
     chineseDefinition = ''tian kong'', contextExplanation = ''the sky above''\<rparr>"

text \<open>The component after an earlier article was loaded, analysed and talked about.\<close>

definition used_state :: app_state where
  "used_state =
     initial_state\<lparr>articleContent := ''Text of the previous article'',
       iframeHtml := ''<html><head></head><body>previous</body></html>'',
       analysis := Some old_analysis, dictionary := Some old_dictionary,
       contextMenuPos := Some (10, 20), selectedTextData := Some (''sky'', ''The sky is blue''),
       chatHistory := [old_message]\<rparr>"

text \<open>
  Hosts with nothing in flight: after the earlier article; the same before its analysis;
  with an image chosen; and a chat service that answers.
\<close>

definition used_host :: host where
  "used_host = \<lparr>app = used_state, in_flight = []\<rparr>"



definition chatty_env :: env where
  "chatty_env = offline_env\<lparr>chatWithGemini := (\<lambda>history text article. Some ''It is about the sky.'')\<rparr>"

definition hello_article :: node where
  "hello_article = Element ''article'' [] [Element ''p'' [] [Text ''Hello world. The sky is blue today.'']]"

text \<open>The page of the example after the first three steps of the iframe variant.\<close>

definition hello_prepared :: document where
  "hello_prepared = [Element ''html'' [] [Element ''head'' [] [style_element], Element ''body'' [] [hello_article]]]"

definition long_article :: node where
  "long_article =
     Element ''article'' []
       [Element ''h1'' [] [Text ''A short title''],
        Element ''p'' [] [Text ''  The first paragraph of the article is long enough to be kept.  ''],
        Element ''ul'' []
          [Element ''li'' [] [Text ''Exactly forty code units are in this one''],
           Element ''li'' [] [Text ''An item of the list that has more than forty code units.'']],
        Element ''div'' [(''class'', ''aside'')]
          [Text ''Text outside of a block is not collected, however long it may be.'',
           Element ''blockquote'' [] [Text ''A quotation that is long enough to be kept as well.'']]]"

definition empty_selection :: selection where
  "empty_selection = \<lparr>sel_string = ''   '', anchor_parent_text = Some ''The sky is blue''\<rparr>"

definition word_selection :: selection where
  "word_selection = \<lparr>sel_string = '' blue '', anchor_parent_text = Some (replicate 250 CHR ''a'')\<rparr>"

section \<open>More string operations\<close>

text \<open>
  \<open>split_first pat text\<close>: what stands before and after the first occurrence of \<open>pat\<close>
  in \<open>text\<close>; \<open>String.prototype.includes\<close> asks whether there is one.
\<close>

fun split_first :: "string \<Rightarrow> string \<Rightarrow> (string \<times> string) option" where
  "split_first pat [] = (if pat = [] then Some ([], []) else None)"
| "split_first pat (c # cs) =
     (if prefix pat (c # cs) then Some ([], drop (length pat) (c # cs))
      else map_option (\<lambda>(pre, post). (c # pre, post)) (split_first pat cs))"

definition js_includes :: "string \<Rightarrow> string \<Rightarrow> bool" where
  "js_includes text pat = (split_first pat text \<noteq> None)"

text \<open>
  \<open>String.prototype.split\<close> with a string separator: the pieces between the successive
  occurrences of the separator, found from left to right without overlap; with the empty
  separator, the code units one by one.
\<close>

fun split_from :: "string \<Rightarrow> string \<Rightarrow> nat \<Rightarrow> string \<Rightarrow> string list" where
  "split_from sep cur skip [] = [rev cur]"
| "split_from sep cur (Suc k) (c # cs) = split_from sep cur k cs"
| "split_from sep cur 0 (c # cs) =
     (if prefix sep (c # cs) then rev cur # split_from sep [] (length sep - 1) cs
      else split_from sep (c # cur) 0 cs)"

definition js_split :: "string \<Rightarrow> string \<Rightarrow> string list" where
  "js_split sep text = (if sep = [] then map (\<lambda>c. [c]) text else split_from sep [] 0 text)"

text \<open>
  \<open>String.prototype.replace\<close> with a string pattern and a string replacement: the first
  occurrence of the pattern is replaced, and in the replacement \<open>$$\<close> stands for a dollar
  sign, \<open>$&\<close> for the matched text, \<open>$`\<close> for the text before the match and \<open>$'\<close> for
  the text after it.
\<close>

fun expand_replacement :: "string \<Rightarrow> string \<Rightarrow> string \<Rightarrow> string \<Rightarrow> string" where
  "expand_replacement m pre post [] = []"
| "expand_replacement m pre post [c] = [c]"
| "expand_replacement m pre post (c # d # cs) =
     (if c = CHR ''$'' \<and> d = CHR ''$'' then CHR ''$'' # expand_replacement m pre post cs
      else if c = CHR ''$'' \<and> d = CHR ''&'' then m @ expand_replacement m pre post cs
      else if c = CHR ''$'' \<and> d = CHR 0x60 then pre @ expand_replacement m pre post cs
      else if c = CHR ''$'' \<and> d = CHR 0x27 then post @ expand_replacement m pre post cs
      else c # expand_replacement m pre post (d # cs))"

definition js_replace :: "string \<Rightarrow> string \<Rightarrow> string \<Rightarrow> string" where
  "js_replace text pat repl =
     (case split_first pat text of
        None \<Rightarrow> text
      | Some (pre, post) \<Rightarrow> pre @ expand_replacement pat pre post repl @ post)"

section \<open>Parsing markup\<close>

text \<open>
  Writing \<open>innerHTML\<close> runs the platform's fragment parser on the string. The model
  covers what the serialisation above and the highlight templates produce: text with the
  character references \<open>&amp;\<close>, \<open>&lt;\<close>, \<open>&gt;\<close>, \<open>&quot;\<close> and \<open>&nbsp;\<close> (with or
  without their semicolon), start tags with attributes, end tags, and comments and
  declarations (skipped up to the next \<open>>\<close>). Line breaks are normalised first,
  as the parser's input stream is. Elements nest as their tags say: an end tag closes the
  innermost open element of its name and everything opened inside it, an end tag with no
  open element of its name is ignored, void elements have no content. The insertion rules
  that are special to particular tags, and the other character references, are not
  modelled.
\<close>

fun normalize_newlines :: "string \<Rightarrow> string" where
  "normalize_newlines [] = []"
| "normalize_newlines [c] = (if c = CHR 0x0D then [CHR 0x0A] else [c])"
| "normalize_newlines (c # d # cs) =
     (if c = CHR 0x0D \<and> d = CHR 0x0A then CHR 0x0A # normalize_newlines cs
      else if c = CHR 0x0D then CHR 0x0A # normalize_newlines (d # cs)
      else c # normalize_newlines (d # cs))"

definition char_refs :: "(string \<times> char) list" where
  "char_refs = [(''amp'', CHR ''&''), (''lt'', CHR ''<''), (''gt'', CHR ''>''), (''quot'', CHR 0x22),
     (''nbsp'', CHR 0xA0)]"

definition drop_semicolon :: "string \<Rightarrow> string" where
  "drop_semicolon s = (case s of [] \<Rightarrow> [] | c # cs \<Rightarrow> if c = CHR '';'' then cs else c # cs)"

function decode :: "string \<Rightarrow> string" where
  "decode [] = []"
| "decode (c # cs) =
     (if c = CHR ''&'' then
        (case find (\<lambda>ref. prefix (fst ref) cs) char_refs of
           None \<Rightarrow> c # decode cs
         | Some ref \<Rightarrow> snd ref # decode (drop_semicolon (drop (length (fst ref)) cs)))
      else c # decode cs)"
  by pat_completeness auto
termination
proof (relation "measure length", goal_cases)
  case 1
  show ?case by simp
next
  case (2 c cs)
  then show ?case by simp
next
  case (3 c cs ref)
  have "length (drop_semicolon s) \<le> length s" for s
    by (cases s) (simp_all add: drop_semicolon_def)
  from this[of "drop (length (fst ref)) cs"] show ?case by simp
next
  case (4 c cs)
  then show ?case by simp
qed

definition html_space :: "char \<Rightarrow> bool" where
  "html_space c = (c \<in> set [CHR 0x09, CHR 0x0A, CHR 0x0C, CHR 0x0D, CHR 0x20])"

text \<open>
  The inside of a start tag after its name, one code unit at a time: the attributes read
  so far (latest first), and where the reading stands. The result is the attributes and
  what follows the closing \<open>>\<close>, or nothing when the input ends inside the tag. Of
  attributes with the same name the first one counts.
\<close>

datatype tag_state =
    BeforeName
  | InName string
  | AfterName string
  | BeforeValue string
  | InQuoted char string string
  | InUnquoted string string

definition add_attr :: "string \<Rightarrow> string \<Rightarrow> attrs \<Rightarrow> attrs" where
  "add_attr n v acc = (if map_of acc (rev n) = None then (rev n, decode (rev v)) # acc else acc)"

fun tag_body :: "tag_state \<Rightarrow> attrs \<Rightarrow> string \<Rightarrow> (attrs \<times> string) option" where
  "tag_body st acc [] = None"
| "tag_body BeforeName acc (c # cs) =
     (if c = CHR ''>'' then Some (rev acc, cs)
      else if html_space c \<or> c = CHR ''/'' then tag_body BeforeName acc cs
      else tag_body (InName [ascii_lower c]) acc cs)"
| "tag_body (InName n) acc (c # cs) =
     (if c = CHR ''>'' then Some (rev (add_attr n [] acc), cs)
      else if c = CHR ''/'' then tag_body BeforeName (add_attr n [] acc) cs
      else if html_space c then tag_body (AfterName n) acc cs
      else if c = CHR ''='' then tag_body (BeforeValue n) acc cs
      else tag_body (InName (ascii_lower c # n)) acc cs)"
| "tag_body (AfterName n) acc (c # cs) =
     (if c = CHR ''>'' then Some (rev (add_attr n [] acc), cs)
      else if c = CHR ''/'' then tag_body BeforeName (add_attr n [] acc) cs
      else if html_space c then tag_body (AfterName n) acc cs
      else if c = CHR ''='' then tag_body (BeforeValue n) acc cs
      else tag_body (InName [ascii_lower c]) (add_attr n [] acc) cs)"
| "tag_body (BeforeValue n) acc (c # cs) =
     (if c = CHR ''>'' then Some (rev (add_attr n [] acc), cs)
      else if html_space c then tag_body (BeforeValue n) acc cs
      else if c = CHR 0x22 \<or> c = CHR 0x27 then tag_body (InQuoted c n []) acc cs
      else tag_body (InUnquoted n [c]) acc cs)"
| "tag_body (InQuoted q n v) acc (c # cs) =
     (if c = q then tag_body BeforeName (add_attr n v acc) cs
      else tag_body (InQuoted q n (c # v)) acc cs)"
| "tag_body (InUnquoted n v) acc (c # cs) =
     (if c = CHR ''>'' then Some (rev (add_attr n v acc), cs)
      else if html_space c then tag_body BeforeName (add_attr n v acc) cs
      else tag_body (InUnquoted n (c # v)) acc cs)"

lemma tag_body_shorter: "tag_body st acc s = Some (a, rest) \<Longrightarrow> length rest < length s"
  by (induction st acc s rule: tag_body.induct) (auto split: if_splits)

datatype token = Chars string | StartTag string attrs | EndTag string

definition name_char :: "char \<Rightarrow> bool" where
  "name_char c = (\<not> html_space c \<and> c \<noteq> CHR ''/'' \<and> c \<noteq> CHR ''>'')"

definition after_gt :: "string \<Rightarrow> string" where
  "after_gt s = drop 1 (dropWhile (\<lambda>c. c \<noteq> CHR ''>'') s)"

lemma after_gt_shorter: "length (after_gt s) \<le> length s"
proof -
  have "length (dropWhile (\<lambda>c. c \<noteq> CHR ''>'') s) \<le> length s"
    by (rule length_dropWhile_le)
  then show ?thesis by (simp add: after_gt_def)
qed

function tokenize :: "string \<Rightarrow> token list" where
  "tokenize [] = []"
| "tokenize (c # cs) =
     (if c \<noteq> CHR ''<'' then
        Chars (decode (c # takeWhile (\<lambda>x. x \<noteq> CHR ''<'') cs))
          # tokenize (dropWhile (\<lambda>x. x \<noteq> CHR ''<'') cs)
      else
        (case cs of
           [] \<Rightarrow> [Chars ''<'']
         | d # ds \<Rightarrow>
             if d = CHR ''/'' then
               (case ds of
                  [] \<Rightarrow> [Chars ''</'']
                | e # es \<Rightarrow>
                    if is_alpha e then
                      EndTag (map ascii_lower (takeWhile name_char (e # es))) # tokenize (after_gt es)
                    else if e = CHR ''>'' then tokenize es
                    else tokenize (after_gt es))
             else if is_alpha d then
               (case tag_body BeforeName [] (dropWhile name_char ds) of
                  None \<Rightarrow> []
                | Some (a, rest) \<Rightarrow>
                    StartTag (map ascii_lower (d # takeWhile name_char ds)) a # tokenize rest)
             else if d = CHR ''!'' \<or> d = CHR ''?'' then tokenize (after_gt ds)
             else Chars ''<'' # tokenize (d # ds)))"
  by pat_completeness auto
termination
proof (relation "measure length", goal_cases)
  case 1
  show ?case by simp
next
  case (2 c cs)
  then show ?case by (simp add: length_dropWhile_le le_imp_less_Suc)
next
  case (3 c cs d ds e es)
  then show ?case using after_gt_shorter[of es] by simp
next
  case (4 c cs d ds e es)
  then show ?case by simp
next
  case (5 c cs d ds e es)
  then show ?case using after_gt_shorter[of es] by simp
next
  case (6 c cs d ds x a rest)
  then have "tag_body BeforeName [] (dropWhile name_char ds) = Some (a, rest)"
    by simp
  then have "length rest < length (dropWhile name_char ds)"
    by (rule tag_body_shorter)
  also have "\<dots> \<le> length ds" by (rule length_dropWhile_le)
  finally show ?case using 6 by simp
next
  case (7 c cs d ds)
  then show ?case using after_gt_shorter[of ds] by simp
next
  case (8 c cs d ds)
  then show ?case by simp
qed

declare tokenize.simps(2) [simp del]
declare decode.simps(2) [simp del]

text \<open>
  Building the tree: the stack of open elements (innermost first, each with its children
  so far, latest first) and the top-level nodes so far (latest first). Characters join the
  text node before them; a \<open>NUL\<close> is dropped.
\<close>

type_synonym open_element = "string \<times> attrs \<times> node list"

fun push_text :: "string \<Rightarrow> node list \<Rightarrow> node list" where
  "push_text s (Text t # ns) = Text (t @ s) # ns"
| "push_text s ns = Text s # ns"

definition add_chars :: "string \<Rightarrow> node list \<Rightarrow> node list" where
  "add_chars s ns = (let s' = filter (\<lambda>c. c \<noteq> CHR 0x00) s in if s' = [] then ns else push_text s' ns)"

fun close_until :: "string \<Rightarrow> open_element list \<Rightarrow> node list \<Rightarrow> open_element list \<times> node list" where
  "close_until t [] roots = ([], roots)"
| "close_until t [(t', a, k)] roots = ([], Element t' a (rev k) # roots)"
| "close_until t ((t', a, k) # (t2, a2, k2) # st) roots =
     (if t' = t then ((t2, a2, Element t' a (rev k) # k2) # st, roots)
      else close_until t ((t2, a2, Element t' a (rev k) # k2) # st) roots)"

fun close_all :: "open_element list \<Rightarrow> node list \<Rightarrow> node list" where
  "close_all [] roots = roots"
| "close_all [(t', a, k)] roots = Element t' a (rev k) # roots"
| "close_all ((t', a, k) # (t2, a2, k2) # st) roots = close_all ((t2, a2, Element t' a (rev k) # k2) # st) roots"

fun build :: "token list \<Rightarrow> open_element list \<Rightarrow> node list \<Rightarrow> node list" where
  "build [] st roots = rev (close_all st roots)"
| "build (Chars s # ts) [] roots = build ts [] (add_chars s roots)"
| "build (Chars s # ts) ((t, a, k) # st) roots = build ts ((t, a, add_chars s k) # st) roots"
| "build (StartTag t a # ts) st roots =
     (if t \<in> set void_tags then
        (case st of
           [] \<Rightarrow> build ts [] (Element t a [] # roots)
         | (t', a', k) # st' \<Rightarrow> build ts ((t', a', Element t a [] # k) # st') roots)
      else build ts ((t, a, []) # st) roots)"
| "build (EndTag t # ts) st roots =
     (if t \<in> set (map fst st) then
        (case close_until t st roots of (st', roots') \<Rightarrow> build ts st' roots')
      else build ts st roots)"

text \<open>
  Text that reads the same as markup: none of the code units that the serialisation
  escapes or the parser rewrites.
\<close>

definition plain_char :: "char \<Rightarrow> bool" where
  "plain_char c = (c \<notin> set [CHR ''&'', CHR ''<'', CHR ''>'', CHR 0xA0, CHR 0x0D, CHR 0x00])"

definition plain_text :: "string \<Rightarrow> bool" where
  "plain_text s = list_all plain_char s"

definition rcdata_tags :: "string list" where
  "rcdata_tags = [''textarea'', ''title'']"

definition text_nodes :: "string \<Rightarrow> node list" where
  "text_nodes s = (if s = [] then [] else [Text s])"

text \<open>
  The fragment parser with its context element: under a raw-text element the whole string
  is text, under \<open>textarea\<close> and \<open>title\<close> it is text with character references.
\<close>

definition parse_fragment :: "string \<Rightarrow> string \<Rightarrow> node list" where
  "parse_fragment context html =
     (let s = normalize_newlines html
      in if context \<in> set rawtext_tags then text_nodes s
         else if context \<in> set rcdata_tags then text_nodes (decode s)
         else build (tokenize s) [] [])"

definition set_innerHTML :: "string \<Rightarrow> node \<Rightarrow> node" where
  "set_innerHTML html n = Element (tag_of n) (attrs_of n) (parse_fragment (tag_of n) html)"

section \<open>Anchor locator\<close>

subsection \<open>Addressing nodes of the live tree\<close>

text \<open>
  The handlers hold references to nodes of the rendered document and write through them.
  A reference is the path of the node from the root of the tree: the indices of the
  children to descend into.
\<close>

type_synonym path = "nat list"

fun get_at :: "path \<Rightarrow> node \<Rightarrow> node option" where
  "get_at [] n = Some n"
| "get_at (i # p) n =
     (case n of
        Text s \<Rightarrow> None
      | Element t a cs \<Rightarrow> if i < length cs then get_at p (cs ! i) else None)"

fun update_at :: "path \<Rightarrow> (node \<Rightarrow> node) \<Rightarrow> node \<Rightarrow> node" where
  "update_at [] f n = f n"
| "update_at (i # p) f n =
     (case n of
        Text s \<Rightarrow> Text s
      | Element t a cs \<Rightarrow>
          if i < length cs then Element t a (cs[i := update_at p f (cs ! i)]) else Element t a cs)"

text \<open>The paths of the elements of a subtree, in tree order (the root first).\<close>

fun elem_paths :: "node \<Rightarrow> path list"
  and elem_paths_list :: "nat \<Rightarrow> node list \<Rightarrow> path list" where
  "elem_paths (Text s) = []"
| "elem_paths (Element t a cs) = [] # elem_paths_list 0 cs"
| "elem_paths_list i [] = []"
| "elem_paths_list i (c # cs) = map ((#) i) (elem_paths c) @ elem_paths_list (Suc i) cs"

text \<open>
  The walk of the \<open>TreeWalker\<close> over the text nodes below an element: the path of the
  parent of the first text node whose text contains the anchor.
\<close>

fun find_text :: "string \<Rightarrow> node \<Rightarrow> path option"
  and find_text_list :: "string \<Rightarrow> nat \<Rightarrow> node list \<Rightarrow> path option" where
  "find_text anchor (Text s) = None"
| "find_text anchor (Element t a cs) = find_text_list anchor 0 cs"
| "find_text_list anchor i [] = None"
| "find_text_list anchor i (c # cs) =
     (case c of
        Text s \<Rightarrow> if js_includes s anchor then Some [] else find_text_list anchor (Suc i) cs
      | Element t a ds \<Rightarrow>
          (case find_text anchor c of
             Some p \<Rightarrow> Some (i # p)
           | None \<Rightarrow> find_text_list anchor (Suc i) cs))"

text \<open>The strings of the text nodes of a subtree, in tree order.\<close>

fun texts :: "node \<Rightarrow> string list" where
  "texts (Text s) = [s]"
| "texts (Element t a cs) = concat (map texts cs)"

text \<open>\<open>getElementById\<close>: the path of the first element in tree order with the id.\<close>

fun find_id :: "string \<Rightarrow> node \<Rightarrow> path option"
  and find_id_list :: "string \<Rightarrow> nat \<Rightarrow> node list \<Rightarrow> path option" where
  "find_id i (Text s) = None"
| "find_id i (Element t a cs) =
     (if map_of a ''id'' = Some i then Some [] else find_id_list i 0 cs)"
| "find_id_list i k [] = None"
| "find_id_list i k (c # cs) =
     (case find_id i c of
        Some p \<Rightarrow> Some (k # p)
      | None \<Rightarrow> find_id_list i (Suc k) cs)"

definition getElementById :: "string \<Rightarrow> node \<Rightarrow> path option" where
  "getElementById i d = find_id i d"

datatype outcome =
    Ignored
  | Highlighted "path option"
  | NativeSelection
  | Alerted string
  | Faulted

subsection \<open>Direct-render variant\<close>

text \<open>
  \<open>articleRef.current.querySelectorAll('p')\<close> as paths: the \<open>p\<close> elements below the
  pane.
\<close>

definition paragraphs :: "node \<Rightarrow> path list" where
  "paragraphs pane =
     filter (\<lambda>p. case get_at p pane of None \<Rightarrow> False | Some n \<Rightarrow> matches (Tag ''p'') n)
       (tl (elem_paths pane))"

definition highlight_direct :: "string \<Rightarrow> node \<Rightarrow> node" where
  \<open>highlight_direct cleanAnchor p =
     (let parts = js_split cleanAnchor (innerHTML p)
      in if length parts > 1
         then set_innerHTML
                (js_join (''<span class="bg-yellow-200 transition-colors duration-1000">'' @ cleanAnchor @ ''</span>'')
                   parts) p
         else p)\<close>

text \<open>The \<open>for\<close> loop: the first paragraph whose text contains the anchor.\<close>

definition first_paragraph :: "string \<Rightarrow> node \<Rightarrow> path option" where
  "first_paragraph cleanAnchor pane =
     find (\<lambda>p. case get_at p pane of
                   None \<Rightarrow> False
                 | Some n \<Rightarrow> js_includes (textContent n) cleanAnchor)
       (paragraphs pane)"

text \<open>
  The result of a call: what the user sees happen, the tree after the call, and the timer
  the call has set (the paragraph and its markup before the highlight).
\<close>

definition handleScrollToQuote_direct ::
  "node option \<Rightarrow> string \<Rightarrow> outcome \<times> node option \<times> (path \<times> string) option" where
  "handleScrollToQuote_direct articleRef anchor =
     (case articleRef of
        None \<Rightarrow> (Ignored, None, None)
      | Some pane \<Rightarrow>
          let cleanAnchor = js_trim anchor in
          (case first_paragraph cleanAnchor pane of
             Some p \<Rightarrow>
               (Highlighted (Some p),
                Some (update_at p (highlight_direct cleanAnchor) pane),
                Some (p, case get_at p pane of None \<Rightarrow> [] | Some n \<Rightarrow> innerHTML n))
           | None \<Rightarrow> (Alerted ''Could not find exact text match for anchor.'', Some pane, None)))"

text \<open>The timer's callback, 3000 ms later: \<open>p.innerHTML = originalHTML\<close>.\<close>

definition restore_direct :: "path \<times> string \<Rightarrow> node \<Rightarrow> node" where
  "restore_direct timer pane = update_at (fst timer) (set_innerHTML (snd timer)) pane"

subsection \<open>Iframe variant\<close>

definition highlight_open :: string where
  \<open>highlight_open = ''<span class="smartread-highlight" id="temp-highlight">''\<close>

definition highlight_template :: "string \<Rightarrow> string" where
  "highlight_template cleanAnchor = highlight_open @ cleanAnchor @ ''</span>''"

definition highlight_iframe :: "string \<Rightarrow> node \<Rightarrow> node" where
  "highlight_iframe cleanAnchor parent =
     set_innerHTML (js_replace (innerHTML parent) cleanAnchor (highlight_template cleanAnchor)) parent"

text \<open>\<open>doc.body\<close> of the frame's document, as the index of the child of its root element.\<close>

definition body_index :: "node \<Rightarrow> nat option" where
  "body_index d =
     (if tag_of d = ''html''
      then map_option fst
             (find (\<lambda>ic. is_element (snd ic) \<and> (tag_of (snd ic) = ''body'' \<or> tag_of (snd ic) = ''frameset''))
                (enumerate 0 (children d)))
      else None)"

text \<open>
  The frame's document is given by its root element (nothing when the frame is not
  mounted), the native text search \<open>window.find\<close> by its answer (nothing when the
  platform has none). The timer holds the highlight element the call has looked up, if
  any, and the anchor. A document without a body makes \<open>createTreeWalker\<close> throw. What
  the handler does with the range of a successful native search is the platform's doing
  and is left out: the tree is returned as it was. Writing \<open>innerHTML\<close> of an HTML
  element does not throw, so the \<open>catch\<close> branch around the highlight is never taken.
\<close>

definition handleScrollToQuote_iframe ::
  "(string \<Rightarrow> bool) option \<Rightarrow> node option \<Rightarrow> string
     \<Rightarrow> outcome \<times> node option \<times> (path option \<times> string) option" where
  "handleScrollToQuote_iframe win_find contentDocument anchor =
     (case contentDocument of
        None \<Rightarrow> (Ignored, None, None)
      | Some d \<Rightarrow>
          if anchor = [] then (Ignored, Some d, None)
          else
            let cleanAnchor = js_trim anchor in
            if cleanAnchor = [] then (Ignored, Some d, None)
            else
              (case body_index d of
                 None \<Rightarrow> (Faulted, Some d, None)
               | Some b \<Rightarrow>
                   (case find_text cleanAnchor (children d ! b) of
                      Some p \<Rightarrow>
                        let d' = update_at (b # p) (highlight_iframe cleanAnchor) d;
                            highlightEl = getElementById ''temp-highlight'' d'
                        in (Highlighted highlightEl, Some d', Some (highlightEl, cleanAnchor))
                    | None \<Rightarrow>
                        (case win_find of
                           None \<Rightarrow> (Ignored, Some d, None)
                         | Some found \<Rightarrow>
                             if found cleanAnchor then (NativeSelection, Some d, None)
                             else (Alerted ''Could not find the exact text in the article view.'',
                                   Some d, None)))))"

text \<open>
  The timer's callback: the highlight element, if the call found one, is replaced in its
  parent by a text node with the anchor. (The root element has no parent element to
  replace it in.)
\<close>

definition restore_iframe :: "path option \<times> string \<Rightarrow> node \<Rightarrow> node" where
  "restore_iframe timer d =
     (case fst timer of
        None \<Rightarrow> d
      | Some p \<Rightarrow> if p = [] then d else update_at p (\<lambda>highlightEl. Text (snd timer)) d)"

text \<open>
  The tree after a whole cycle: the call, and then the callback of the timer the call has
  set, if it has set one.
\<close>

definition after_cycle_direct :: "node \<Rightarrow> string \<Rightarrow> node" where
  "after_cycle_direct pane anchor =
     (case handleScrollToQuote_direct (Some pane) anchor of
        (out, Some pane', Some timer) \<Rightarrow> restore_direct timer pane'
      | (out, Some pane', None) \<Rightarrow> pane'
      | (out, None, timer) \<Rightarrow> pane)"

definition after_cycle_iframe :: "(string \<Rightarrow> bool) option \<Rightarrow> node \<Rightarrow> string \<Rightarrow> node" where
  "after_cycle_iframe win_find d anchor =
     (case handleScrollToQuote_iframe win_find (Some d) anchor of
        (out, Some d', Some timer) \<Rightarrow> restore_iframe timer d'
      | (out, Some d', None) \<Rightarrow> d'
      | (out, None, timer) \<Rightarrow> d)"

text \<open>What the direct-render variant renders into the pane that \<open>articleRef\<close> refers to
  (without its icons, buttons and class attributes).\<close>

definition text_p :: "string \<Rightarrow> node" where
  "text_p s = Element ''p'' [] (text_nodes s)"

definition render_pane :: "app_state \<Rightarrow> node" where
  "render_pane st =
     Element ''div'' []
       ([Element ''div'' []
           (if articleContent st = []
            then [Element ''div'' [] [text_p ''Enter a URL to load the article.'',
                                     text_p ''Right-click words for definitions.'']]
            else [Element ''article'' []
                    (map text_p (filter (\<lambda>para. js_trim para \<noteq> [])
                                   (js_split [CHR 0x0A] (articleContent st))))])]
        @ (case dictionary st of
             None \<Rightarrow> []
           | Some entry \<Rightarrow>
               [Element ''div'' []
                  [Element ''div'' [] [Element ''h3'' [] (text_nodes (dict_word entry))],
                   Element ''div'' []
                     [Element ''div'' [] [Element ''span'' [] [Text ''English''], text_p (englishDefinition entry)],
                      Element ''div'' [] [Element ''span'' [] [Text ''Chinese''], text_p (chineseDefinition entry)],
                      Element ''div'' [] [Element ''span'' [] [Text ''Context''], text_p (contextExplanation entry)]]]]))"

definition sky_state :: app_state where
  "sky_state = initial_state\<lparr>articleContent := ''Hello world. The sky is blue today.\<newline>\<newline>R&D amp''\<rparr>"

definition sky_doc :: node where
  "sky_doc = Element ''html'' [] [Element ''head'' [] [],
     Element ''body'' [] [Element ''article'' []
       [Element ''p'' [] [Text ''Hello world. The sky is blue today.''],
        Element ''p'' [] [Text ''R&D amp'']]]]"

section \<open>Properties of the sanitizer\<close>

lemma matches_any_Tag:
  "matches_any (map Tag ts) n \<longleftrightarrow> is_element n \<and> tag_of n \<in> set ts"
  by (induction ts) (auto simp: matches_any_def)

lemma tags_remove_matching:
  "set (map tag_of (subtree_elems (remove_matching sels n)))
     \<subseteq> set (map tag_of (subtree_elems n))"
proof (induction sels n rule: remove_matching.induct)
  case (1 sels s)
  show ?case by simp
next
  case (2 sels t a cs)
  show ?case using 2 by (fastforce simp: image_iff)
qed

lemma doc_tags_remove_all_subset: "set (doc_tags (remove_all sels d)) \<subseteq> set (doc_tags d)"
  using tags_remove_matching unfolding doc_tags_def doc_elems_def remove_all_def
  by (fastforce simp: image_iff)

lemma no_match_remove_matching:
  "\<not> matches_any sels n \<Longrightarrow> e \<in> set (subtree_elems (remove_matching sels n))
     \<Longrightarrow> (\<And>m a. matches_any sels m \<longleftrightarrow> is_element m \<and> tag_of m \<in> T)
     \<Longrightarrow> tag_of e \<notin> T"
proof (induction sels n arbitrary: e rule: remove_matching.induct)
  case (1 sels s)
  then show ?case by simp
next
  case (2 sels t a cs)
  note IH = "2.IH" and prems = "2.prems"
  from prems(2) consider
    (self) "e = Element t a (map (remove_matching sels) (filter (\<lambda>c. \<not> matches_any sels c) cs))"
    | (child) c where "c \<in> set cs" "\<not> matches_any sels c"
        "e \<in> set (subtree_elems (remove_matching sels c))"
    by auto
  then show ?case
  proof cases
    case self
    with prems(1) prems(3) show ?thesis by auto
  next
    case child
    show ?thesis using IH[of c e] child prems(3) by auto
  qed
qed

lemma remove_all_no_tag:
  assumes "t \<in> set ts"
  shows "t \<notin> set (doc_tags (remove_all (map Tag ts) d))"
proof
  assume "t \<in> set (doc_tags (remove_all (map Tag ts) d))"
  then obtain c e where c: "c \<in> set d" "\<not> matches_any (map Tag ts) c"
    and e: "e \<in> set (subtree_elems (remove_matching (map Tag ts) c))" and te: "tag_of e = t"
    unfolding doc_tags_def doc_elems_def remove_all_def by auto
  have "tag_of e \<notin> set ts"
    by (rule no_match_remove_matching[OF c(2) e]) (simp add: matches_any_Tag)
  with te assms show False by simp
qed

lemma foldl_remove_all_subset:
  "set (doc_tags (foldl (\<lambda>doc t. remove_all [Tag t] doc) d ts)) \<subseteq> set (doc_tags d)"
proof (induction ts arbitrary: d)
  case Nil
  show ?case by simp
next
  case (Cons x xs)
  have "set (doc_tags (foldl (\<lambda>doc t. remove_all [Tag t] doc) (remove_all [Tag x] d) xs))
          \<subseteq> set (doc_tags (remove_all [Tag x] d))"
    by (rule Cons.IH)
  also have "\<dots> \<subseteq> set (doc_tags d)"
    by (rule doc_tags_remove_all_subset)
  finally show ?case by simp
qed

lemma foldl_remove_all_no_tag:
  "t \<in> set ts \<Longrightarrow> t \<notin> set (doc_tags (foldl (\<lambda>doc t. remove_all [Tag t] doc) d ts))"
proof (induction ts arbitrary: d)
  case Nil
  then show ?case by simp
next
  case (Cons x xs)
  show ?case
  proof (cases "t = x")
    case True
    have "x \<notin> set (doc_tags (remove_all (map Tag [x]) d))"
      by (rule remove_all_no_tag) simp
    then have "x \<notin> set (doc_tags (foldl (\<lambda>doc t. remove_all [Tag t] doc) (remove_all [Tag x] d) xs))"
      using foldl_remove_all_subset[of "remove_all [Tag x] d" xs] by auto
    with True show ?thesis by simp
  next
    case False
    with Cons.prems have "t \<in> set xs" by simp
    then show ?thesis using Cons.IH by simp
  qed
qed

text \<open>
  C1 (as amended). After the sanitizer of the iframe variant no element of the document is
  a \<open>script\<close>, \<open>iframe\<close>, \<open>object\<close> or \<open>embed\<close>; after the sanitizer of the direct-render
  variant no element is one of its twelve \<open>irrelevantTags\<close> (\<open>script\<close>, \<open>style\<close>,
  \<open>noscript\<close>, \<open>iframe\<close>, \<open>svg\<close>, \<open>nav\<close>, \<open>footer\<close>, \<open>header\<close>, \<open>aside\<close>, \<open>form\<close>,
  \<open>ads\<close>, \<open>button\<close>). The direct-render variant does not remove \<open>object\<close> and
  \<open>embed\<close> elements.
\<close>

theorem sanitizer_removes_listed_tags:
  "(\<forall>t \<in> set [''script'', ''iframe'', ''object'', ''embed''].
       t \<notin> set (doc_tags (sanitize_iframe d)))
   \<and> (\<forall>t \<in> set irrelevantTags. t \<notin> set (doc_tags (sanitize_direct d)))"
proof
  have "sanitize_iframe d = remove_all (map Tag [''script'', ''iframe'', ''object'', ''embed'']) d"
    by (simp add: sanitize_iframe_def)
  then show "\<forall>t \<in> set [''script'', ''iframe'', ''object'', ''embed''].
       t \<notin> set (doc_tags (sanitize_iframe d))"
    using remove_all_no_tag[of _ "[''script'', ''iframe'', ''object'', ''embed'']" d] by metis
  show "\<forall>t \<in> set irrelevantTags. t \<notin> set (doc_tags (sanitize_direct d))"
    unfolding sanitize_direct_def using foldl_remove_all_no_tag by blast
qed

theorem sanitizer_removes_listed_tags_witness:
  "''script'' \<in> set (doc_tags page_with_embeds)
   \<and> ''script'' \<in> set [''script'', ''iframe'', ''object'', ''embed'']
   \<and> ''script'' \<notin> set (doc_tags (sanitize_iframe page_with_embeds))
   \<and> ''nav'' \<in> set (doc_tags page_with_embeds)
   \<and> ''nav'' \<in> set irrelevantTags
   \<and> ''nav'' \<notin> set (doc_tags (sanitize_direct page_with_embeds))"
proof -
  have "''script'' \<in> set (doc_tags page_with_embeds)" "''nav'' \<in> set (doc_tags page_with_embeds)"
    by (simp_all add: page_with_embeds_def page_def doc_tags_def doc_elems_def)
  moreover have "''script'' \<in> set [''script'', ''iframe'', ''object'', ''embed'']"
    "''nav'' \<in> set irrelevantTags"
    by (simp_all add: irrelevantTags_def)
  ultimately show ?thesis
    using sanitizer_removes_listed_tags[of page_with_embeds] by blast
qed

text \<open>
  C1 as stated fails for the direct-render variant: an \<open>object\<close> and an \<open>embed\<close> element
  of the page are still in the tree after its sanitizer has run.
\<close>

theorem sanitizer_direct_keeps_object_counterexample:
  "''object'' \<in> set (doc_tags (sanitize_direct page_with_embeds))
   \<and> ''embed'' \<in> set (doc_tags (sanitize_direct page_with_embeds))"
  by (simp add: page_with_embeds_def page_def sanitize_direct_def irrelevantTags_def
      remove_all_def matches_any_def doc_tags_def doc_elems_def)

section \<open>Properties of the extractor\<close>

lemma extract_direct_short:
  "contentRoot_direct (sanitize_direct d) = Some root \<Longrightarrow> length (extractedText root) < 200
     \<Longrightarrow> extract_direct d = Inl ExtractionTooShort"
  by (simp add: extract_direct_def)

lemma extract_iframe_short:
  "contentRoot_iframe d = Some root \<Longrightarrow> length (cleanText root) < 100
     \<Longrightarrow> extract_iframe d = Inl ExtractionTooShort"
  by (simp add: extract_iframe_def)

lemma load_direct_short:
  assumes "urlInput st \<noteq> []" and "fetch_html e (urlInput st) = Inr raw"
    and "extract_direct (parseFromString e raw) = Inl ExtractionTooShort"
  shows "handleLoadArticle_direct e st =
           (begin_load_direct st)\<lparr>articleContent := failure_text (error_message_direct ExtractionTooShort),
                                  loadingState := IDLE\<rparr>"
  using assms by (simp add: handleLoadArticle_direct_def load_fetched_direct_def catch_direct_def)

lemma load_iframe_short:
  assumes "urlInput st \<noteq> []" and "fetch_html e (urlInput st) = Inr raw"
    and "prepare_iframe e (urlInput st) (parseFromString e raw) = Inr (d', html)"
    and "extract_iframe d' = Inl ExtractionTooShort"
  shows "handleLoadArticle_iframe e st =
           (begin_load_iframe st)\<lparr>iframeHtml := error_page (error_message_iframe ExtractionTooShort),
                                  loadingState := IDLE\<rparr>"
  using assms by (simp add: handleLoadArticle_iframe_def load_fetched_iframe_def catch_iframe_def)

text \<open>
  C3. Block collection (direct-render variant): when the text joined from the blocks of the
  content root has fewer than 200 code units, the extraction is \<open>ExtractionTooShort\<close>, and
  a load that reaches it ends with the failure notice as article content and no analysis.
  Whole-region text (iframe variant): when the normalised text of the content root has
  fewer than 100 code units, the extraction is \<open>ExtractionTooShort\<close>, and a load that
  reaches it ends with the error page in the frame, no article text and no analysis. (The
  load is the one that nothing interrupts; the extraction is all in one step of it.)
\<close>

theorem extraction_too_short:
  "(contentRoot_direct (sanitize_direct d) = Some root \<and> length (extractedText root) < 200 \<longrightarrow>
       extract_direct d = Inl ExtractionTooShort
       \<and> (urlInput st \<noteq> [] \<and> fetch_html e (urlInput st) = Inr raw \<and> parseFromString e raw = d \<longrightarrow>
            articleContent (handleLoadArticle_direct e st)
              = failure_text ''Extracted content is too short. The website might be using complex JavaScript rendering.''
            \<and> analysis (handleLoadArticle_direct e st) = None))
   \<and> (contentRoot_iframe d' = Some root' \<and> length (cleanText root') < 100 \<longrightarrow>
       extract_iframe d' = Inl ExtractionTooShort
       \<and> (urlInput st \<noteq> [] \<and> fetch_html e (urlInput st) = Inr raw
            \<and> prepare_iframe e (urlInput st) (parseFromString e raw) = Inr (d', html) \<longrightarrow>
            iframeHtml (handleLoadArticle_iframe e st)
              = error_page ''Could not extract meaningful text from this page.''
            \<and> articleContent (handleLoadArticle_iframe e st) = []
            \<and> analysis (handleLoadArticle_iframe e st) = None))"
proof (intro conjI impI)
  assume a: "contentRoot_direct (sanitize_direct d) = Some root \<and> length (extractedText root) < 200"
  then show short: "extract_direct d = Inl ExtractionTooShort"
    by (simp add: extract_direct_short)
  assume b: "urlInput st \<noteq> [] \<and> fetch_html e (urlInput st) = Inr raw \<and> parseFromString e raw = d"
  with short have eq: "handleLoadArticle_direct e st =
           (begin_load_direct st)\<lparr>articleContent := failure_text (error_message_direct ExtractionTooShort),
                                  loadingState := IDLE\<rparr>"
    by (intro load_direct_short) auto
  show "articleContent (handleLoadArticle_direct e st)
      = failure_text ''Extracted content is too short. The website might be using complex JavaScript rendering.''"
    by (simp add: eq)
  show "analysis (handleLoadArticle_direct e st) = None"
    by (simp add: eq begin_load_direct_def)
next
  assume a: "contentRoot_iframe d' = Some root' \<and> length (cleanText root') < 100"
  then show short: "extract_iframe d' = Inl ExtractionTooShort"
    by (simp add: extract_iframe_short)
  assume b: "urlInput st \<noteq> [] \<and> fetch_html e (urlInput st) = Inr raw
            \<and> prepare_iframe e (urlInput st) (parseFromString e raw) = Inr (d', html)"
  with short have eq: "handleLoadArticle_iframe e st =
           (begin_load_iframe st)\<lparr>iframeHtml := error_page (error_message_iframe ExtractionTooShort),
                                  loadingState := IDLE\<rparr>"
    by (intro load_iframe_short) auto
  show "iframeHtml (handleLoadArticle_iframe e st)
      = error_page ''Could not extract meaningful text from this page.''"
    by (simp add: eq)
  show "articleContent (handleLoadArticle_iframe e st) = []"
    by (simp add: eq begin_load_iframe_def)
  show "analysis (handleLoadArticle_iframe e st) = None"
    by (simp add: eq begin_load_iframe_def)
qed

theorem extraction_too_short_witness:
  "contentRoot_direct (sanitize_direct hello_page) = Some hello_article
   \<and> length (extractedText hello_article) < 200
   \<and> urlInput used_state \<noteq> []
   \<and> fetch_html hello_env (urlInput used_state) = Inr hello_markup
   \<and> parseFromString hello_env hello_markup = hello_page
   \<and> extract_direct hello_page = Inl ExtractionTooShort
   \<and> articleContent (handleLoadArticle_direct hello_env used_state)
        = failure_text ''Extracted content is too short. The website might be using complex JavaScript rendering.''
   \<and> analysis (handleLoadArticle_direct hello_env used_state) = None
   \<and> contentRoot_iframe hello_prepared = Some hello_article
   \<and> length (cleanText hello_article) < 100
   \<and> prepare_iframe hello_env (urlInput used_state) (parseFromString hello_env hello_markup)
        = Inr (hello_prepared, outerHTML (hd hello_prepared))
   \<and> extract_iframe hello_prepared = Inl ExtractionTooShort
   \<and> iframeHtml (handleLoadArticle_iframe hello_env used_state)
        = error_page ''Could not extract meaningful text from this page.''
   \<and> articleContent (handleLoadArticle_iframe hello_env used_state) = []
   \<and> analysis (handleLoadArticle_iframe hello_env used_state) = None"
proof -
  have h1: "contentRoot_direct (sanitize_direct hello_page) = Some hello_article"
    by code_simp
  have h2: "length (extractedText hello_article) < 200"
    by code_simp
  have h3: "urlInput used_state \<noteq> []"
    by (simp add: used_state_def initial_state_def)
  have h4: "fetch_html hello_env (urlInput used_state) = Inr hello_markup"
    by code_simp
  have h5: "parseFromString hello_env hello_markup = hello_page"
    by (simp add: hello_env_def)
  have h6: "contentRoot_iframe hello_prepared = Some hello_article"
    by code_simp
  have h7: "length (cleanText hello_article) < 100"
    by code_simp
  have h8: "prepare_iframe hello_env (urlInput used_state) (parseFromString hello_env hello_markup)
        = Inr (hello_prepared, outerHTML (hd hello_prepared))"
    by code_simp
  show ?thesis
    using extraction_too_short[of hello_page hello_article used_state hello_env hello_markup
        hello_prepared hello_article "outerHTML (hd hello_prepared)"]
      h1 h2 h3 h4 h5 h6 h7 h8
    by blast
qed

lemma subtree_elems_are_elements: "el \<in> set (subtree_elems n) \<Longrightarrow> is_element el"
  by (induction n) auto

lemma descendants_are_elements: "el \<in> set (descendants root) \<Longrightarrow> is_element el"
  unfolding descendants_def using subtree_elems_are_elements by auto

lemma blocks_by_tag:
  "querySelectorAll block_selectors root
     = filter (\<lambda>el. tag_of el \<in> set [''p'', ''h1'', ''h2'', ''h3'', ''h4'', ''h5'', ''h6'', ''li'', ''blockquote''])
         (descendants root)"
proof -
  have sel: "block_selectors = map Tag [''p'', ''h1'', ''h2'', ''h3'', ''h4'', ''h5'', ''h6'', ''li'', ''blockquote'']"
    by (simp add: block_selectors_def)
  have "matches_any block_selectors el
      = (tag_of el \<in> set [''p'', ''h1'', ''h2'', ''h3'', ''h4'', ''h5'', ''h6'', ''li'', ''blockquote''])"
    if "el \<in> set (descendants root)" for el
    unfolding sel matches_any_Tag using descendants_are_elements[OF that] by simp
  then show ?thesis
    unfolding querySelectorAll_def by (rule filter_cong[OF refl])
qed

text \<open>
  C5 (as amended). The blocks are all the \<open>p\<close>, \<open>h1\<close> to \<open>h6\<close>, \<open>li\<close> and
  \<open>blockquote\<close> elements below the content root, in tree order; each is trimmed; a block
  is kept exactly when its trimmed text has more than 40 code units; the kept texts are
  joined in that order with an empty line between them. For the page
  \<open><article><p>Hello world. The sky is blue today.</p></article>\<close> the only block has 35
  code units and is discarded, nothing is left, and the extraction is
  \<open>ExtractionTooShort\<close>.
\<close>

theorem block_collection:
  "querySelectorAll block_selectors root
     = filter (\<lambda>el. tag_of el \<in> set [''p'', ''h1'', ''h2'', ''h3'', ''h4'', ''h5'', ''h6'', ''li'', ''blockquote''])
         (descendants root)
   \<and> textBlocks root
     = filter (\<lambda>t. 40 < length t)
         (map (\<lambda>el. js_trim (textContent el))
            (filter (\<lambda>el. tag_of el \<in> set [''p'', ''h1'', ''h2'', ''h3'', ''h4'', ''h5'', ''h6'', ''li'', ''blockquote''])
               (descendants root)))
   \<and> (\<forall>el \<in> set (descendants root).
         tag_of el \<in> set [''p'', ''h1'', ''h2'', ''h3'', ''h4'', ''h5'', ''h6'', ''li'', ''blockquote''] \<longrightarrow>
         (js_trim (textContent el) \<in> set (textBlocks root)) = (40 < length (js_trim (textContent el))))
   \<and> (\<forall>t \<in> set (textBlocks root).
         40 < length t
         \<and> (\<exists>el \<in> set (descendants root).
               tag_of el \<in> set [''p'', ''h1'', ''h2'', ''h3'', ''h4'', ''h5'', ''h6'', ''li'', ''blockquote'']
               \<and> t = js_trim (textContent el)))
   \<and> extractedText root = js_join [CHR 0x0A, CHR 0x0A] (textBlocks root)
   \<and> textBlocks hello_article = []
   \<and> extract_direct hello_page = Inl ExtractionTooShort"
proof (intro conjI)
  show q: "querySelectorAll block_selectors root
     = filter (\<lambda>el. tag_of el \<in> set [''p'', ''h1'', ''h2'', ''h3'', ''h4'', ''h5'', ''h6'', ''li'', ''blockquote''])
         (descendants root)"
    by (rule blocks_by_tag)
  show tb: "textBlocks root
     = filter (\<lambda>t. 40 < length t)
         (map (\<lambda>el. js_trim (textContent el))
            (filter (\<lambda>el. tag_of el \<in> set [''p'', ''h1'', ''h2'', ''h3'', ''h4'', ''h5'', ''h6'', ''li'', ''blockquote''])
               (descendants root)))"
    unfolding textBlocks_def q ..
  show "\<forall>el \<in> set (descendants root).
         tag_of el \<in> set [''p'', ''h1'', ''h2'', ''h3'', ''h4'', ''h5'', ''h6'', ''li'', ''blockquote''] \<longrightarrow>
         (js_trim (textContent el) \<in> set (textBlocks root)) = (40 < length (js_trim (textContent el)))"
    unfolding tb by auto
  show "\<forall>t \<in> set (textBlocks root).
         40 < length t
         \<and> (\<exists>el \<in> set (descendants root).
               tag_of el \<in> set [''p'', ''h1'', ''h2'', ''h3'', ''h4'', ''h5'', ''h6'', ''li'', ''blockquote'']
               \<and> t = js_trim (textContent el))"
    unfolding tb by auto
  show "extractedText root = js_join [CHR 0x0A, CHR 0x0A] (textBlocks root)"
    by (simp add: extractedText_def)
  show "textBlocks hello_article = []"
    by code_simp
  show "extract_direct hello_page = Inl ExtractionTooShort"
    by code_simp
qed

theorem block_collection_witness:
  "map tag_of (descendants long_article) = [''h1'', ''p'', ''ul'', ''li'', ''li'', ''div'', ''blockquote'']
   \<and> map tag_of (querySelectorAll block_selectors long_article) = [''h1'', ''p'', ''li'', ''li'', ''blockquote'']
   \<and> map (\<lambda>el. js_trim (textContent el)) (querySelectorAll block_selectors long_article)
       = [''A short title'',
          ''The first paragraph of the article is long enough to be kept.'',
          ''Exactly forty code units are in this one'',
          ''An item of the list that has more than forty code units.'',
          ''A quotation that is long enough to be kept as well.'']
   \<and> textBlocks long_article
       = [''The first paragraph of the article is long enough to be kept.'',
          ''An item of the list that has more than forty code units.'',
          ''A quotation that is long enough to be kept as well.'']
   \<and> ''A short title'' \<notin> set (textBlocks long_article)
   \<and> extractedText long_article
       = ''The first paragraph of the article is long enough to be kept.\<newline>\<newline>'' @
         ''An item of the list that has more than forty code units.\<newline>\<newline>'' @
         ''A quotation that is long enough to be kept as well.''"
proof -
  have d: "map tag_of (descendants long_article) = [''h1'', ''p'', ''ul'', ''li'', ''li'', ''div'', ''blockquote'']"
    by code_simp
  have f: "filter (\<lambda>el. tag_of el \<in> set [''p'', ''h1'', ''h2'', ''h3'', ''h4'', ''h5'', ''h6'', ''li'', ''blockquote''])
         (descendants long_article)
      = [Element ''h1'' [] [Text ''A short title''],
         Element ''p'' [] [Text ''  The first paragraph of the article is long enough to be kept.  ''],
         Element ''li'' [] [Text ''Exactly forty code units are in this one''],
         Element ''li'' [] [Text ''An item of the list that has more than forty code units.''],
         Element ''blockquote'' [] [Text ''A quotation that is long enough to be kept as well.'']]"
    by code_simp
  have t: "map (\<lambda>el. js_trim (textContent el))
        [Element ''h1'' [] [Text ''A short title''],
         Element ''p'' [] [Text ''  The first paragraph of the article is long enough to be kept.  ''],
         Element ''li'' [] [Text ''Exactly forty code units are in this one''],
         Element ''li'' [] [Text ''An item of the list that has more than forty code units.''],
         Element ''blockquote'' [] [Text ''A quotation that is long enough to be kept as well.'']]
      = [''A short title'',
          ''The first paragraph of the article is long enough to be kept.'',
          ''Exactly forty code units are in this one'',
          ''An item of the list that has more than forty code units.'',
          ''A quotation that is long enough to be kept as well.'']"
    by code_simp
  have j: "js_join [CHR 0x0A, CHR 0x0A]
        [''The first paragraph of the article is long enough to be kept.'',
          ''An item of the list that has more than forty code units.'',
          ''A quotation that is long enough to be kept as well.'']
      = ''The first paragraph of the article is long enough to be kept.\<newline>\<newline>'' @
         ''An item of the list that has more than forty code units.\<newline>\<newline>'' @
         ''A quotation that is long enough to be kept as well.''"
    by simp
  have q: "querySelectorAll block_selectors long_article
      = [Element ''h1'' [] [Text ''A short title''],
         Element ''p'' [] [Text ''  The first paragraph of the article is long enough to be kept.  ''],
         Element ''li'' [] [Text ''Exactly forty code units are in this one''],
         Element ''li'' [] [Text ''An item of the list that has more than forty code units.''],
         Element ''blockquote'' [] [Text ''A quotation that is long enough to be kept as well.'']]"
    using block_collection[of long_article] f by simp
  have b: "textBlocks long_article
       = [''The first paragraph of the article is long enough to be kept.'',
          ''An item of the list that has more than forty code units.'',
          ''A quotation that is long enough to be kept as well.'']"
    using block_collection[of long_article] f t by simp
  have e: "extractedText long_article
       = ''The first paragraph of the article is long enough to be kept.\<newline>\<newline>'' @
         ''An item of the list that has more than forty code units.\<newline>\<newline>'' @
         ''A quotation that is long enough to be kept as well.''"
    using block_collection[of long_article] b j by simp
  show ?thesis
    unfolding q b e using d t by simp
qed

text \<open>
  C5 as stated fails on its own example: the article text is not the sentence of the
  paragraph; the load ends with the failure notice. It also fails at the threshold: a
  block of exactly 40 code units is not below 40, yet it is discarded.
\<close>

theorem block_collection_example_counterexample:
  "extract_direct hello_page \<noteq> Inr ''Hello world. The sky is blue today.''
   \<and> length ''Hello world. The sky is blue today.'' = 35
   \<and> articleContent (handleLoadArticle_direct hello_env initial_state)
        \<noteq> ''Hello world. The sky is blue today.''
   \<and> length (js_trim ''Exactly forty code units are in this one'') = 40
   \<and> textBlocks (Element ''article'' [] [Element ''li'' [] [Text ''Exactly forty code units are in this one'']]) = []
   \<and> ''Exactly forty code units are in this one'' \<notin> set (textBlocks long_article)"
  by code_simp

section \<open>Properties of the selection capture\<close>

text \<open>
  C7 (as amended). Both handlers suppress the default context menu on every event. When
  the selection is missing or blank they clear the position of the menu and leave every
  other cell, the word and context captured earlier included, as it was. Otherwise they
  store the trimmed selection with the text of the parent element of the anchor node as
  context (the empty string when there is none) and the position of the event; the iframe
  variant replaces a context of more than 200 code units by its first 200 followed by
  three dots (203 code units), and adds the offset of the frame to the position.
\<close>

theorem selection_capture:
  "snd (handleContextMenu sel client st) = True
   \<and> snd (handleIframeContextMenu sel client rect st) = True
   \<and> ((sel = None \<or> js_trim (sel_string (the sel)) = []) \<longrightarrow>
         fst (handleContextMenu sel client st) = st\<lparr>contextMenuPos := None\<rparr>
         \<and> fst (handleIframeContextMenu sel client rect st) = st\<lparr>contextMenuPos := None\<rparr>)
   \<and> (sel = Some s \<and> js_trim (sel_string s) \<noteq> [] \<longrightarrow>
         fst (handleContextMenu sel client st) =
           st\<lparr>selectedTextData :=
                 Some (js_trim (sel_string s), case anchor_parent_text s of None \<Rightarrow> [] | Some t \<Rightarrow> t),
              contextMenuPos := Some client\<rparr>
         \<and> fst (handleIframeContextMenu sel client rect st) =
           st\<lparr>selectedTextData :=
                 Some (js_trim (sel_string s),
                       case anchor_parent_text s of
                         None \<Rightarrow> []
                       | Some t \<Rightarrow> if 200 < length t then take 200 t @ ''...'' else t),
              contextMenuPos := Some (fst rect + fst client, snd rect + snd client)\<rparr>)"
  by (cases sel)
     (auto simp: handleContextMenu_def handleIframeContextMenu_def truncate_context_def Let_def
           split: option.splits)

theorem selection_capture_witness:
  "js_trim (sel_string empty_selection) = []
   \<and> fst (handleContextMenu (Some empty_selection) (5, 6) used_state) = used_state\<lparr>contextMenuPos := None\<rparr>
   \<and> fst (handleIframeContextMenu (Some empty_selection) (5, 6) (100, 0) used_state)
        = used_state\<lparr>contextMenuPos := None\<rparr>
   \<and> js_trim (sel_string word_selection) = ''blue''
   \<and> fst (handleContextMenu (Some word_selection) (5, 6) initial_state) =
        initial_state\<lparr>selectedTextData := Some (''blue'', replicate 250 CHR ''a''),
                       contextMenuPos := Some (5, 6)\<rparr>
   \<and> fst (handleIframeContextMenu (Some word_selection) (5, 6) (100, 0) initial_state) =
        initial_state\<lparr>selectedTextData := Some (''blue'', replicate 200 CHR ''a'' @ ''...''),
                       contextMenuPos := Some (105, 6)\<rparr>"
proof -
  have e: "js_trim (sel_string empty_selection) = []"
    by code_simp
  have w: "js_trim (sel_string word_selection) = ''blue''"
    by code_simp
  have a: "anchor_parent_text word_selection = Some (replicate 250 CHR ''a'')"
    by (simp add: word_selection_def)
  show ?thesis
    using selection_capture[of "Some empty_selection" "(5, 6)" used_state "(100, 0)" empty_selection]
      selection_capture[of "Some word_selection" "(5, 6)" initial_state "(100, 0)" word_selection]
      e w a
    by simp
qed

text \<open>
  C7 as stated fails twice: a context-menu event with a blank selection leaves the word
  and context captured earlier in place, and the iframe variant's context of a long
  parent text has 203 code units, not 200.
\<close>

theorem selection_capture_counterexample:
  "selectedTextData (fst (handleContextMenu (Some empty_selection) (5, 6) used_state))
     = Some (''sky'', ''The sky is blue'')
   \<and> selectedTextData (fst (handleIframeContextMenu (Some empty_selection) (5, 6) (100, 0) used_state))
     = Some (''sky'', ''The sky is blue'')
   \<and> map_option (\<lambda>d. length (snd d))
        (selectedTextData (fst (handleIframeContextMenu (Some word_selection) (5, 6) (100, 0) initial_state)))
     = Some 203"
  by code_simp

section \<open>Properties of the busy state\<close>














section \<open>Properties of the load\<close>

lemma begin_load_direct_forgets:
  "begin_load_direct (st\<lparr>analysis := a, chatHistory := c, articleContent := t\<rparr>) = begin_load_direct st"
  by (simp add: begin_load_direct_def)

lemma begin_load_iframe_forgets:
  "begin_load_iframe (st\<lparr>analysis := a, chatHistory := c, articleContent := t, iframeHtml := f,
      dictionary := dd\<rparr>) = begin_load_iframe st"
  by (simp add: begin_load_iframe_def)

lemma load_direct_chat: "urlInput st \<noteq> [] \<Longrightarrow> chatHistory (handleLoadArticle_direct e st) = []"
  by (simp add: handleLoadArticle_direct_def load_fetched_direct_def load_analyzed_direct_def
      begin_load_direct_def catch_direct_def split: sum.splits)

lemma load_iframe_chat: "urlInput st \<noteq> [] \<Longrightarrow> chatHistory (handleLoadArticle_iframe e st) = []"
  by (simp add: handleLoadArticle_iframe_def load_fetched_iframe_def load_analyzed_iframe_def
      begin_load_iframe_def catch_iframe_def split: sum.splits prod.splits)

lemma load_iframe_dictionary: "urlInput st \<noteq> [] \<Longrightarrow> dictionary (handleLoadArticle_iframe e st) = None"
  by (simp add: handleLoadArticle_iframe_def load_fetched_iframe_def load_analyzed_iframe_def
      begin_load_iframe_def catch_iframe_def split: sum.splits prod.splits)

lemma handleLoadArticle_steps:
  "handleLoadArticle v e st =
     (if urlInput st = [] then st
      else (case load_fetched v e (urlInput st) (begin_load v st) of
              (st1, None) \<Rightarrow> st1
            | (st1, Some text) \<Rightarrow> load_analyzed v e text st1))"
  by (cases v) (simp_all add: handleLoadArticle_direct_def handleLoadArticle_iframe_def)

lemma uninterrupted_load:
  "app (run_events v e [LoadClick, Completed (length (in_flight h)) n1 s1, Completed (length (in_flight h)) n2 s2] h)
     = handleLoadArticle v e (app h)"
proof (cases "urlInput (app h) = []")
  case True
  then show ?thesis
    by (simp add: run_events_def start_load_def complete_def handleLoadArticle_steps)
next
  case False
  obtain st1 nxt where lf: "load_fetched v e (urlInput (app h)) (begin_load v (app h)) = (st1, nxt)"
    by (cases "load_fetched v e (urlInput (app h)) (begin_load v (app h))")
  show ?thesis
  proof (cases nxt)
    case None
    with False lf show ?thesis
      by (simp add: run_events_def start_load_def complete_def handleLoadArticle_steps)
  next
    case (Some body)
    with False lf show ?thesis
      by (simp add: run_events_def start_load_def complete_def handleLoadArticle_steps nth_append)
  qed
qed

text \<open>
  C10 (as amended). A call of the load handler with a URL that is not empty first clears
  the analysis, the chat history and the article text (the iframe variant also the frame's
  markup and the dictionary entry) and puts the fetch in flight. When the answers to the
  fetch and to the analysis of this load are the next two continuations to run, the load
  leaves the state \<open>handleLoadArticle\<close> computes from the state it was invoked in, and
  then: what it leaves does not depend on what the cleared cells held before; the chat
  history is empty afterwards; and when the fetch fails, there is no analysis afterwards
  and the article text is the failure notice (direct render), or empty with the error page
  in the frame (iframe). A call with an empty URL changes nothing. The handler cancels
  nothing: the requests in flight stay in flight, and the answer to a chat message or to
  an analysis is written into the state as it is when it arrives.
\<close>

theorem load_clears_previous_article:
  "(urlInput (app h) \<noteq> [] \<longrightarrow>
      app (fire v e LoadClick h) = begin_load v (app h)
      \<and> in_flight (fire v e LoadClick h) = in_flight h @ [FetchArticle (urlInput (app h))]
      \<and> analysis (begin_load v (app h)) = None \<and> chatHistory (begin_load v (app h)) = []
      \<and> articleContent (begin_load v (app h)) = []
      \<and> iframeHtml (begin_load IframeRender (app h)) = []
      \<and> dictionary (begin_load IframeRender (app h)) = None)
   \<and> app (run_events v e [LoadClick, Completed (length (in_flight h)) n1 s1, Completed (length (in_flight h)) n2 s2] h)
        = handleLoadArticle v e (app h)
   \<and> (urlInput st \<noteq> [] \<longrightarrow>
      handleLoadArticle_direct e (st\<lparr>analysis := a, chatHistory := c, articleContent := t\<rparr>)
          = handleLoadArticle_direct e st
      \<and> handleLoadArticle_iframe e
            (st\<lparr>analysis := a, chatHistory := c, articleContent := t, iframeHtml := f, dictionary := dd\<rparr>)
          = handleLoadArticle_iframe e st
      \<and> chatHistory (handleLoadArticle_direct e st) = []
      \<and> chatHistory (handleLoadArticle_iframe e st) = []
      \<and> dictionary (handleLoadArticle_iframe e st) = None
      \<and> (fetch_html e (urlInput st) = Inl err \<longrightarrow>
            analysis (handleLoadArticle_direct e st) = None
            \<and> articleContent (handleLoadArticle_direct e st) = failure_text (error_message_direct err)
            \<and> analysis (handleLoadArticle_iframe e st) = None
            \<and> articleContent (handleLoadArticle_iframe e st) = []
            \<and> iframeHtml (handleLoadArticle_iframe e st) = error_page (error_message_iframe err)))
   \<and> (urlInput st = [] \<longrightarrow> handleLoadArticle_direct e st = st \<and> handleLoadArticle_iframe e st = st)
   \<and> (k < length (in_flight h) \<and> in_flight h ! k = ChatReply history question article
        \<and> chatWithGemini e history question article = Some reply \<longrightarrow>
         chatHistory (app (fire v e (Completed k now stamp) h))
           = chatHistory (app h) @
               [\<lparr>msg_id = decimal (now + 1), msg_role = Model, msg_text = reply, msg_timestamp = stamp\<rparr>])
   \<and> (k < length (in_flight h)
        \<and> (in_flight h ! k = AnalyzeManual body \<or> in_flight h ! k = AnalyzeLoaded body)
        \<and> analyzeArticle e body = Inr result \<longrightarrow>
         analysis (app (fire v e (Completed k now stamp) h)) = Some result)"
proof (intro conjI impI)
  show "app (run_events v e [LoadClick, Completed (length (in_flight h)) n1 s1, Completed (length (in_flight h)) n2 s2] h)
        = handleLoadArticle v e (app h)"
    by (rule uninterrupted_load)
next
  assume "k < length (in_flight h) \<and> in_flight h ! k = ChatReply history question article
        \<and> chatWithGemini e history question article = Some reply"
  then show "chatHistory (app (fire v e (Completed k now stamp) h))
           = chatHistory (app h) @
               [\<lparr>msg_id = decimal (now + 1), msg_role = Model, msg_text = reply, msg_timestamp = stamp\<rparr>]"
    by (simp add: complete_def chat_replied_def)
next
  assume a: "k < length (in_flight h)
        \<and> (in_flight h ! k = AnalyzeManual body \<or> in_flight h ! k = AnalyzeLoaded body)
        \<and> analyzeArticle e body = Inr result"
  then consider (manual) "in_flight h ! k = AnalyzeManual body" | (loaded) "in_flight h ! k = AnalyzeLoaded body"
    by blast
  then show "analysis (app (fire v e (Completed k now stamp) h)) = Some result"
  proof cases
    case manual
    with a show ?thesis by (simp add: complete_def manual_analyzed_def)
  next
    case loaded
    with a show ?thesis
      by (cases v) (simp_all add: complete_def load_analyzed_direct_def load_analyzed_iframe_def)
  qed
next
  assume u: "urlInput (app h) \<noteq> []"
  show "app (fire v e LoadClick h) = begin_load v (app h)"
    using u by (simp add: start_load_def)
  show "in_flight (fire v e LoadClick h) = in_flight h @ [FetchArticle (urlInput (app h))]"
    using u by (simp add: start_load_def)
  show "analysis (begin_load v (app h)) = None"
    by (cases v) (simp_all add: begin_load_direct_def begin_load_iframe_def)
  show "chatHistory (begin_load v (app h)) = []"
    by (cases v) (simp_all add: begin_load_direct_def begin_load_iframe_def)
  show "articleContent (begin_load v (app h)) = []"
    by (cases v) (simp_all add: begin_load_direct_def begin_load_iframe_def)
  show "iframeHtml (begin_load IframeRender (app h)) = []"
    by (simp add: begin_load_iframe_def)
  show "dictionary (begin_load IframeRender (app h)) = None"
    by (simp add: begin_load_iframe_def)
next
  assume u: "urlInput st \<noteq> []"
  show "handleLoadArticle_direct e (st\<lparr>analysis := a, chatHistory := c, articleContent := t\<rparr>)
          = handleLoadArticle_direct e st"
    using u unfolding handleLoadArticle_direct_def begin_load_direct_forgets by simp
  show "handleLoadArticle_iframe e
            (st\<lparr>analysis := a, chatHistory := c, articleContent := t, iframeHtml := f, dictionary := dd\<rparr>)
          = handleLoadArticle_iframe e st"
    using u unfolding handleLoadArticle_iframe_def begin_load_iframe_forgets by simp
  show "chatHistory (handleLoadArticle_direct e st) = []"
    using u by (rule load_direct_chat)
  show "chatHistory (handleLoadArticle_iframe e st) = []"
    using u by (rule load_iframe_chat)
  show "dictionary (handleLoadArticle_iframe e st) = None"
    using u by (rule load_iframe_dictionary)
  assume f: "fetch_html e (urlInput st) = Inl err"
  show "analysis (handleLoadArticle_direct e st) = None"
    using u f by (simp add: handleLoadArticle_direct_def load_fetched_direct_def begin_load_direct_def catch_direct_def)
  show "articleContent (handleLoadArticle_direct e st) = failure_text (error_message_direct err)"
    using u f by (simp add: handleLoadArticle_direct_def load_fetched_direct_def begin_load_direct_def catch_direct_def)
  show "analysis (handleLoadArticle_iframe e st) = None"
    using u f by (simp add: handleLoadArticle_iframe_def load_fetched_iframe_def begin_load_iframe_def catch_iframe_def)
  show "articleContent (handleLoadArticle_iframe e st) = []"
    using u f by (simp add: handleLoadArticle_iframe_def load_fetched_iframe_def begin_load_iframe_def catch_iframe_def)
  show "iframeHtml (handleLoadArticle_iframe e st) = error_page (error_message_iframe err)"
    using u f by (simp add: handleLoadArticle_iframe_def load_fetched_iframe_def begin_load_iframe_def catch_iframe_def)
next
  assume "urlInput st = []"
  then show "handleLoadArticle_direct e st = st" "handleLoadArticle_iframe e st = st"
    by (simp_all add: handleLoadArticle_direct_def handleLoadArticle_iframe_def)
qed

theorem load_clears_previous_article_witness:
  "urlInput (app used_host) \<noteq> []
   \<and> fetch_html offline_env (urlInput used_state) = Inl (FetchFailure ''Failed to fetch'')
   \<and> analysis used_state = Some old_analysis
   \<and> chatHistory used_state = [old_message]
   \<and> chatHistory (app (fire DirectRender offline_env LoadClick used_host)) = []
   \<and> analysis (app (fire DirectRender offline_env LoadClick used_host)) = None
   \<and> in_flight (fire DirectRender offline_env LoadClick used_host) = [FetchArticle ''https://example.com/blog-post'']
   \<and> app (run_events DirectRender offline_env [LoadClick, Completed 0 5 5, Completed 0 6 6] used_host)
        = handleLoadArticle_direct offline_env used_state
   \<and> analysis (handleLoadArticle_direct offline_env used_state) = None
   \<and> chatHistory (handleLoadArticle_direct offline_env used_state) = []
   \<and> articleContent (handleLoadArticle_direct offline_env used_state) = failure_text ''Failed to fetch''
   \<and> analysis (handleLoadArticle_iframe offline_env used_state) = None
   \<and> chatHistory (handleLoadArticle_iframe offline_env used_state) = []
   \<and> dictionary (handleLoadArticle_iframe offline_env used_state) = None
   \<and> articleContent (handleLoadArticle_iframe offline_env used_state) = []
   \<and> iframeHtml (handleLoadArticle_iframe offline_env used_state) = error_page ''Failed to fetch''
   \<and> urlInput (used_state\<lparr>urlInput := []\<rparr>) = []
   \<and> handleLoadArticle_iframe offline_env (used_state\<lparr>urlInput := []\<rparr>) = used_state\<lparr>urlInput := []\<rparr>
   \<and> chatHistory (app (fire DirectRender chatty_env (Completed 0 9 9)
          \<lparr>app = initial_state, in_flight = [ChatReply [] ''Hello'' []]\<rparr>))
        = [\<lparr>msg_id = decimal 10, msg_role = Model, msg_text = ''It is about the sky.'', msg_timestamp = 9\<rparr>]"
proof -
  have w: "chatHistory (app (fire DirectRender chatty_env (Completed 0 9 9)
          \<lparr>app = initial_state, in_flight = [ChatReply [] ''Hello'' []]\<rparr>))
        = [\<lparr>msg_id = decimal 10, msg_role = Model, msg_text = ''It is about the sky.'', msg_timestamp = 9\<rparr>]"
    using load_clears_previous_article[where h = "\<lparr>app = initial_state, in_flight = [ChatReply [] ''Hello'' []]\<rparr>"
        and v = DirectRender and e = chatty_env and k = 0 and now = 9 and stamp = 9 and history = "[]"
        and question = "''Hello''" and article = "[]" and reply = "''It is about the sky.''"]
    by (simp add: chatty_env_def initial_state_def)
  have u: "urlInput used_state \<noteq> []" "urlInput used_state = ''https://example.com/blog-post''"
    by (simp_all add: used_state_def initial_state_def)
  have h: "app used_host = used_state" "in_flight used_host = []"
    by (simp_all add: used_host_def)
  have f: "fetch_html offline_env (urlInput used_state) = Inl (FetchFailure ''Failed to fetch'')"
    by code_simp
  have s: "analysis used_state = Some old_analysis" "chatHistory used_state = [old_message]"
    by (simp_all add: used_state_def)
  have e: "urlInput (used_state\<lparr>urlInput := []\<rparr>) = []"
    by simp
  show ?thesis
    using load_clears_previous_article[where h = used_host and v = DirectRender and st = used_state
        and e = offline_env and a = None and c = "[]" and t = "[]" and f = "[]" and dd = None
        and err = "FetchFailure ''Failed to fetch''" and ?n1.0 = 5 and ?n2.0 = 6 and ?s1.0 = 5 and ?s2.0 = 6]
      load_clears_previous_article[where h = used_host and v = DirectRender
        and st = "used_state\<lparr>urlInput := []\<rparr>"
        and e = offline_env and a = None and c = "[]" and t = "[]" and f = "[]" and dd = None
        and err = "FetchFailure ''Failed to fetch''" and ?n1.0 = 5 and ?n2.0 = 6 and ?s1.0 = 5 and ?s2.0 = 6]
      u h f s e w
    by simp
qed

text \<open>
  C10 as stated fails in two ways. A call with an empty URL keeps the analysis, the chat
  history and the text of the previous article. And the handler cancels nothing: the answer
  to a question about the previous article that arrives after the clearing is appended to
  the cleared history, and is still there when the load has ended.
\<close>

theorem load_leaves_previous_article_counterexample:
  "analysis (handleLoadArticle_direct offline_env (used_state\<lparr>urlInput := []\<rparr>)) = Some old_analysis
   \<and> chatHistory (handleLoadArticle_direct offline_env (used_state\<lparr>urlInput := []\<rparr>)) = [old_message]
   \<and> articleContent (handleLoadArticle_direct offline_env (used_state\<lparr>urlInput := []\<rparr>))
        = ''Text of the previous article''
   \<and> analysis (handleLoadArticle_iframe offline_env (used_state\<lparr>urlInput := []\<rparr>)) = Some old_analysis
   \<and> dictionary (handleLoadArticle_iframe offline_env (used_state\<lparr>urlInput := []\<rparr>)) = Some old_dictionary
   \<and> in_flight (run_events IframeRender chatty_env
          [ChangeChatInput ''And the sky?'', SendEnter 5 5, LoadClick] used_host)
        = [ChatReply [old_message,
                      \<lparr>msg_id = ''5'', msg_role = User, msg_text = ''And the sky?'', msg_timestamp = 5\<rparr>]
             ''And the sky?'' ''Text of the previous article'',
           FetchArticle ''https://example.com/blog-post'']
   \<and> chatHistory (app (run_events IframeRender chatty_env
          [ChangeChatInput ''And the sky?'', SendEnter 5 5, LoadClick] used_host)) = []
   \<and> chatHistory (app (run_events IframeRender chatty_env
          [ChangeChatInput ''And the sky?'', SendEnter 5 5, LoadClick, Completed 0 9 9] used_host))
        = [\<lparr>msg_id = ''10'', msg_role = Model, msg_text = ''It is about the sky.'', msg_timestamp = 9\<rparr>]
   \<and> chatHistory (app (run_events IframeRender chatty_env
          [ChangeChatInput ''And the sky?'', SendEnter 5 5, LoadClick, Completed 0 9 9, Completed 0 12 12] used_host))
        = [\<lparr>msg_id = ''10'', msg_role = Model, msg_text = ''It is about the sky.'', msg_timestamp = 9\<rparr>]
   \<and> in_flight (run_events IframeRender chatty_env
          [ChangeChatInput ''And the sky?'', SendEnter 5 5, LoadClick, Completed 0 9 9, Completed 0 12 12] used_host) = []"
  by code_simp

section \<open>Properties of the rewriter\<close>

lemma map_of_setAttribute: "map_of (setAttribute k v a) k' = (if k' = k then Some v else map_of a k')"
  by (induction a) auto

lemma setAttribute_twice: "setAttribute k v (setAttribute k v' a) = setAttribute k v a"
  by (induction a) auto

lemma map_of_removeAttribute: "k' \<noteq> k \<Longrightarrow> map_of (removeAttribute k a) k' = map_of a k'"
  by (induction a) (auto simp: removeAttribute_def)

lemma map_of_removeAttribute_same: "map_of (removeAttribute k a) k = None"
  by (induction a) (auto simp: removeAttribute_def)

lemma removeAttribute_setAttribute:
  "k' \<noteq> k \<Longrightarrow> removeAttribute k (setAttribute k' v a) = setAttribute k' v (removeAttribute k a)"
  by (induction a) (auto simp: removeAttribute_def)

lemma removeAttribute_twice: "removeAttribute k (removeAttribute k a) = removeAttribute k a"
  by (simp add: removeAttribute_def)

lemma setAttribute_commute:
  "k' \<noteq> k \<Longrightarrow> map_of a k \<noteq> None \<Longrightarrow>
     setAttribute k v (setAttribute k' v' a) = setAttribute k' v' (setAttribute k v a)"
  by (induction a) auto

lemma rewrite_attr_value:
  "map_of (rewrite_attr r b k a) k =
     map_option (\<lambda>v. if v = [] then [] else case r v b of Some href \<Rightarrow> href | None \<Rightarrow> v) (map_of a k)"
  by (auto simp: rewrite_attr_def toAbsolute_def map_of_setAttribute split: option.splits)

lemma rewrite_attr_other: "k' \<noteq> k \<Longrightarrow> map_of (rewrite_attr r b k a) k' = map_of a k'"
  by (auto simp: rewrite_attr_def map_of_setAttribute split: option.splits)

lemma rewrite_attr_idem:
  assumes "\<And>v u. map_of a k = Some v \<Longrightarrow> r v b = Some u \<Longrightarrow> r u b = Some u"
  shows "rewrite_attr r b k (rewrite_attr r b k a) = rewrite_attr r b k a"
proof (cases "map_of a k")
  case None
  then show ?thesis by (simp add: rewrite_attr_def)
next
  case (Some v)
  show ?thesis
  proof (cases "v = []")
    case True
    with Some show ?thesis by (simp add: rewrite_attr_def)
  next
    case False
    have fixed: "toAbsolute r b (toAbsolute r b v) = toAbsolute r b v"
      using assms[OF Some] by (auto simp: toAbsolute_def split: option.splits)
    show ?thesis using Some False fixed
      by (simp add: rewrite_attr_def map_of_setAttribute setAttribute_twice)
  qed
qed

lemma rewrite_attr_removeAttribute:
  "k' \<noteq> k \<Longrightarrow> rewrite_attr r b k (removeAttribute k' a) = removeAttribute k' (rewrite_attr r b k a)"
  by (auto simp: rewrite_attr_def map_of_removeAttribute removeAttribute_setAttribute split: option.splits)

lemma rewrite_attr_setAttribute:
  "rewrite_attr r b k (setAttribute k' v' a) = setAttribute k' v' (rewrite_attr r b k a)" if "k' \<noteq> k"
proof (cases "map_of a k")
  case None
  then show ?thesis using that by (simp add: rewrite_attr_def map_of_setAttribute)
next
  case (Some v)
  then have "setAttribute k u (setAttribute k' v' a) = setAttribute k' v' (setAttribute k u a)" for u
    using that setAttribute_commute[of k' k a u v'] by simp
  with Some that show ?thesis by (simp add: rewrite_attr_def map_of_setAttribute)
qed

lemma rewrite_for_idem:
  assumes "\<And>v u. url_value t a = Some v \<Longrightarrow> r v b = Some u \<Longrightarrow> r u b = Some u"
  shows "rewrite_for r b ns t (rewrite_for r b ns t a) = rewrite_for r b ns t a"
proof -
  have img: "rewrite_img r b ns (rewrite_img r b ns a) = rewrite_img r b ns a" if "t = ''img''"
    using assms that
    by (simp add: rewrite_img_def rewrite_attr_removeAttribute removeAttribute_twice
        rewrite_attr_idem url_value_def)
  have link: "rewrite_link r b ns (rewrite_link r b ns a) = rewrite_link r b ns a" if "t = ''link''"
    using assms that by (simp add: rewrite_link_def rewrite_attr_idem url_value_def)
  have a: "rewrite_a r b ns (rewrite_a r b ns a) = rewrite_a r b ns a" if "t = ''a''"
    using assms that
    by (simp add: rewrite_a_def rewrite_attr_setAttribute setAttribute_twice
        rewrite_attr_idem url_value_def)
  show ?thesis using img link a by (simp add: rewrite_for_def)
qed

lemma child_namespace_attrs:
  "t \<noteq> ''annotation-xml'' \<Longrightarrow> child_namespace ns t a ct = child_namespace ns t a' ct"
  by (simp add: child_namespace_def html_content_def)

lemma child_namespace_tagged:
  "child_namespace ns t (if t = tg then f ns a else a) ct = child_namespace ns t a ct"
  if "tg \<noteq> ''annotation-xml''"
  using that child_namespace_attrs[of t ns "f ns a" ct a] by (cases "t = tg") auto

lemma child_namespace_rewrite_for:
  "child_namespace ns t (rewrite_for r b ns t a) ct = child_namespace ns t a ct"
proof (cases "t = ''annotation-xml''")
  case True
  then show ?thesis by (simp add: rewrite_for_def)
next
  case False
  then show ?thesis by (rule child_namespace_attrs)
qed

lemma child_namespace_two_loops:
  "child_namespace ns t
     (if t = ''link'' then rewrite_link r b ns (if t = ''img'' then rewrite_img r b ns a else a)
      else (if t = ''img'' then rewrite_img r b ns a else a)) ct
   = child_namespace ns t a ct"
proof (cases "t = ''annotation-xml''")
  case True
  then show ?thesis by simp
next
  case False
  then show ?thesis by (rule child_namespace_attrs)
qed

lemma tag_of_map_attrs: "tag_of (map_attrs g ns n) = tag_of n"
  by (cases n) auto

lemma root_namespace_map_attrs: "root_namespace (map_attrs g ns n) = root_namespace n"
  by (simp add: root_namespace_def tag_of_map_attrs)

lemma forEach_node_map_attrs:
  "forEach_node tg f ns n = map_attrs (\<lambda>ns t a. if t = tg then f ns a else a) ns n"
  by (induction n arbitrary: ns) auto

lemma map_attrs_comp:
  assumes "\<And>ns t a ct. child_namespace ns t (h ns t a) ct = child_namespace ns t a ct"
  shows "map_attrs g ns (map_attrs h ns n) = map_attrs (\<lambda>ns t a. g ns t (h ns t a)) ns n"
  by (induction n arbitrary: ns) (auto simp: assms tag_of_map_attrs)

lemma loops_rewrite_for:
  "(\<lambda>ns t a. if t = ''a''
       then rewrite_a r b ns (if t = ''link'' then rewrite_link r b ns (if t = ''img'' then rewrite_img r b ns a else a)
                              else (if t = ''img'' then rewrite_img r b ns a else a))
       else (if t = ''link'' then rewrite_link r b ns (if t = ''img'' then rewrite_img r b ns a else a)
             else (if t = ''img'' then rewrite_img r b ns a else a)))
     = rewrite_for r b"
  by (auto simp: rewrite_for_def fun_eq_iff)

lemma three_loops_map_attrs:
  "forEach_tag ''a'' (rewrite_a r b)
     (forEach_tag ''link'' (rewrite_link r b) (forEach_tag ''img'' (rewrite_img r b) d))
   = map (\<lambda>n. map_attrs (rewrite_for r b) (root_namespace n) n) d"
proof -
  have "map_attrs (\<lambda>ns t a. if t = ''a'' then rewrite_a r b ns a else a) ns
          (map_attrs (\<lambda>ns t a. if t = ''link'' then rewrite_link r b ns a else a) ns
             (map_attrs (\<lambda>ns t a. if t = ''img'' then rewrite_img r b ns a else a) ns n))
        = map_attrs (rewrite_for r b) ns n" for ns n
  proof -
    have 1: "map_attrs (\<lambda>ns t a. if t = ''link'' then rewrite_link r b ns a else a) ns
               (map_attrs (\<lambda>ns t a. if t = ''img'' then rewrite_img r b ns a else a) ns n)
             = map_attrs (\<lambda>ns t a. if t = ''link'' then rewrite_link r b ns (if t = ''img'' then rewrite_img r b ns a else a)
                                    else (if t = ''img'' then rewrite_img r b ns a else a)) ns n"
      by (rule map_attrs_comp) (rule child_namespace_tagged, simp)
    note keeps = child_namespace_two_loops[of _ _ r b]
    show ?thesis
      unfolding 1
      by (subst map_attrs_comp) (simp_all only: keeps loops_rewrite_for)
  qed
  then show ?thesis
    by (simp add: forEach_tag_def forEach_node_map_attrs root_namespace_map_attrs comp_def)
qed

lemma two_loops_map_attrs:
  "forEach_tag ''link'' (rewrite_link r b) (forEach_tag ''img'' (rewrite_img r b) d)
   = map (\<lambda>n. map_attrs (\<lambda>ns t a. if t = ''link'' then rewrite_link r b ns (if t = ''img'' then rewrite_img r b ns a else a)
                                    else (if t = ''img'' then rewrite_img r b ns a else a)) (root_namespace n) n) d"
proof -
  have "map_attrs (\<lambda>ns t a. if t = ''link'' then rewrite_link r b ns a else a) ns
               (map_attrs (\<lambda>ns t a. if t = ''img'' then rewrite_img r b ns a else a) ns n)
             = map_attrs (\<lambda>ns t a. if t = ''link'' then rewrite_link r b ns (if t = ''img'' then rewrite_img r b ns a else a)
                                    else (if t = ''img'' then rewrite_img r b ns a else a)) ns n" for ns n
    by (rule map_attrs_comp) (rule child_namespace_tagged, simp)
  then show ?thesis
    by (simp add: forEach_tag_def forEach_node_map_attrs root_namespace_map_attrs comp_def)
qed

lemma subtree_elems_ns_map_attrs:
  assumes "\<And>ns t a ct. child_namespace ns t (g ns t a) ct = child_namespace ns t a ct"
  shows "map (\<lambda>x. (fst x, tag_of (snd x), attrs_of (snd x))) (subtree_elems_ns ns (map_attrs g ns n))
     = map (\<lambda>x. (fst x, tag_of (snd x), g (fst x) (tag_of (snd x)) (attrs_of (snd x)))) (subtree_elems_ns ns n)"
  by (induction n arbitrary: ns)
     (auto simp: assms tag_of_map_attrs map_concat comp_def intro!: arg_cong[where f=concat])

lemma doc_elems_ns_map_attrs:
  assumes "\<And>ns t a ct. child_namespace ns t (g ns t a) ct = child_namespace ns t a ct"
  shows "map (\<lambda>x. (fst x, tag_of (snd x), attrs_of (snd x)))
           (doc_elems_ns (map (\<lambda>n. map_attrs g (root_namespace n) n) d))
     = map (\<lambda>x. (fst x, tag_of (snd x), g (fst x) (tag_of (snd x)) (attrs_of (snd x)))) (doc_elems_ns d)"
  unfolding doc_elems_ns_def
  by (induction d) (simp_all add: subtree_elems_ns_map_attrs[OF assms] root_namespace_map_attrs)

lemma list_ex_svg_anchor:
  "list_ex is_svg_anchor xs
     = list_ex (\<lambda>y. fst y = SVG \<and> snd y = ''a'') (map (\<lambda>x. (fst x, tag_of (snd x))) xs)"
  by (simp add: list_ex_iff is_svg_anchor_def)

lemma svg_anchor_map_attrs:
  assumes "\<And>ns t a ct. child_namespace ns t (g ns t a) ct = child_namespace ns t a ct"
  shows "list_ex is_svg_anchor (doc_elems_ns (map (\<lambda>n. map_attrs g (root_namespace n) n) d))
           = list_ex is_svg_anchor (doc_elems_ns d)"
proof -
  have "map (\<lambda>y. (fst y, fst (snd y)))
          (map (\<lambda>x. (fst x, tag_of (snd x), attrs_of (snd x)))
             (doc_elems_ns (map (\<lambda>n. map_attrs g (root_namespace n) n) d)))
      = map (\<lambda>y. (fst y, fst (snd y)))
          (map (\<lambda>x. (fst x, tag_of (snd x), g (fst x) (tag_of (snd x)) (attrs_of (snd x)))) (doc_elems_ns d))"
    by (simp only: doc_elems_ns_map_attrs[OF assms])
  then have "map (\<lambda>x. (fst x, tag_of (snd x))) (doc_elems_ns (map (\<lambda>n. map_attrs g (root_namespace n) n) d))
      = map (\<lambda>x. (fst x, tag_of (snd x))) (doc_elems_ns d)"
    by (simp add: comp_def)
  then show ?thesis
    by (simp only: list_ex_svg_anchor)
qed

lemma textContent_map_attrs: "textContent (map_attrs g ns n) = textContent n"
  by (induction n arbitrary: ns) (auto simp: comp_def intro!: arg_cong[where f=concat])

lemma snd_subtree_elems_ns: "map snd (subtree_elems_ns ns n) = subtree_elems n"
  by (induction n arbitrary: ns) (auto simp: map_concat comp_def intro!: arg_cong[where f=concat])

lemma map_attrs_idem:
  assumes "\<And>ns t a ct. child_namespace ns t (g ns t a) ct = child_namespace ns t a ct"
    and "\<And>x. x \<in> set (subtree_elems_ns ns n) \<Longrightarrow>
            g (fst x) (tag_of (snd x)) (g (fst x) (tag_of (snd x)) (attrs_of (snd x)))
              = g (fst x) (tag_of (snd x)) (attrs_of (snd x))"
  shows "map_attrs g ns (map_attrs g ns n) = map_attrs g ns n"
  using assms(2)
proof (induction n arbitrary: ns)
  case (Text s)
  show ?case by simp
next
  case (Element t a cs)
  have "g ns t (g ns t a) = g ns t a"
    using Element.prems[of "(ns, Element t a cs)"] by simp
  moreover have "map_attrs g (child_namespace ns t a (tag_of c)) (map_attrs g (child_namespace ns t a (tag_of c)) c)
                   = map_attrs g (child_namespace ns t a (tag_of c)) c" if "c \<in> set cs" for c
    using that Element.IH[of c "child_namespace ns t a (tag_of c)"] Element.prems by auto
  ultimately show ?case by (simp add: assms(1) tag_of_map_attrs)
qed

lemma rewriteUrls_completes:
  assumes "\<not> list_ex is_svg_anchor (doc_elems_ns d)"
  shows "rewriteUrls r b d = Inr (map (\<lambda>n. map_attrs (rewrite_for r b) (root_namespace n) n) d)"
proof -
  note keeps = child_namespace_two_loops[of _ _ r b]
  have "\<not> list_ex is_svg_anchor
            (doc_elems_ns (forEach_tag ''link'' (rewrite_link r b) (forEach_tag ''img'' (rewrite_img r b) d)))"
    unfolding two_loops_map_attrs using svg_anchor_map_attrs[OF keeps, of d] assms by simp
  then have "find is_svg_anchor
            (doc_elems_ns (forEach_tag ''link'' (rewrite_link r b) (forEach_tag ''img'' (rewrite_img r b) d))) = None"
    by (simp add: find_None_iff list_ex_iff)
  then show ?thesis
    by (simp add: rewriteUrls_def rewrite_anchors_def three_loops_map_attrs)
qed

lemma rewriteUrls_throws:
  assumes "list_ex is_svg_anchor (doc_elems_ns d)"
  shows "\<exists>msg. rewriteUrls r b d = Inl (Fault msg)"
proof -
  note keeps = child_namespace_two_loops[of _ _ r b]
  have "list_ex is_svg_anchor
            (doc_elems_ns (forEach_tag ''link'' (rewrite_link r b) (forEach_tag ''img'' (rewrite_img r b) d)))"
    unfolding two_loops_map_attrs using svg_anchor_map_attrs[OF keeps, of d] assms by simp
  then obtain x where "find is_svg_anchor
            (doc_elems_ns (forEach_tag ''link'' (rewrite_link r b) (forEach_tag ''img'' (rewrite_img r b) d))) = Some x"
    by (cases "find is_svg_anchor
            (doc_elems_ns (forEach_tag ''link'' (rewrite_link r b) (forEach_tag ''img'' (rewrite_img r b) d)))")
       (auto simp: find_None_iff list_ex_iff)
  then show ?thesis
    by (simp add: rewriteUrls_def rewrite_anchors_def)
qed

lemma doc_elems_ns_rewritten:
  "map (\<lambda>x. (fst x, tag_of (snd x), attrs_of (snd x)))
       (doc_elems_ns (map (\<lambda>n. map_attrs (rewrite_for r b) (root_namespace n) n) d))
     = map (\<lambda>x. (fst x, tag_of (snd x), rewrite_for r b (fst x) (tag_of (snd x)) (attrs_of (snd x))))
         (doc_elems_ns d)"
  by (rule doc_elems_ns_map_attrs) (rule child_namespace_rewrite_for)

text \<open>
  C4 (as amended). With \<open>r\<close> the platform's resolution and \<open>b\<close> the base URL: on a
  document that has no \<open>a\<close> element in the SVG namespace the rewriter completes, keeps
  the tree, the namespaces, the tags and the text, and gives every element the attributes
  \<open>rewrite_for\<close> computes from its namespace and tag. For the HTML elements: the \<open>src\<close>
  of an \<open>img\<close> and the \<open>href\<close> of a \<open>link\<close> or an \<open>a\<close> become the resolved URL when
  their value is not empty and the resolution succeeds, and stay as they are when the
  resolution throws or the value is empty; an \<open>a\<close> gets the target \<open>_blank\<close>. An
  \<open>img\<close> loses its \<open>srcset\<close>, and no other attribute of any element changes its value.
  With the model of the standard resolution, \<open>src="/logo.png"\<close> under the base
  \<open>https://example.com/post\<close> becomes \<open>https://example.com/logo.png\<close>.
\<close>

theorem rewriter_resolves_urls:
  "(\<not> list_ex is_svg_anchor (doc_elems_ns d) \<longrightarrow>
      (\<exists>d'. rewriteUrls r b d = Inr d'
         \<and> map (\<lambda>x. (fst x, tag_of (snd x), attrs_of (snd x))) (doc_elems_ns d')
             = map (\<lambda>x. (fst x, tag_of (snd x), rewrite_for r b (fst x) (tag_of (snd x)) (attrs_of (snd x))))
                 (doc_elems_ns d)
         \<and> map textContent d' = map textContent d))
   \<and> map_of (rewrite_for r b HTML ''img'' a) ''src''
        = map_option (\<lambda>v. if v = [] then [] else case r v b of Some href \<Rightarrow> href | None \<Rightarrow> v) (map_of a ''src'')
   \<and> map_of (rewrite_for r b ns ''img'' a) ''srcset'' = None
   \<and> map_of (rewrite_for r b HTML ''link'' a) ''href''
        = map_option (\<lambda>v. if v = [] then [] else case r v b of Some href \<Rightarrow> href | None \<Rightarrow> v) (map_of a ''href'')
   \<and> map_of (rewrite_for r b HTML ''a'' a) ''href''
        = map_option (\<lambda>v. if v = [] then [] else case r v b of Some href \<Rightarrow> href | None \<Rightarrow> v) (map_of a ''href'')
   \<and> map_of (rewrite_for r b HTML ''a'' a) ''target'' = Some ''_blank''
   \<and> (k \<notin> set [''src'', ''srcset'', ''href'', ''target''] \<longrightarrow> map_of (rewrite_for r b ns t a) k = map_of a k)
   \<and> (t \<notin> set [''img'', ''link'', ''a''] \<longrightarrow> rewrite_for r b ns t a = a)
   \<and> rewriteUrls resolve_url ''https://example.com/post'' [Element ''img'' [(''src'', ''/logo.png'')] []]
        = Inr [Element ''img'' [(''src'', ''https://example.com/logo.png'')] []]"
proof (intro conjI impI)
  assume "\<not> list_ex is_svg_anchor (doc_elems_ns d)"
  then have "rewriteUrls r b d = Inr (map (\<lambda>n. map_attrs (rewrite_for r b) (root_namespace n) n) d)"
    by (rule rewriteUrls_completes)
  then show "\<exists>d'. rewriteUrls r b d = Inr d'
         \<and> map (\<lambda>x. (fst x, tag_of (snd x), attrs_of (snd x))) (doc_elems_ns d')
             = map (\<lambda>x. (fst x, tag_of (snd x), rewrite_for r b (fst x) (tag_of (snd x)) (attrs_of (snd x))))
                 (doc_elems_ns d)
         \<and> map textContent d' = map textContent d"
    by (simp add: doc_elems_ns_rewritten textContent_map_attrs comp_def)
next
  show "map_of (rewrite_for r b HTML ''img'' a) ''src''
        = map_option (\<lambda>v. if v = [] then [] else case r v b of Some href \<Rightarrow> href | None \<Rightarrow> v) (map_of a ''src'')"
    by (simp add: rewrite_for_def rewrite_img_def map_of_removeAttribute rewrite_attr_value)
  show "map_of (rewrite_for r b ns ''img'' a) ''srcset'' = None"
    by (simp add: rewrite_for_def rewrite_img_def map_of_removeAttribute_same)
  show "map_of (rewrite_for r b HTML ''link'' a) ''href''
        = map_option (\<lambda>v. if v = [] then [] else case r v b of Some href \<Rightarrow> href | None \<Rightarrow> v) (map_of a ''href'')"
    by (simp add: rewrite_for_def rewrite_link_def rewrite_attr_value)
  show "map_of (rewrite_for r b HTML ''a'' a) ''href''
        = map_option (\<lambda>v. if v = [] then [] else case r v b of Some href \<Rightarrow> href | None \<Rightarrow> v) (map_of a ''href'')"
    by (simp add: rewrite_for_def rewrite_a_def map_of_setAttribute rewrite_attr_value)
  show "map_of (rewrite_for r b HTML ''a'' a) ''target'' = Some ''_blank''"
    by (simp add: rewrite_for_def rewrite_a_def map_of_setAttribute)
  show "map_of (rewrite_for r b ns t a) k = map_of a k"
    if "k \<notin> set [''src'', ''srcset'', ''href'', ''target'']"
    using that
    by (simp add: rewrite_for_def rewrite_img_def rewrite_link_def rewrite_a_def
        map_of_setAttribute map_of_removeAttribute rewrite_attr_other)
  show "rewrite_for r b ns t a = a" if "t \<notin> set [''img'', ''link'', ''a'']"
    using that by (simp add: rewrite_for_def)
  show "rewriteUrls resolve_url ''https://example.com/post'' [Element ''img'' [(''src'', ''/logo.png'')] []]
        = Inr [Element ''img'' [(''src'', ''https://example.com/logo.png'')] []]"
    by code_simp
qed

theorem rewriter_resolves_urls_witness:
  "\<not> list_ex is_svg_anchor (doc_elems_ns logo_page)
   \<and> resolve_url ''/logo.png'' ''https://example.com/post'' = Some ''https://example.com/logo.png''
   \<and> map_of (rewrite_for resolve_url ''https://example.com/post'' HTML ''img''
        [(''src'', ''/logo.png''), (''srcset'', ''/logo-2x.png 2x''), (''alt'', ''Logo'')]) ''src''
       = Some ''https://example.com/logo.png''
   \<and> ''alt'' \<notin> set [''src'', ''srcset'', ''href'', ''target'']
   \<and> map_of (rewrite_for resolve_url ''https://example.com/post'' HTML ''img''
        [(''src'', ''/logo.png''), (''srcset'', ''/logo-2x.png 2x''), (''alt'', ''Logo'')]) ''alt''
       = Some ''Logo''
   \<and> resolve_url ''http://'' ''https://example.com/post'' = None
   \<and> map_of (rewrite_for resolve_url ''https://example.com/post'' HTML ''a'' [(''href'', ''http://'')]) ''href''
       = Some ''http://''
   \<and> ''p'' \<notin> set [''img'', ''link'', ''a'']
   \<and> rewrite_for resolve_url ''https://example.com/post'' HTML ''p'' [(''src'', ''x'')] = [(''src'', ''x'')]
   \<and> (\<exists>d'. rewriteUrls resolve_url ''https://example.com/post'' logo_page = Inr d'
          \<and> map textContent d' = map textContent logo_page)
   \<and> rewriteUrls resolve_url ''https://example.com/post'' logo_page
       = Inr (page [Element ''img'' [(''src'', ''https://example.com/logo.png''), (''alt'', ''Logo'')] [],
           Element ''p'' [] [Text ''Read '',
              Element ''a'' [(''href'', ''https://example.com/more.html#top''), (''target'', ''_blank'')] [Text ''more''],
              Text '' or '', Element ''a'' [(''href'', ''http://''), (''target'', ''_blank'')] [Text ''nothing'']]])"
proof -
  have none: "\<not> list_ex is_svg_anchor (doc_elems_ns logo_page)"
    by code_simp
  have r1: "resolve_url ''/logo.png'' ''https://example.com/post'' = Some ''https://example.com/logo.png''"
    by code_simp
  have r2: "resolve_url ''http://'' ''https://example.com/post'' = None"
    by code_simp
  have page: "rewriteUrls resolve_url ''https://example.com/post'' logo_page
       = Inr (page [Element ''img'' [(''src'', ''https://example.com/logo.png''), (''alt'', ''Logo'')] [],
           Element ''p'' [] [Text ''Read '',
              Element ''a'' [(''href'', ''https://example.com/more.html#top''), (''target'', ''_blank'')] [Text ''more''],
              Text '' or '', Element ''a'' [(''href'', ''http://''), (''target'', ''_blank'')] [Text ''nothing'']]])"
    by code_simp
  have "\<exists>d'. rewriteUrls resolve_url ''https://example.com/post'' logo_page = Inr d'
          \<and> map textContent d' = map textContent logo_page"
    using rewriter_resolves_urls[where r = resolve_url and b = "''https://example.com/post''"
        and a = "[]" and k = "''alt''" and t = "''p''" and ns = HTML and d = logo_page] none
    by blast
  then show ?thesis
    using rewriter_resolves_urls[where r = resolve_url and b = "''https://example.com/post''"
        and a = "[(''src'', ''/logo.png''), (''srcset'', ''/logo-2x.png 2x''), (''alt'', ''Logo'')]"
        and k = "''alt''" and t = "''img''" and ns = HTML and d = logo_page]
      rewriter_resolves_urls[where r = resolve_url and b = "''https://example.com/post''"
        and a = "[(''href'', ''http://'')]" and k = "''alt''" and t = "''p''" and ns = HTML and d = logo_page]
      rewriter_resolves_urls[where r = resolve_url and b = "''https://example.com/post''"
        and a = "[(''src'', ''x'')]" and k = "''alt''" and t = "''p''" and ns = HTML and d = logo_page]
      none r1 r2 page
    by simp
qed

text \<open>
  C4 as stated fails for the empty string, which is a relative reference that the
  standard resolution maps to the base URL: the rewriter leaves an empty \<open>src\<close> or
  \<open>href\<close> as it is. It also fails on a document with a link inside a drawing: the
  rewriter throws at the \<open>a\<close> element of the SVG namespace, and the load that called it
  ends with the error page.
\<close>

theorem rewriter_skips_empty_url_counterexample:
  "resolve_url [] ''https://example.com/post'' = Some ''https://example.com/post''
   \<and> rewriteUrls resolve_url ''https://example.com/post'' [Element ''img'' [(''src'', [])] []]
       = Inr [Element ''img'' [(''src'', [])] []]
   \<and> rewriteUrls resolve_url ''https://example.com/post'' [Element ''link'' [(''href'', [])] []]
       = Inr [Element ''link'' [(''href'', [])] []]
   \<and> rewriteUrls resolve_url ''https://example.com/post'' drawing_page
       = Inl (Fault ''Cannot set property href of #<SVGAElement> which has only a getter'')
   \<and> iframeHtml (handleLoadArticle_iframe drawing_env initial_state)
       = error_page ''Cannot set property href of #<SVGAElement> which has only a getter''"
  by code_simp

section \<open>Idempotence of the rewriter\<close>

lemma url_values_mem:
  "e \<in> set (doc_elems d) \<Longrightarrow> url_value (tag_of e) (attrs_of e) = Some v \<Longrightarrow> v \<in> set (url_values d)"
  unfolding url_values_def by force

lemma doc_elems_mem: "n \<in> set d \<Longrightarrow> e \<in> set (subtree_elems n) \<Longrightarrow> e \<in> set (doc_elems d)"
  unfolding doc_elems_def by auto

lemma rewriteUrls_again:
  assumes "\<forall>v \<in> set (url_values d). \<forall>u. r v b = Some u \<longrightarrow> r u b = Some u"
  shows "then_rewrite r b (rewriteUrls r b d) = rewriteUrls r b d"
proof (cases "list_ex is_svg_anchor (doc_elems_ns d)")
  case True
  then obtain msg where "rewriteUrls r b d = Inl (Fault msg)"
    using rewriteUrls_throws by blast
  then show ?thesis by (simp add: then_rewrite_def)
next
  case False
  let ?g = "rewrite_for r b"
  let ?d' = "map (\<lambda>n. map_attrs ?g (root_namespace n) n) d"
  have first: "rewriteUrls r b d = Inr ?d'"
    using False by (rule rewriteUrls_completes)
  have "\<not> list_ex is_svg_anchor (doc_elems_ns ?d')"
    using False svg_anchor_map_attrs[of ?g d, OF child_namespace_rewrite_for] by simp
  then have second: "rewriteUrls r b ?d' = Inr (map (\<lambda>n. map_attrs ?g (root_namespace n) n) ?d')"
    by (rule rewriteUrls_completes)
  have "map_attrs ?g (root_namespace n) (map_attrs ?g (root_namespace n) n) = map_attrs ?g (root_namespace n) n"
    if n: "n \<in> set d" for n
  proof (rule map_attrs_idem)
    show "child_namespace ns t (?g ns t a) ct = child_namespace ns t a ct" for ns t a ct
      by (rule child_namespace_rewrite_for)
    fix x assume x: "x \<in> set (subtree_elems_ns (root_namespace n) n)"
    then have e: "snd x \<in> set (subtree_elems n)"
      using snd_subtree_elems_ns[of "root_namespace n" n] by (metis image_eqI set_map)
    show "?g (fst x) (tag_of (snd x)) (?g (fst x) (tag_of (snd x)) (attrs_of (snd x)))
            = ?g (fst x) (tag_of (snd x)) (attrs_of (snd x))"
    proof (rule rewrite_for_idem)
      fix v u assume "url_value (tag_of (snd x)) (attrs_of (snd x)) = Some v" and ru: "r v b = Some u"
      then have "v \<in> set (url_values d)"
        using url_values_mem doc_elems_mem[OF n e] by blast
      with assms ru show "r u b = Some u" by blast
    qed
  qed
  then have "map (\<lambda>n. map_attrs ?g (root_namespace n) n) ?d' = ?d'"
    by (simp add: root_namespace_map_attrs comp_def)
  then show ?thesis
    by (simp add: then_rewrite_def first second)
qed

text \<open>
  C9. Whenever every URL the resolution gives for a value the rewriter reads from the
  document resolves to itself under the same base (an absolute URL is its own
  resolution), rewriting the rewritten document again changes nothing: the second run
  yields the document the first one yielded. (Where the first run throws there is no
  document to run on again, and \<open>then_rewrite\<close> passes the exception on.)
\<close>

theorem rewriter_idempotent:
  assumes "\<forall>v \<in> set (url_values d). \<forall>u. r v b = Some u \<longrightarrow> r u b = Some u"
  shows "then_rewrite r b (rewriteUrls r b d) = rewriteUrls r b d
         \<and> (\<forall>d'. rewriteUrls r b d = Inr d' \<longrightarrow> rewriteUrls r b d' = Inr d')"
proof -
  have again: "then_rewrite r b (rewriteUrls r b d) = rewriteUrls r b d"
    using assms by (rule rewriteUrls_again)
  moreover have "rewriteUrls r b d' = Inr d'" if "rewriteUrls r b d = Inr d'" for d'
    using again that by (simp add: then_rewrite_def)
  ultimately show ?thesis by blast
qed

theorem rewriter_idempotent_witness:
  "url_values logo_page = [''/logo.png'', ''more.html#top'', ''http://'']
   \<and> resolve_url ''/logo.png'' ''https://example.com/post'' = Some ''https://example.com/logo.png''
   \<and> resolve_url ''https://example.com/logo.png'' ''https://example.com/post'' = Some ''https://example.com/logo.png''
   \<and> resolve_url ''more.html#top'' ''https://example.com/post'' = Some ''https://example.com/more.html#top''
   \<and> resolve_url ''https://example.com/more.html#top'' ''https://example.com/post''
        = Some ''https://example.com/more.html#top''
   \<and> resolve_url ''http://'' ''https://example.com/post'' = None
   \<and> rewriteUrls resolve_url ''https://example.com/post'' logo_page \<noteq> Inr logo_page
   \<and> (\<exists>d'. rewriteUrls resolve_url ''https://example.com/post'' logo_page = Inr d')
   \<and> then_rewrite resolve_url ''https://example.com/post''
         (rewriteUrls resolve_url ''https://example.com/post'' logo_page)
       = rewriteUrls resolve_url ''https://example.com/post'' logo_page
   \<and> rewriteUrls resolve_url ''https://example.com/post'' logo_page = Inr rewritten_logo_page
   \<and> rewriteUrls resolve_url ''https://example.com/post'' rewritten_logo_page = Inr rewritten_logo_page"
proof -
  have p: "rewriteUrls resolve_url ''https://example.com/post'' logo_page = Inr rewritten_logo_page"
    by code_simp
  have v: "url_values logo_page = [''/logo.png'', ''more.html#top'', ''http://'']"
    by code_simp
  have r1: "resolve_url ''/logo.png'' ''https://example.com/post'' = Some ''https://example.com/logo.png''"
    by code_simp
  have r2: "resolve_url ''https://example.com/logo.png'' ''https://example.com/post'' = Some ''https://example.com/logo.png''"
    by code_simp
  have r3: "resolve_url ''more.html#top'' ''https://example.com/post'' = Some ''https://example.com/more.html#top''"
    by code_simp
  have r4: "resolve_url ''https://example.com/more.html#top'' ''https://example.com/post''
        = Some ''https://example.com/more.html#top''"
    by code_simp
  have r5: "resolve_url ''http://'' ''https://example.com/post'' = None"
    by code_simp
  have ne: "rewriteUrls resolve_url ''https://example.com/post'' logo_page \<noteq> Inr logo_page"
    by code_simp
  have "\<not> list_ex is_svg_anchor (doc_elems_ns logo_page)"
    by code_simp
  then have ok: "\<exists>d'. rewriteUrls resolve_url ''https://example.com/post'' logo_page = Inr d'"
    using rewriteUrls_completes[of logo_page] by simp
  have hyp: "\<forall>v \<in> set (url_values logo_page). \<forall>u.
      resolve_url v ''https://example.com/post'' = Some u \<longrightarrow> resolve_url u ''https://example.com/post'' = Some u"
    unfolding v using r1 r2 r3 r4 r5 by simp
  show ?thesis
    using rewriter_idempotent[of logo_page resolve_url "''https://example.com/post''"] hyp v r1 r2 r3 r4 r5 ne ok p
    by simp
qed

section \<open>Properties of the fragment parser\<close>

lemma split_first_append: "split_first pat s = Some (pre, post) \<Longrightarrow> s = pre @ pat @ post"
proof (induction s arbitrary: pre)
  case Nil
  then show ?case by (simp split: if_splits)
next
  case (Cons c cs)
  show ?case
  proof (cases "prefix pat (c # cs)")
    case True
    with Cons.prems have "pre = []" "post = drop (length pat) (c # cs)" by auto
    moreover from True have "c # cs = pat @ drop (length pat) (c # cs)"
      by (metis append_eq_conv_conj prefixE)
    ultimately show ?thesis by simp
  next
    case False
    with Cons.prems obtain pre' where "split_first pat cs = Some (pre', post)" "pre = c # pre'"
      by (auto split: prod.splits)
    with Cons.IH show ?thesis by simp
  qed
qed

lemma decode_escape_text: "decode (escape_text s) = s"
proof (induction s)
  case Nil
  show ?case by (simp add: escape_text_def decode.simps)
next
  case (Cons c s)
  then have IH: "decode (concat (map escape_char s)) = s" by (simp add: escape_text_def)
  show ?case
    by (simp add: escape_text_def escape_char_def decode.simps char_refs_def drop_semicolon_def IH)
qed

lemma escape_text_no_lt: "CHR ''<'' \<notin> set (escape_text s)"
  by (induction s) (auto simp: escape_text_def escape_char_def)

lemma escape_text_no_cr: "CHR 0x0D \<notin> set s \<Longrightarrow> CHR 0x0D \<notin> set (escape_text s)"
  by (induction s) (auto simp: escape_text_def escape_char_def)

lemma escape_text_no_nul: "CHR 0x00 \<notin> set s \<Longrightarrow> CHR 0x00 \<notin> set (escape_text s)"
  by (induction s) (auto simp: escape_text_def escape_char_def)

lemma escape_text_Nil_iff: "escape_text s = [] \<longleftrightarrow> s = []"
  by (cases s) (auto simp: escape_text_def escape_char_def)

lemma normalize_newlines_id: "CHR 0x0D \<notin> set s \<Longrightarrow> normalize_newlines s = s"
  by (induction s rule: normalize_newlines.induct) auto

lemma tokenize_text: "u \<noteq> [] \<Longrightarrow> CHR ''<'' \<notin> set u \<Longrightarrow> tokenize u = [Chars (decode u)]"
proof (cases u)
  case Nil
  assume "u \<noteq> []" with Nil show ?thesis by simp
next
  case (Cons c cs)
  assume "CHR ''<'' \<notin> set u"
  with Cons have c: "c \<noteq> CHR ''<''" and cs: "\<forall>x \<in> set cs. x \<noteq> CHR ''<''" by auto
  from cs have tw: "takeWhile (\<lambda>x. x \<noteq> CHR ''<'') cs = cs"
    and dw: "dropWhile (\<lambda>x. x \<noteq> CHR ''<'') cs = []"
    by simp_all
  have "tokenize (c # cs) = [Chars (decode (c # cs))]"
    using c by (subst tokenize.simps) (simp add: tw dw)
  with Cons show ?thesis by simp
qed

lemma decode_plain: "CHR ''&'' \<notin> set u \<Longrightarrow> decode u = u"
  by (induction u) (auto simp: decode.simps)

lemma filter_nul: "CHR 0x00 \<notin> set u \<Longrightarrow> filter (\<lambda>c. c \<noteq> CHR 0x00) u = u"
  by (auto simp: filter_id_conv)

lemma add_chars_first: "u \<noteq> [] \<Longrightarrow> CHR 0x00 \<notin> set u \<Longrightarrow> add_chars u [] = [Text u]"
  by (simp add: add_chars_def filter_nul)

lemma build_text: "u \<noteq> [] \<Longrightarrow> CHR 0x00 \<notin> set u \<Longrightarrow> build [Chars u] [] [] = [Text u]"
  by (simp add: add_chars_first)

lemma parse_escaped_text:
  assumes "CHR 0x0D \<notin> set s" and "CHR 0x00 \<notin> set s"
    and "context \<notin> set rawtext_tags"
  shows "parse_fragment context (escape_text s) = text_nodes s"
proof (cases "s = []")
  case True
  then show ?thesis
    using assms by (simp add: parse_fragment_def escape_text_def text_nodes_def)
next
  case False
  have n: "normalize_newlines (escape_text s) = escape_text s"
    using assms(1) by (simp add: normalize_newlines_id escape_text_no_cr)
  have t: "tokenize (escape_text s) = [Chars s]"
    using False by (simp add: tokenize_text escape_text_no_lt escape_text_Nil_iff decode_escape_text)
  show ?thesis
    using False assms(2,3)
    by (simp add: parse_fragment_def Let_def n t add_chars_first text_nodes_def decode_escape_text)
qed

lemma parse_raw_text:
  assumes "CHR 0x0D \<notin> set s" and "context \<in> set rawtext_tags"
  shows "parse_fragment context s = text_nodes s"
  using assms by (simp add: parse_fragment_def Let_def normalize_newlines_id)

text \<open>Writing back the markup of an element whose content is one text.\<close>

lemma innerHTML_text_nodes:
  "innerHTML (Element t a (text_nodes s)) = (if t \<in> set rawtext_tags then s else escape_text s)"
  by (simp add: innerHTML_def text_nodes_def escape_text_def)

lemma set_innerHTML_roundtrip:
  assumes "CHR 0x0D \<notin> set s" and "CHR 0x00 \<notin> set s" and "tag_of n = t"
  shows "set_innerHTML (innerHTML (Element t a (text_nodes s))) n = Element (tag_of n) (attrs_of n) (text_nodes s)"
  using assms
  by (simp add: set_innerHTML_def innerHTML_text_nodes parse_escaped_text parse_raw_text)


section \<open>Paths\<close>

lemma update_at_twice: "update_at p f (update_at p g n) = update_at p (\<lambda>m. f (g m)) n"
proof (induction p arbitrary: n)
  case Nil
  show ?case by simp
next
  case (Cons i p)
  show ?case
  proof (cases n)
    case (Text s)
    then show ?thesis by simp
  next
    case (Element t a cs)
    then show ?thesis using Cons.IH by (cases "i < length cs") simp_all
  qed
qed

lemma update_at_fixed: "get_at p n = Some m \<Longrightarrow> f m = m \<Longrightarrow> update_at p f n = n"
proof (induction p arbitrary: n)
  case Nil
  then show ?case by simp
next
  case (Cons i p)
  show ?case
  proof (cases n)
    case (Text s)
    then show ?thesis by simp
  next
    case (Element t a cs)
    with Cons.prems have i: "i < length cs" and g: "get_at p (cs ! i) = Some m"
      by (auto split: if_splits)
    from Cons.IH[OF g Cons.prems(2)] have "update_at p f (cs ! i) = cs ! i" .
    with Element i show ?thesis by simp
  qed
qed

lemma get_at_update_at: "get_at p n = Some m \<Longrightarrow> get_at p (update_at p f n) = Some (f m)"
proof (induction p arbitrary: n)
  case Nil
  then show ?case by simp
next
  case (Cons i p)
  show ?case
  proof (cases n)
    case (Text s)
    with Cons.prems show ?thesis by simp
  next
    case (Element t a cs)
    with Cons.prems have i: "i < length cs" and g: "get_at p (cs ! i) = Some m"
      by (auto split: if_splits)
    with Element Cons.IH[OF g] show ?thesis by simp
  qed
qed

lemma update_at_cong: "get_at p n = Some m \<Longrightarrow> f m = g m \<Longrightarrow> update_at p f n = update_at p g n"
proof (induction p arbitrary: n)
  case Nil
  then show ?case by simp
next
  case (Cons i p)
  show ?case
  proof (cases n)
    case (Text s)
    then show ?thesis by simp
  next
    case (Element t a cs)
    with Cons.prems have i: "i < length cs" and g: "get_at p (cs ! i) = Some m"
      by (auto split: if_splits)
    with Element Cons.IH[OF g Cons.prems(2)] show ?thesis by simp
  qed
qed

lemma concat_map_update:
  "i < length cs \<Longrightarrow> h c = h (cs ! i) \<Longrightarrow> concat (map h (cs[i := c])) = concat (map h cs)"
proof -
  assume i: "i < length cs" and h: "h c = h (cs ! i)"
  have "(map h cs)[i := h c] = map h cs"
    using i h by (simp add: list_update_same_conv)
  then show ?thesis by (simp add: map_update)
qed

lemma textContent_update_at:
  "get_at p n = Some m \<Longrightarrow> textContent (f m) = textContent m \<Longrightarrow> textContent (update_at p f n) = textContent n"
proof (induction p arbitrary: n)
  case Nil
  then show ?case by simp
next
  case (Cons i p)
  show ?case
  proof (cases n)
    case (Text s)
    then show ?thesis by simp
  next
    case (Element t a cs)
    with Cons.prems have i: "i < length cs" and g: "get_at p (cs ! i) = Some m"
      by (auto split: if_splits)
    have "textContent (update_at p f (cs ! i)) = textContent (cs ! i)"
      by (rule Cons.IH[OF g Cons.prems(2)])
    with Element i show ?thesis by (simp add: concat_map_update)
  qed
qed

section \<open>The direct-render locator\<close>

lemma tag_of_highlight_direct: "tag_of (highlight_direct a p) = tag_of p"
  by (simp add: highlight_direct_def set_innerHTML_def Let_def)

lemma attrs_of_highlight_direct: "attrs_of (highlight_direct a p) = attrs_of p"
  by (simp add: highlight_direct_def set_innerHTML_def Let_def)

lemma first_paragraph_Some:
  "first_paragraph a pane = Some p \<Longrightarrow>
     \<exists>n. get_at p pane = Some n \<and> tag_of n = ''p'' \<and> js_includes (textContent n) a"
  unfolding first_paragraph_def paragraphs_def
  by (auto simp: find_Some_iff split: option.splits dest!: nth_mem)

lemma first_paragraph_None:
  "first_paragraph a pane = None \<longleftrightarrow>
     (\<forall>p \<in> set (paragraphs pane). \<forall>n. get_at p pane = Some n \<longrightarrow> \<not> js_includes (textContent n) a)"
  unfolding first_paragraph_def by (auto simp: find_None_iff split: option.splits)

lemma locate_direct:
  assumes "first_paragraph (js_trim anchor) pane = Some p"
  shows "handleScrollToQuote_direct (Some pane) anchor =
           (Highlighted (Some p), Some (update_at p (highlight_direct (js_trim anchor)) pane),
            Some (p, case get_at p pane of None \<Rightarrow> [] | Some n \<Rightarrow> innerHTML n))"
  using assms by (simp add: handleScrollToQuote_direct_def Let_def)

lemma restore_direct_roundtrip:
  assumes g: "get_at p pane = Some (Element t at (text_nodes s))"
    and s: "CHR 0x0D \<notin> set s" "CHR 0x00 \<notin> set s"
  shows "restore_direct (p, innerHTML (Element t at (text_nodes s)))
           (update_at p (highlight_direct a) pane) = pane"
proof -
  let ?m = "Element t at (text_nodes s)"
  have "set_innerHTML (innerHTML ?m) (highlight_direct a ?m) = ?m"
    using set_innerHTML_roundtrip[OF s, of "highlight_direct a ?m" t at]
    by (simp add: tag_of_highlight_direct attrs_of_highlight_direct)
  then have "update_at p (\<lambda>m. set_innerHTML (innerHTML ?m) (highlight_direct a m)) pane = pane"
    using g by (intro update_at_fixed)
  then show ?thesis by (simp add: restore_direct_def update_at_twice)
qed

lemma find_text_None:
  "(find_text a n = None \<longrightarrow> is_element n \<longrightarrow> (\<forall>s \<in> set (texts n). \<not> js_includes s a))
   \<and> ((\<forall>s \<in> set (texts n). \<not> js_includes s a) \<longrightarrow> find_text a n = None)"
  and find_text_list_None:
  "find_text_list a i cs = None \<longleftrightarrow> (\<forall>c \<in> set cs. \<forall>s \<in> set (texts c). \<not> js_includes s a)"
proof (induction a n and a i cs rule: find_text_find_text_list.induct)
  case (1 anchor s)
  show ?case by simp
next
  case (2 anchor t a cs)
  then show ?case by simp
next
  case (3 anchor i)
  show ?case by simp
next
  case (4 anchor i c cs)
  show ?case
  proof (cases c)
    case (Text s)
    with 4 show ?thesis by auto
  next
    case (Element t a ds)
    with 4 show ?thesis by (auto split: option.splits)
  qed
qed

lemma find_text_Some:
  "find_text a n = Some p \<Longrightarrow>
     \<exists>t at cs s. get_at p n = Some (Element t at cs) \<and> Text s \<in> set cs \<and> js_includes s a"
  and find_text_list_Some:
  "find_text_list a i cs = Some p \<Longrightarrow> i = length pre \<Longrightarrow>
     \<exists>t' at' cs' s. get_at p (Element t0 at0 (pre @ cs)) = Some (Element t' at' cs')
        \<and> Text s \<in> set cs' \<and> js_includes s a"
proof (induction a n and a i cs arbitrary: p and p pre t0 at0 rule: find_text_find_text_list.induct)
  case (1 anchor s)
  then show ?case by simp
next
  case (2 anchor t a cs)
  from 2(2) have "find_text_list anchor 0 cs = Some p" by simp
  from "2.IH"[OF this, of "[]" t a] show ?case by simp
next
  case (3 anchor i)
  then show ?case by simp
next
  case (4 anchor i c cs)
  show ?case
  proof (cases c)
    case (Text s)
    show ?thesis
    proof (cases "js_includes s anchor")
      case True
      with Text 4(4) have "p = []" by simp
      with Text True show ?thesis by auto
    next
      case False
      with Text 4(4) have f: "find_text_list anchor (Suc i) cs = Some p" by simp
      have "Suc i = length (pre @ [c])" using 4(5) by simp
      from "4.IH"(1)[OF Text False f this] show ?thesis by simp
    qed
  next
    case (Element t a ds)
    show ?thesis
    proof (cases "find_text anchor c")
      case None
      with Element 4(4) have f: "find_text_list anchor (Suc i) cs = Some p" by simp
      have "Suc i = length (pre @ [c])" using 4(5) by simp
      from "4.IH"(3)[OF Element None f this] show ?thesis by simp
    next
      case (Some q)
      with Element 4(4) have p: "p = i # q" by simp
      from "4.IH"(2)[OF Element Some] obtain t' at' cs' s where
        "get_at q c = Some (Element t' at' cs')" "Text s \<in> set cs'" "js_includes s anchor"
        by blast
      with p 4(5) show ?thesis by (auto simp: nth_append)
    qed
  qed
qed


section \<open>Replacement and the highlight markup\<close>

lemma expand_no_dollar:
  "CHR ''$'' \<notin> set x \<Longrightarrow> expand_replacement m pre post (x @ y) = x @ expand_replacement m pre post y"
proof (induction x)
  case Nil
  show ?case by simp
next
  case (Cons c xs)
  then have c: "c \<noteq> CHR ''$''" and IH: "expand_replacement m pre post (xs @ y) = xs @ expand_replacement m pre post y"
    by auto
  show ?case
  proof (cases "xs @ y")
    case Nil
    then show ?thesis by simp
  next
    case (Cons d r)
    with c IH show ?thesis by simp
  qed
qed

lemma expand_before_end_tag:
  "\<exists>X. expand_replacement m pre post (a @ ''</span>'') = X @ ''</span>''
       \<and> set X \<subseteq> set a \<union> set m \<union> set pre \<union> set post \<union> {CHR ''$''}"
proof (induction m pre post a rule: expand_replacement.induct)
  case (1 m pre post)
  show ?case by simp
next
  case (2 m pre post c)
  have "expand_replacement m pre post ([c] @ ''</span>'') = [c] @ ''</span>''"
    by simp
  then show ?case by (intro exI[of _ "[c]"]) simp
next
  case (3 m pre post c d cs)
  consider (dollar) "c = CHR ''$''" "d = CHR ''$''"
    | (matched) "c = CHR ''$''" "d = CHR ''&''"
    | (before) "c = CHR ''$''" "d = CHR 0x60"
    | (after) "c = CHR ''$''" "d = CHR 0x27"
    | (plain) "\<not> (c = CHR ''$'' \<and> d \<in> {CHR ''$'', CHR ''&'', CHR 0x60, CHR 0x27})"
    by auto
  then show ?case
  proof cases
    case dollar
    with 3(1) obtain X where "expand_replacement m pre post (cs @ ''</span>'') = X @ ''</span>''"
      "set X \<subseteq> set cs \<union> set m \<union> set pre \<union> set post \<union> {CHR ''$''}" by auto
    with dollar show ?thesis by (intro exI[of _ "CHR ''$'' # X"]) auto
  next
    case matched
    with 3(2) obtain X where "expand_replacement m pre post (cs @ ''</span>'') = X @ ''</span>''"
      "set X \<subseteq> set cs \<union> set m \<union> set pre \<union> set post \<union> {CHR ''$''}" by auto
    with matched show ?thesis by (intro exI[of _ "m @ X"]) auto
  next
    case before
    with 3(3) obtain X where "expand_replacement m pre post (cs @ ''</span>'') = X @ ''</span>''"
      "set X \<subseteq> set cs \<union> set m \<union> set pre \<union> set post \<union> {CHR ''$''}" by auto
    with before show ?thesis by (intro exI[of _ "pre @ X"]) auto
  next
    case after
    with 3(4) obtain X where "expand_replacement m pre post (cs @ ''</span>'') = X @ ''</span>''"
      "set X \<subseteq> set cs \<union> set m \<union> set pre \<union> set post \<union> {CHR ''$''}" by auto
    with after show ?thesis by (intro exI[of _ "post @ X"]) auto
  next
    case plain
    with 3(5) obtain X where "expand_replacement m pre post ((d # cs) @ ''</span>'') = X @ ''</span>''"
      "set X \<subseteq> set (d # cs) \<union> set m \<union> set pre \<union> set post \<union> {CHR ''$''}" by auto
    with plain show ?thesis by (intro exI[of _ "c # X"]) auto
  qed
qed

lemma expand_highlight_template:
  "\<exists>X. expand_replacement a pre post (highlight_template a) = highlight_open @ X @ ''</span>''
       \<and> set X \<subseteq> set a \<union> set pre \<union> set post \<union> {CHR ''$''}"
proof -
  have "CHR ''$'' \<notin> set highlight_open" by (simp add: highlight_open_def)
  then have "expand_replacement a pre post (highlight_template a)
      = highlight_open @ expand_replacement a pre post (a @ ''</span>'')"
    unfolding highlight_template_def by (rule expand_no_dollar)
  with expand_before_end_tag[of a pre post a] show ?thesis by auto
qed

section \<open>Tokens of the highlight markup\<close>

lemma plain_text_set: "plain_text s \<longleftrightarrow> (\<forall>c \<in> set s. plain_char c)"
  by (simp add: plain_text_def list_all_iff)

lemma plain_text_facts:
  assumes "plain_text s"
  shows "CHR ''&'' \<notin> set s" "CHR ''<'' \<notin> set s" "CHR ''>'' \<notin> set s" "CHR 0xA0 \<notin> set s"
    "CHR 0x0D \<notin> set s" "CHR 0x00 \<notin> set s"
  using assms by (auto simp: plain_text_set plain_char_def)

lemma escape_text_plain: "plain_text s \<Longrightarrow> escape_text s = s"
  by (induction s) (auto simp: plain_text_def plain_char_def escape_text_def escape_char_def)

lemma tokenize_text_then_tag:
  assumes "u \<noteq> []" and "CHR ''<'' \<notin> set u"
  shows "tokenize (u @ CHR ''<'' # r) = Chars (decode u) # tokenize (CHR ''<'' # r)"
proof (cases u)
  case Nil
  with assms show ?thesis by simp
next
  case (Cons c cs)
  with assms have c: "c \<noteq> CHR ''<''" and cs: "\<forall>x \<in> set cs. x \<noteq> CHR ''<''" by auto
  have tw: "takeWhile (\<lambda>x. x \<noteq> CHR ''<'') (cs @ CHR ''<'' # r) = cs"
    using cs by (simp add: takeWhile_append2)
  have dw: "dropWhile (\<lambda>x. x \<noteq> CHR ''<'') (cs @ CHR ''<'' # r) = CHR ''<'' # r"
    using cs by (simp add: dropWhile_append2)
  have "tokenize (c # cs @ CHR ''<'' # r) = Chars (decode (c # cs)) # tokenize (CHR ''<'' # r)"
    using c by (subst tokenize.simps) (simp add: tw dw)
  with Cons show ?thesis by simp
qed

lemma tokenize_highlight_open:
  "tokenize (highlight_open @ r)
     = StartTag ''span'' [(''class'', ''smartread-highlight''), (''id'', ''temp-highlight'')] # tokenize r"
  unfolding highlight_open_def
  by (simp add: tokenize.simps(2) is_alpha_def name_char_def html_space_def ascii_lower_def
      add_attr_def decode_plain)

lemma tokenize_span_end: "tokenize (''</span>'' @ r) = EndTag ''span'' # tokenize r"
  by (simp add: tokenize.simps(2) is_alpha_def name_char_def html_space_def ascii_lower_def after_gt_def)


lemma tokenize_plain_then_tag:
  assumes "CHR ''<'' \<notin> set u" and "CHR ''&'' \<notin> set u"
  shows "tokenize (u @ CHR ''<'' # r) = (if u = [] then [] else [Chars u]) @ tokenize (CHR ''<'' # r)"
  using assms by (simp add: tokenize_text_then_tag decode_plain)

lemma tokenize_plain:
  assumes "CHR ''<'' \<notin> set u" and "CHR ''&'' \<notin> set u"
  shows "tokenize u = (if u = [] then [] else [Chars u])"
  using assms by (simp add: tokenize_text decode_plain)

lemma tokenize_highlighted:
  assumes "plain_text t1" and "plain_text X" and "plain_text t2"
  shows "tokenize (t1 @ highlight_open @ X @ ''</span>'' @ t2)
     = (if t1 = [] then [] else [Chars t1])
       @ StartTag ''span'' [(''class'', ''smartread-highlight''), (''id'', ''temp-highlight'')]
       # (if X = [] then [] else [Chars X])
       @ EndTag ''span''
       # (if t2 = [] then [] else [Chars t2])"
proof -
  have o: "highlight_open @ r = CHR ''<'' # (tl highlight_open @ r)" for r
    by (simp add: highlight_open_def)
  have e: "''</span>'' @ r = CHR ''<'' # (''/span>'' @ r)" for r
    by simp
  have 1: "tokenize (t1 @ highlight_open @ r) = (if t1 = [] then [] else [Chars t1]) @ tokenize (highlight_open @ r)" for r
    unfolding o using assms(1) by (intro tokenize_plain_then_tag) (simp_all add: plain_text_facts)
  have 2: "tokenize (X @ ''</span>'' @ r) = (if X = [] then [] else [Chars X]) @ tokenize (''</span>'' @ r)" for r
    unfolding e using assms(2) by (intro tokenize_plain_then_tag) (simp_all add: plain_text_facts)
  have 3: "tokenize t2 = (if t2 = [] then [] else [Chars t2])"
    using assms(3) by (intro tokenize_plain) (simp_all add: plain_text_facts)
  have "tokenize (t1 @ highlight_open @ X @ ''</span>'' @ t2)
      = (if t1 = [] then [] else [Chars t1]) @ tokenize (highlight_open @ X @ ''</span>'' @ t2)"
    by (rule 1)
  also have "tokenize (highlight_open @ X @ ''</span>'' @ t2)
      = StartTag ''span'' [(''class'', ''smartread-highlight''), (''id'', ''temp-highlight'')]
        # tokenize (X @ ''</span>'' @ t2)"
    by (rule tokenize_highlight_open)
  also have "tokenize (X @ ''</span>'' @ t2)
      = (if X = [] then [] else [Chars X]) @ tokenize (''</span>'' @ t2)"
    by (rule 2)
  also have "tokenize (''</span>'' @ t2) = EndTag ''span'' # tokenize t2"
    by (rule tokenize_span_end)
  also note 3
  finally show ?thesis .
qed

lemma add_chars_Nil: "add_chars [] ns = ns"
  by (simp add: add_chars_def)

lemma add_chars_plain: "u \<noteq> [] \<Longrightarrow> CHR 0x00 \<notin> set u \<Longrightarrow> add_chars u ns = push_text u ns"
  by (simp add: add_chars_def filter_nul)

lemma build_highlighted:
  assumes "CHR 0x00 \<notin> set t1" and "CHR 0x00 \<notin> set X" and "CHR 0x00 \<notin> set t2"
  shows "build ((if t1 = [] then [] else [Chars t1])
       @ StartTag ''span'' A
       # (if X = [] then [] else [Chars X])
       @ EndTag ''span''
       # (if t2 = [] then [] else [Chars t2])) [] []
     = text_nodes t1 @ [Element ''span'' A (text_nodes X)] @ text_nodes t2"
  using assms by (simp add: text_nodes_def add_chars_plain void_tags_def)

lemma normalize_newlines_append:
  "CHR 0x0D \<notin> set x \<Longrightarrow> CHR 0x0D \<notin> set y \<Longrightarrow> normalize_newlines (x @ y) = x @ y"
  by (simp add: normalize_newlines_id)

lemma parse_highlighted:
  assumes "plain_text t1" and "plain_text X" and "plain_text t2"
    and "context \<notin> set rawtext_tags" and "context \<notin> set rcdata_tags"
  shows "parse_fragment context (t1 @ highlight_open @ X @ ''</span>'' @ t2)
     = text_nodes t1
       @ [Element ''span'' [(''class'', ''smartread-highlight''), (''id'', ''temp-highlight'')] (text_nodes X)]
       @ text_nodes t2"
proof -
  have "CHR 0x0D \<notin> set (t1 @ highlight_open @ X @ ''</span>'' @ t2)"
    using assms(1-3) by (simp add: plain_text_facts highlight_open_def)
  then have n: "normalize_newlines (t1 @ highlight_open @ X @ ''</span>'' @ t2)
      = t1 @ highlight_open @ X @ ''</span>'' @ t2"
    by (rule normalize_newlines_id)
  show ?thesis
    unfolding parse_fragment_def Let_def n
    using assms(4,5) tokenize_highlighted[OF assms(1-3)] build_highlighted[of t1 X t2] assms(1-3)
    by (simp add: plain_text_facts)
qed

section \<open>Looking up the highlight element\<close>

lemma find_id_list_None: "find_id_list i k cs = None \<longleftrightarrow> (\<forall>c \<in> set cs. find_id i c = None)"
  by (induction cs arbitrary: k) (auto split: option.splits)

lemma find_id_list_update:
  "j < length cs \<Longrightarrow> \<forall>c \<in> set (take j cs). find_id i c = None \<Longrightarrow> find_id i c' = Some q
     \<Longrightarrow> find_id_list i k (cs[j := c']) = Some ((k + j) # q)"
proof (induction cs arbitrary: k j)
  case Nil
  then show ?case by simp
next
  case (Cons c cs)
  show ?case
  proof (cases j)
    case 0
    with Cons.prems show ?thesis by simp
  next
    case (Suc j')
    with Cons.prems have "j' < length cs" "\<forall>c \<in> set (take j' cs). find_id i c = None" "find_id i c = None"
      by auto
    with Cons.IH[of j' "Suc k"] Cons.prems(3) Suc show ?thesis by simp
  qed
qed

lemma find_id_None_get_at:
  "find_id i n = None \<Longrightarrow> get_at p n = Some (Element t a cs)
     \<Longrightarrow> map_of a ''id'' \<noteq> Some i \<and> (\<forall>c \<in> set cs. find_id i c = None)"
proof (induction p arbitrary: n)
  case Nil
  then show ?case by (auto simp: find_id_list_None split: if_splits)
next
  case (Cons j p)
  from Cons.prems(2) obtain t' a' cs' where n: "n = Element t' a' cs'" and j: "j < length cs'"
    and g: "get_at p (cs' ! j) = Some (Element t a cs)"
    by (cases n) (auto split: if_splits)
  from Cons.prems(1) n have "find_id_list i 0 cs' = None" by (auto split: if_splits)
  with j have "find_id i (cs' ! j) = None" by (simp add: find_id_list_None)
  from Cons.IH[OF this g] show ?case .
qed

lemma find_id_update_at:
  "find_id i n = None \<Longrightarrow> get_at p n = Some m \<Longrightarrow> find_id i (f m) = Some q
     \<Longrightarrow> find_id i (update_at p f n) = Some (p @ q)"
proof (induction p arbitrary: n)
  case Nil
  then show ?case by simp
next
  case (Cons j p)
  from Cons.prems(2) obtain t a cs where n: "n = Element t a cs" and j: "j < length cs"
    and g: "get_at p (cs ! j) = Some m"
    by (cases n) (auto split: if_splits)
  from Cons.prems(1) n have a: "map_of a ''id'' \<noteq> Some i" and l: "find_id_list i 0 cs = None"
    by (auto split: if_splits)
  from l have all: "\<forall>c \<in> set cs. find_id i c = None" by (simp add: find_id_list_None)
  with j have "find_id i (cs ! j) = None" by simp
  from Cons.IH[OF this g Cons.prems(3)]
  have u: "find_id i (update_at p f (cs ! j)) = Some (p @ q)" .
  have "\<forall>c \<in> set (take j cs). find_id i c = None"
    using all by (meson in_set_takeD)
  from find_id_list_update[OF j this u, of 0]
  show ?case using n j a by simp
qed

lemma update_at_append: "update_at (p @ r) f n = update_at p (update_at r f) n"
proof (induction p arbitrary: n)
  case Nil
  show ?case by simp
next
  case (Cons i p)
  then show ?case by (cases n) simp_all
qed

lemma body_index_Some:
  "body_index d = Some b \<Longrightarrow> \<exists>t a cs. d = Element t a cs \<and> b < length cs"
proof -
  assume b: "body_index d = Some b"
  then have "tag_of d = ''html''" by (auto simp: body_index_def split: if_splits)
  then obtain t a cs where d: "d = Element t a cs" by (cases d) auto
  from b d obtain x where "find (\<lambda>ic. is_element (snd ic) \<and> (tag_of (snd ic) = ''body'' \<or> tag_of (snd ic) = ''frameset''))
                (enumerate 0 cs) = Some x" "fst x = b"
    by (auto simp: body_index_def split: if_splits)
  then obtain k where "k < length (enumerate 0 cs)" "enumerate 0 cs ! k = x"
    unfolding find_Some_iff by blast
  then have "fst x < length cs"
    by (auto simp: nth_enumerate_eq)
  with d \<open>fst x = b\<close> show ?thesis by auto
qed

section \<open>The iframe locator\<close>

lemma plain_text_append: "plain_text (x @ y) \<longleftrightarrow> plain_text x \<and> plain_text y"
  by (simp add: plain_text_def)

lemma plain_dollar: "plain_char CHR ''$''"
  by (simp add: plain_char_def)

lemma textContent_text_nodes: "concat (map textContent (text_nodes s)) = s"
  by (simp add: text_nodes_def)

text \<open>
  Highlighting an element whose only child is a plain text that contains the anchor: the
  text before the match, the highlight element, the text after the match.
\<close>

lemma highlight_iframe_plain:
  assumes s: "plain_text s" and sp: "split_first a s = Some (pre, post)"
    and t: "t \<notin> set rawtext_tags" "t \<notin> set rcdata_tags"
  shows "\<exists>X. plain_text X \<and> (CHR ''$'' \<notin> set a \<longrightarrow> X = a)
     \<and> highlight_iframe a (Element t at [Text s])
         = Element t at (text_nodes pre
             @ [Element ''span'' [(''class'', ''smartread-highlight''), (''id'', ''temp-highlight'')] (text_nodes X)]
             @ text_nodes post)"
proof -
  have eq: "s = pre @ a @ post" using sp by (rule split_first_append)
  with s have pl: "plain_text pre" "plain_text a" "plain_text post"
    by (simp_all add: plain_text_append)
  have inner: "innerHTML (Element t at [Text s]) = s"
    using t(1) s by (simp add: innerHTML_def escape_text_plain)
  obtain X where X: "expand_replacement a pre post (highlight_template a) = highlight_open @ X @ ''</span>''"
    and Xs: "set X \<subseteq> set a \<union> set pre \<union> set post \<union> {CHR ''$''}"
    using expand_highlight_template[of a pre post] by blast
  have Xp: "plain_text X"
    using Xs pl plain_dollar unfolding plain_text_set by blast
  have Xa: "X = a" if "CHR ''$'' \<notin> set a"
  proof -
    have "CHR ''$'' \<notin> set (highlight_open @ a)"
      using that by (simp add: highlight_open_def)
    then have "expand_replacement a pre post ((highlight_open @ a) @ ''</span>'')
        = (highlight_open @ a) @ expand_replacement a pre post ''</span>''"
      by (rule expand_no_dollar)
    then have "expand_replacement a pre post (highlight_template a) = highlight_open @ a @ ''</span>''"
      by (simp add: highlight_template_def)
    with X show ?thesis by simp
  qed
  have "js_replace s a (highlight_template a) = pre @ highlight_open @ X @ ''</span>'' @ post"
    using sp X by (simp add: js_replace_def)
  then have "highlight_iframe a (Element t at [Text s])
      = Element t at (parse_fragment t (pre @ highlight_open @ X @ ''</span>'' @ post))"
    by (simp add: highlight_iframe_def inner set_innerHTML_def)
  also have "parse_fragment t (pre @ highlight_open @ X @ ''</span>'' @ post)
      = text_nodes pre
         @ [Element ''span'' [(''class'', ''smartread-highlight''), (''id'', ''temp-highlight'')] (text_nodes X)]
         @ text_nodes post"
    using pl(1) Xp pl(3) t by (rule parse_highlighted)
  finally show ?thesis using Xp Xa by blast
qed

lemma find_id_highlighted:
  assumes "map_of at ''id'' \<noteq> Some ''temp-highlight''"
  shows "find_id ''temp-highlight''
           (Element t at (text_nodes pre
              @ [Element ''span'' [(''class'', ''smartread-highlight''), (''id'', ''temp-highlight'')] K]
              @ text_nodes post))
         = Some [length (text_nodes pre)]"
  using assms by (simp add: text_nodes_def)

lemma replace_highlighted:
  "update_at [length (text_nodes pre)] (\<lambda>highlightEl. Text a)
     (Element t at (text_nodes pre @ [E] @ text_nodes post))
   = Element t at (text_nodes pre @ [Text a] @ text_nodes post)"
  by (simp add: text_nodes_def)

lemma iframe_roundtrip:
  assumes anchor: "js_trim anchor \<noteq> []"
    and body: "body_index d = Some b"
    and found: "find_text (js_trim anchor) (children d ! b) = Some p"
    and parent: "get_at (b # p) d = Some (Element t at [Text s])"
    and s: "plain_text s"
    and t: "t \<notin> set rawtext_tags" "t \<notin> set rcdata_tags"
    and fresh: "find_id ''temp-highlight'' d = None"
  shows "\<exists>pre post X d'.
       s = pre @ js_trim anchor @ post
     \<and> (CHR ''$'' \<notin> set (js_trim anchor) \<longrightarrow> X = js_trim anchor)
     \<and> handleScrollToQuote_iframe win_find (Some d) anchor
         = (Highlighted (Some (b # p @ [length (text_nodes pre)])), Some d',
            Some (Some (b # p @ [length (text_nodes pre)]), js_trim anchor))
     \<and> get_at (b # p) d'
         = Some (Element t at (text_nodes pre
             @ [Element ''span'' [(''class'', ''smartread-highlight''), (''id'', ''temp-highlight'')] (text_nodes X)]
             @ text_nodes post))
     \<and> get_at (b # p) (restore_iframe (Some (b # p @ [length (text_nodes pre)]), js_trim anchor) d')
         = Some (Element t at (text_nodes pre @ [Text (js_trim anchor)] @ text_nodes post))
     \<and> textContent (restore_iframe (Some (b # p @ [length (text_nodes pre)]), js_trim anchor) d')
         = textContent d"
proof -
  let ?a = "js_trim anchor"
  from anchor have nonempty: "anchor \<noteq> []" by (auto simp: js_trim_def)
  from body obtain t0 a0 cs0 where d: "d = Element t0 a0 cs0" and b: "b < length cs0"
    using body_index_Some by blast
  from parent d b have gp: "get_at p (cs0 ! b) = Some (Element t at [Text s])" by simp
  from found d have "find_text ?a (cs0 ! b) = Some p" by simp
  from find_text_Some(1)[OF this] gp have inc: "js_includes s ?a" by auto
  then obtain pre post where sp: "split_first ?a s = Some (pre, post)"
    by (auto simp: js_includes_def)
  then have eq: "s = pre @ ?a @ post" by (rule split_first_append)
  let ?span = "\<lambda>X. Element ''span'' [(''class'', ''smartread-highlight''), (''id'', ''temp-highlight'')] (text_nodes X)"
  from highlight_iframe_plain[OF s sp t, of at] obtain X where Xp: "plain_text X"
    and Xa: "CHR ''$'' \<notin> set ?a \<longrightarrow> X = ?a"
    and hl: "highlight_iframe ?a (Element t at [Text s])
         = Element t at (text_nodes pre @ [?span X] @ text_nodes post)"
    by blast
  let ?d' = "update_at (b # p) (highlight_iframe ?a) d"
  let ?h = "b # p @ [length (text_nodes pre)]"
  have noid: "map_of at ''id'' \<noteq> Some ''temp-highlight''"
    using find_id_None_get_at[OF fresh parent] by simp
  have fid: "find_id ''temp-highlight'' (highlight_iframe ?a (Element t at [Text s]))
      = Some [length (text_nodes pre)]"
    unfolding hl using noid by (rule find_id_highlighted)
  have gid: "getElementById ''temp-highlight'' ?d' = Some ?h"
    unfolding getElementById_def
    using find_id_update_at[of "''temp-highlight''" d "b # p" "Element t at [Text s]"
        "highlight_iframe ?a" "[length (text_nodes pre)]"] fresh parent fid
    by simp
  have call: "handleScrollToQuote_iframe win_find (Some d) anchor
         = (Highlighted (Some ?h), Some ?d', Some (Some ?h, ?a))"
    using nonempty anchor body found gid d
    by (simp add: handleScrollToQuote_iframe_def Let_def)
  have gd': "get_at (b # p) ?d' = Some (Element t at (text_nodes pre @ [?span X] @ text_nodes post))"
    using get_at_update_at[OF parent, of "highlight_iframe ?a"] hl by simp
  have "restore_iframe (Some ?h, ?a) ?d'
      = update_at ((b # p) @ [length (text_nodes pre)]) (\<lambda>highlightEl. Text ?a) ?d'"
    by (simp add: restore_iframe_def)
  also have "\<dots> = update_at (b # p) (update_at [length (text_nodes pre)] (\<lambda>highlightEl. Text ?a)) ?d'"
    by (rule update_at_append)
  also have "\<dots> = update_at (b # p)
      (\<lambda>m. update_at [length (text_nodes pre)] (\<lambda>highlightEl. Text ?a) (highlight_iframe ?a m)) d"
    by (rule update_at_twice)
  finally have rest: "restore_iframe (Some ?h, ?a) ?d'
      = update_at (b # p)
          (\<lambda>m. update_at [length (text_nodes pre)] (\<lambda>highlightEl. Text ?a) (highlight_iframe ?a m)) d" .
  have after: "update_at [length (text_nodes pre)] (\<lambda>highlightEl. Text ?a)
        (highlight_iframe ?a (Element t at [Text s]))
      = Element t at (text_nodes pre @ [Text ?a] @ text_nodes post)"
    unfolding hl by (rule replace_highlighted)
  have gr: "get_at (b # p) (restore_iframe (Some ?h, ?a) ?d')
      = Some (Element t at (text_nodes pre @ [Text ?a] @ text_nodes post))"
    unfolding rest using get_at_update_at[OF parent] after by simp
  have "textContent (Element t at (text_nodes pre @ [Text ?a] @ text_nodes post))
      = textContent (Element t at [Text s])"
    using eq by (simp add: textContent_text_nodes)
  then have tc: "textContent (restore_iframe (Some ?h, ?a) ?d') = textContent d"
    unfolding rest using textContent_update_at[OF parent] after by simp
  from eq Xa call gd' gr tc show ?thesis by blast
qed

section \<open>Properties of the anchor locator\<close>

lemma body_index_element: "body_index d = Some b \<Longrightarrow> is_element (children d ! b)"
proof -
  assume b: "body_index d = Some b"
  then have "tag_of d = ''html''" by (auto simp: body_index_def split: if_splits)
  then obtain t a cs where d: "d = Element t a cs" by (cases d) auto
  from b d obtain x where f: "find (\<lambda>ic. is_element (snd ic) \<and> (tag_of (snd ic) = ''body'' \<or> tag_of (snd ic) = ''frameset''))
                (enumerate 0 cs) = Some x" and x: "fst x = b"
    by (auto simp: body_index_def split: if_splits)
  from f obtain k where k: "k < length (enumerate 0 cs)" "enumerate 0 cs ! k = x" "is_element (snd x)"
    unfolding find_Some_iff by blast
  then have "x = (k, cs ! k)" by (auto simp: nth_enumerate_eq)
  with x k(3) d show ?thesis by simp
qed

lemma locate_iframe_found:
  assumes "js_trim anchor \<noteq> []" and "body_index d = Some b"
    and "find_text (js_trim anchor) (children d ! b) = Some p"
  shows "handleScrollToQuote_iframe win_find (Some d) anchor =
           (Highlighted (getElementById ''temp-highlight''
                           (update_at (b # p) (highlight_iframe (js_trim anchor)) d)),
            Some (update_at (b # p) (highlight_iframe (js_trim anchor)) d),
            Some (getElementById ''temp-highlight''
                           (update_at (b # p) (highlight_iframe (js_trim anchor)) d), js_trim anchor))"
proof -
  from assms(1) have "anchor \<noteq> []" by (auto simp: js_trim_def)
  with assms show ?thesis by (simp add: handleScrollToQuote_iframe_def Let_def)
qed

lemma locate_iframe_not_found:
  assumes "js_trim anchor \<noteq> []" and "body_index d = Some b"
    and "find_text (js_trim anchor) (children d ! b) = None" and "\<not> found (js_trim anchor)"
  shows "handleScrollToQuote_iframe (Some found) (Some d) anchor =
           (Alerted ''Could not find the exact text in the article view.'', Some d, None)"
proof -
  from assms(1) have "anchor \<noteq> []" by (auto simp: js_trim_def)
  with assms show ?thesis by (simp add: handleScrollToQuote_iframe_def Let_def)
qed

lemma iframe_never_faults:
  "body_index d \<noteq> None \<Longrightarrow> fst (handleScrollToQuote_iframe win_find (Some d) anchor) \<noteq> Faulted"
  by (auto simp: handleScrollToQuote_iframe_def Let_def split: option.splits)

lemma direct_never_faults: "fst (handleScrollToQuote_direct articleRef anchor) \<noteq> Faulted"
  by (auto simp: handleScrollToQuote_direct_def Let_def split: option.splits)

text \<open>
  Where the cycle of highlighting and restoring leaves the text as it was. Direct render:
  when a paragraph of the pane contains the trimmed anchor, the call takes the highlight
  branch at the first such paragraph; and when the content of that paragraph is one text
  without carriage returns and NULs (as the component renders it), the pane is, after the
  timer has run, the pane it was before the call. Iframe: when a text node below the body
  contains the trimmed (non-empty) anchor, the call takes the highlight branch at the
  parent of the first such text node; and when that text node is the only child of its
  parent, the parent is neither a raw-text nor an RCDATA element, the text has none of the
  code units \<open>&\<close>, \<open><\<close>, \<open>>\<close>, no-break space, carriage return and NUL, and no
  element of the document has the id \<open>temp-highlight\<close> yet, the call scrolls to a
  highlight element inside that parent and, after the timer has run, the text content of
  the parent and of the whole document is what it was before.
\<close>

lemma locator_roundtrip:
  "((\<exists>q \<in> set (paragraphs pane). \<exists>n. get_at q pane = Some n \<and> js_includes (textContent n) (js_trim anchor))
       \<longrightarrow> (\<exists>q. first_paragraph (js_trim anchor) pane = Some q
               \<and> fst (handleScrollToQuote_direct (Some pane) anchor) = Highlighted (Some q)))
   \<and> (first_paragraph (js_trim anchor) pane = Some q
        \<and> get_at q pane = Some (Element t0 at0 (text_nodes s0))
        \<and> CHR 0x0D \<notin> set s0 \<and> CHR 0x00 \<notin> set s0
       \<longrightarrow> fst (handleScrollToQuote_direct (Some pane) anchor) = Highlighted (Some q)
           \<and> after_cycle_direct pane anchor = pane)
   \<and> (js_trim anchor \<noteq> [] \<and> body_index d = Some b
        \<and> (\<exists>s \<in> set (texts (children d ! b)). js_includes s (js_trim anchor))
       \<longrightarrow> (\<exists>p h. find_text (js_trim anchor) (children d ! b) = Some p
               \<and> fst (handleScrollToQuote_iframe win_find (Some d) anchor) = Highlighted h))
   \<and> (js_trim anchor \<noteq> [] \<and> body_index d = Some b
        \<and> find_text (js_trim anchor) (children d ! b) = Some p
        \<and> get_at (b # p) d = Some (Element t at [Text s])
        \<and> plain_text s \<and> t \<notin> set rawtext_tags \<and> t \<notin> set rcdata_tags
        \<and> find_id ''temp-highlight'' d = None
       \<longrightarrow> (\<exists>j. fst (handleScrollToQuote_iframe win_find (Some d) anchor) = Highlighted (Some (b # p @ [j])))
           \<and> (\<exists>m. get_at (b # p) (after_cycle_iframe win_find d anchor) = Some m \<and> textContent m = s)
           \<and> textContent (after_cycle_iframe win_find d anchor) = textContent d)"
proof (intro conjI impI)
  assume "\<exists>q \<in> set (paragraphs pane). \<exists>n. get_at q pane = Some n \<and> js_includes (textContent n) (js_trim anchor)"
  then have "first_paragraph (js_trim anchor) pane \<noteq> None"
    unfolding first_paragraph_None by blast
  then obtain q' where "first_paragraph (js_trim anchor) pane = Some q'" by blast
  then show "\<exists>q. first_paragraph (js_trim anchor) pane = Some q
               \<and> fst (handleScrollToQuote_direct (Some pane) anchor) = Highlighted (Some q)"
    by (simp add: locate_direct)
next
  assume a: "first_paragraph (js_trim anchor) pane = Some q
        \<and> get_at q pane = Some (Element t0 at0 (text_nodes s0))
        \<and> CHR 0x0D \<notin> set s0 \<and> CHR 0x00 \<notin> set s0"
  then show "fst (handleScrollToQuote_direct (Some pane) anchor) = Highlighted (Some q)"
    by (simp add: locate_direct)
  from a have "restore_direct (q, innerHTML (Element t0 at0 (text_nodes s0)))
           (update_at q (highlight_direct (js_trim anchor)) pane) = pane"
    by (intro restore_direct_roundtrip) simp_all
  with a show "after_cycle_direct pane anchor = pane"
    by (simp add: after_cycle_direct_def locate_direct)
next
  assume a: "js_trim anchor \<noteq> [] \<and> body_index d = Some b
        \<and> (\<exists>s \<in> set (texts (children d ! b)). js_includes s (js_trim anchor))"
  then have "find_text (js_trim anchor) (children d ! b) \<noteq> None"
    using find_text_None(1)[of "js_trim anchor" "children d ! b"] body_index_element[of d b] by blast
  then obtain p' where "find_text (js_trim anchor) (children d ! b) = Some p'" by blast
  with a show "\<exists>p h. find_text (js_trim anchor) (children d ! b) = Some p
               \<and> fst (handleScrollToQuote_iframe win_find (Some d) anchor) = Highlighted h"
    by (simp add: locate_iframe_found)
next
  assume a: "js_trim anchor \<noteq> [] \<and> body_index d = Some b
        \<and> find_text (js_trim anchor) (children d ! b) = Some p
        \<and> get_at (b # p) d = Some (Element t at [Text s])
        \<and> plain_text s \<and> t \<notin> set rawtext_tags \<and> t \<notin> set rcdata_tags
        \<and> find_id ''temp-highlight'' d = None"
  from a have h: "js_trim anchor \<noteq> []" "body_index d = Some b"
    "find_text (js_trim anchor) (children d ! b) = Some p"
    "get_at (b # p) d = Some (Element t at [Text s])"
    "plain_text s" "t \<notin> set rawtext_tags" "t \<notin> set rcdata_tags"
    "find_id ''temp-highlight'' d = None"
    by simp_all
  from iframe_roundtrip[OF h, of win_find]
  obtain pre post X d' where R: "s = pre @ js_trim anchor @ post
     \<and> (CHR ''$'' \<notin> set (js_trim anchor) \<longrightarrow> X = js_trim anchor)
     \<and> handleScrollToQuote_iframe win_find (Some d) anchor
         = (Highlighted (Some (b # p @ [length (text_nodes pre)])), Some d',
            Some (Some (b # p @ [length (text_nodes pre)]), js_trim anchor))
     \<and> get_at (b # p) d'
         = Some (Element t at (text_nodes pre
             @ [Element ''span'' [(''class'', ''smartread-highlight''), (''id'', ''temp-highlight'')] (text_nodes X)]
             @ text_nodes post))
     \<and> get_at (b # p) (restore_iframe (Some (b # p @ [length (text_nodes pre)]), js_trim anchor) d')
         = Some (Element t at (text_nodes pre @ [Text (js_trim anchor)] @ text_nodes post))
     \<and> textContent (restore_iframe (Some (b # p @ [length (text_nodes pre)]), js_trim anchor) d')
         = textContent d"
    by (elim exE)
  from R have call: "handleScrollToQuote_iframe win_find (Some d) anchor
         = (Highlighted (Some (b # p @ [length (text_nodes pre)])), Some d',
            Some (Some (b # p @ [length (text_nodes pre)]), js_trim anchor))"
    and eq: "s = pre @ js_trim anchor @ post"
    and gr: "get_at (b # p) (restore_iframe (Some (b # p @ [length (text_nodes pre)]), js_trim anchor) d')
         = Some (Element t at (text_nodes pre @ [Text (js_trim anchor)] @ text_nodes post))"
    and tc: "textContent (restore_iframe (Some (b # p @ [length (text_nodes pre)]), js_trim anchor) d')
         = textContent d"
    by simp_all
  have ac: "after_cycle_iframe win_find d anchor
      = restore_iframe (Some (b # p @ [length (text_nodes pre)]), js_trim anchor) d'"
    by (simp add: after_cycle_iframe_def call)
  show "\<exists>j. fst (handleScrollToQuote_iframe win_find (Some d) anchor) = Highlighted (Some (b # p @ [j]))"
    by (simp add: call)
  show "\<exists>m. get_at (b # p) (after_cycle_iframe win_find d anchor) = Some m \<and> textContent m = s"
    unfolding ac gr using eq by (simp add: textContent_text_nodes)
  show "textContent (after_cycle_iframe win_find d anchor) = textContent d"
    unfolding ac by (rule tc)
qed

lemma locate_iframe_no_native_search:
  assumes "js_trim anchor \<noteq> []" and "body_index d = Some b"
    and "find_text (js_trim anchor) (children d ! b) = None"
  shows "handleScrollToQuote_iframe None (Some d) anchor = (Ignored, Some d, None)"
proof -
  from assms(1) have "anchor \<noteq> []" by (auto simp: js_trim_def)
  with assms show ?thesis by (simp add: handleScrollToQuote_iframe_def Let_def)
qed

lemma locate_iframe_blank:
  "js_trim anchor = [] \<Longrightarrow> handleScrollToQuote_iframe win_find (Some d) anchor = (Ignored, Some d, None)"
  by (simp add: handleScrollToQuote_iframe_def Let_def)

text \<open>
  C6 (as amended). Direct render: when no paragraph of the pane contains the trimmed
  anchor, the call raises the notice and changes nothing. Iframe: when the trimmed anchor
  is not empty and no text node below the body contains it, then, if the platform has the
  native search and it does not find the trimmed anchor, the call raises the notice and
  changes nothing, and if the platform has no native search, the call returns without a
  notice and changes nothing. An anchor that is empty or blank makes the iframe handler
  return without a notice, and so does, in either variant, a pane or frame that is not
  mounted. No call of the direct-render handler faults, and none of the iframe handler on
  a document with a body.
\<close>

theorem anchor_not_found:
  "((\<forall>q \<in> set (paragraphs pane). \<forall>n. get_at q pane = Some n \<longrightarrow> \<not> js_includes (textContent n) (js_trim anchor))
       \<longrightarrow> handleScrollToQuote_direct (Some pane) anchor
             = (Alerted ''Could not find exact text match for anchor.'', Some pane, None))
   \<and> (js_trim anchor \<noteq> [] \<and> body_index d = Some b
        \<and> (\<forall>s \<in> set (texts (children d ! b)). \<not> js_includes s (js_trim anchor))
        \<and> \<not> found (js_trim anchor)
       \<longrightarrow> handleScrollToQuote_iframe (Some found) (Some d) anchor
             = (Alerted ''Could not find the exact text in the article view.'', Some d, None))
   \<and> (js_trim anchor \<noteq> [] \<and> body_index d = Some b
        \<and> (\<forall>s \<in> set (texts (children d ! b)). \<not> js_includes s (js_trim anchor))
       \<longrightarrow> handleScrollToQuote_iframe None (Some d) anchor = (Ignored, Some d, None))
   \<and> (js_trim anchor = [] \<longrightarrow>
         handleScrollToQuote_iframe win_find (Some d) anchor = (Ignored, Some d, None))
   \<and> handleScrollToQuote_iframe win_find None anchor = (Ignored, None, None)
   \<and> handleScrollToQuote_direct None anchor = (Ignored, None, None)
   \<and> fst (handleScrollToQuote_direct articleRef anchor) \<noteq> Faulted
   \<and> (body_index d \<noteq> None \<longrightarrow> fst (handleScrollToQuote_iframe win_find (Some d) anchor) \<noteq> Faulted)"
proof (intro conjI impI)
  assume "\<forall>q \<in> set (paragraphs pane). \<forall>n. get_at q pane = Some n \<longrightarrow> \<not> js_includes (textContent n) (js_trim anchor)"
  then have "first_paragraph (js_trim anchor) pane = None"
    unfolding first_paragraph_None .
  then show "handleScrollToQuote_direct (Some pane) anchor
             = (Alerted ''Could not find exact text match for anchor.'', Some pane, None)"
    by (simp add: handleScrollToQuote_direct_def Let_def)
next
  assume a: "js_trim anchor \<noteq> [] \<and> body_index d = Some b
        \<and> (\<forall>s \<in> set (texts (children d ! b)). \<not> js_includes s (js_trim anchor))
        \<and> \<not> found (js_trim anchor)"
  then have "find_text (js_trim anchor) (children d ! b) = None"
    using find_text_None(1)[of "js_trim anchor" "children d ! b"] by blast
  with a show "handleScrollToQuote_iframe (Some found) (Some d) anchor
             = (Alerted ''Could not find the exact text in the article view.'', Some d, None)"
    by (simp add: locate_iframe_not_found)
next
  assume a: "js_trim anchor \<noteq> [] \<and> body_index d = Some b
        \<and> (\<forall>s \<in> set (texts (children d ! b)). \<not> js_includes s (js_trim anchor))"
  then have "find_text (js_trim anchor) (children d ! b) = None"
    using find_text_None(1)[of "js_trim anchor" "children d ! b"] by blast
  with a show "handleScrollToQuote_iframe None (Some d) anchor = (Ignored, Some d, None)"
    by (simp add: locate_iframe_no_native_search)
next
  assume "js_trim anchor = []"
  then show "handleScrollToQuote_iframe win_find (Some d) anchor = (Ignored, Some d, None)"
    by (rule locate_iframe_blank)
next
  show "handleScrollToQuote_iframe win_find None anchor = (Ignored, None, None)"
    by (simp add: handleScrollToQuote_iframe_def)
next
  show "handleScrollToQuote_direct None anchor = (Ignored, None, None)"
    by (simp add: handleScrollToQuote_direct_def)
next
  show "fst (handleScrollToQuote_direct articleRef anchor) \<noteq> Faulted"
    by (rule direct_never_faults)
next
  assume "body_index d \<noteq> None"
  then show "fst (handleScrollToQuote_iframe win_find (Some d) anchor) \<noteq> Faulted"
    by (rule iframe_never_faults)
qed

lemma locator_roundtrip_example:
  "first_paragraph (js_trim '' sky is blue '') (render_pane sky_state) = Some [0, 0, 0]
   \<and> get_at [0, 0, 0] (render_pane sky_state)
       = Some (Element ''p'' [] (text_nodes ''Hello world. The sky is blue today.''))
   \<and> fst (handleScrollToQuote_direct (Some (render_pane sky_state)) '' sky is blue '') = Highlighted (Some [0, 0, 0])
   \<and> after_cycle_direct (render_pane sky_state) '' sky is blue '' = render_pane sky_state
   \<and> js_trim ''sky is blue'' \<noteq> []
   \<and> body_index sky_doc = Some 1
   \<and> find_text (js_trim ''sky is blue'') (children sky_doc ! 1) = Some [0, 0]
   \<and> get_at [1, 0, 0] sky_doc = Some (Element ''p'' [] [Text ''Hello world. The sky is blue today.''])
   \<and> plain_text ''Hello world. The sky is blue today.''
   \<and> find_id ''temp-highlight'' sky_doc = None
   \<and> fst (handleScrollToQuote_iframe None (Some sky_doc) ''sky is blue'') = Highlighted (Some [1, 0, 0, 1])
   \<and> textContent (after_cycle_iframe None sky_doc ''sky is blue'') = textContent sky_doc"
proof -
  have d1: "first_paragraph (js_trim '' sky is blue '') (render_pane sky_state) = Some [0, 0, 0]"
    by code_simp
  have d2: "get_at [0, 0, 0] (render_pane sky_state)
       = Some (Element ''p'' [] (text_nodes ''Hello world. The sky is blue today.''))"
    by code_simp
  have d3: "CHR 0x0D \<notin> set ''Hello world. The sky is blue today.''"
    "CHR 0x00 \<notin> set ''Hello world. The sky is blue today.''"
    by simp_all
  have i1: "js_trim ''sky is blue'' \<noteq> []"
    by code_simp
  have i2: "body_index sky_doc = Some 1"
    by code_simp
  have i3: "find_text (js_trim ''sky is blue'') (children sky_doc ! 1) = Some [0, 0]"
    by code_simp
  have i4: "get_at (1 # [0, 0]) sky_doc = Some (Element ''p'' [] [Text ''Hello world. The sky is blue today.''])"
    by code_simp
  have i5: "plain_text ''Hello world. The sky is blue today.''"
    by code_simp
  have i6: "''p'' \<notin> set rawtext_tags" "''p'' \<notin> set rcdata_tags"
    by (simp_all add: rawtext_tags_def rcdata_tags_def)
  have i7: "find_id ''temp-highlight'' sky_doc = None"
    by code_simp
  have i8: "fst (handleScrollToQuote_iframe None (Some sky_doc) ''sky is blue'') = Highlighted (Some [1, 0, 0, 1])"
    by code_simp
  have "fst (handleScrollToQuote_direct (Some (render_pane sky_state)) '' sky is blue '') = Highlighted (Some [0, 0, 0])
    \<and> after_cycle_direct (render_pane sky_state) '' sky is blue '' = render_pane sky_state
    \<and> textContent (after_cycle_iframe None sky_doc ''sky is blue'') = textContent sky_doc"
    using locator_roundtrip[where anchor = "'' sky is blue ''" and pane = "render_pane sky_state"
        and q = "[0, 0, 0]" and ?t0.0 = "''p''" and ?at0.0 = "[]" and ?s0.0 = "''Hello world. The sky is blue today.''"]
      locator_roundtrip[where anchor = "''sky is blue''" and d = sky_doc and b = 1 and p = "[0, 0]"
        and t = "''p''" and at = "[]" and s = "''Hello world. The sky is blue today.''" and win_find = None]
      d1 d2 d3 i1 i2 i3 i4 i5 i6 i7
    by blast
  with d1 d2 i1 i2 i3 i4 i5 i7 i8 show ?thesis by simp
qed

text \<open>
  C2. The claim is that whenever the anchor stands verbatim in one text node, the locator
  finds it and, after the timer has run, the text of the region is the text it had before.
  The iframe variant does not keep it for the anchor \<open>amp\<close> and the paragraph
  \<open>R&D amp\<close>: the text node contains the anchor, but the handler replaces the first
  occurrence of the anchor in the serialised markup \<open>R&amp;D amp\<close> of the paragraph,
  which is inside the character reference; the timer then puts the anchor back as text,
  and the paragraph reads \<open>R&amp;D amp\<close> from then on. The direct-render variant, which
  restores the markup it saved, leaves the same paragraph as it was.
\<close>

theorem anchor_roundtrip_iframe_failing_input:
  "get_at [1, 0, 1] sky_doc = Some (Element ''p'' [] [Text ''R&D amp''])
   \<and> js_includes ''R&D amp'' ''amp''
   \<and> find_text ''amp'' (children sky_doc ! 1) = Some [0, 1]
   \<and> innerHTML (Element ''p'' [] [Text ''R&D amp'']) = ''R&amp;D amp''
   \<and> fst (handleScrollToQuote_iframe None (Some sky_doc) ''amp'') = Highlighted (Some [1, 0, 1, 1])
   \<and> get_at [1, 0, 1] (after_cycle_iframe None sky_doc ''amp'')
       = Some (Element ''p'' [] [Text ''R&'', Text ''amp'', Text '';D amp''])
   \<and> textContent (after_cycle_iframe None sky_doc ''amp'') = ''Hello world. The sky is blue today.R&amp;D amp''
   \<and> textContent sky_doc = ''Hello world. The sky is blue today.R&D amp''
   \<and> get_at [0, 0, 1] (render_pane sky_state) = Some (Element ''p'' [] [Text ''R&D amp''])
   \<and> fst (handleScrollToQuote_direct (Some (render_pane sky_state)) ''amp'') = Highlighted (Some [0, 0, 1])
   \<and> after_cycle_direct (render_pane sky_state) ''amp'' = render_pane sky_state"
  by code_simp

theorem anchor_not_found_witness:
  "paragraphs (render_pane sky_state) = [[0, 0, 0], [0, 0, 1]]
   \<and> \<not> js_includes ''Hello world. The sky is blue today.'' (js_trim ''nonexistent phrase xyz'')
   \<and> \<not> js_includes ''R&D amp'' (js_trim ''nonexistent phrase xyz'')
   \<and> handleScrollToQuote_direct (Some (render_pane sky_state)) ''nonexistent phrase xyz''
       = (Alerted ''Could not find exact text match for anchor.'', Some (render_pane sky_state), None)
   \<and> js_trim ''nonexistent phrase xyz'' \<noteq> []
   \<and> body_index sky_doc = Some 1
   \<and> texts (children sky_doc ! 1) = [''Hello world. The sky is blue today.'', ''R&D amp'']
   \<and> handleScrollToQuote_iframe (Some (\<lambda>query. False)) (Some sky_doc) ''nonexistent phrase xyz''
       = (Alerted ''Could not find the exact text in the article view.'', Some sky_doc, None)
   \<and> handleScrollToQuote_iframe None (Some sky_doc) ''nonexistent phrase xyz'' = (Ignored, Some sky_doc, None)
   \<and> js_trim [CHR 0x20, CHR 0x0A, CHR 0x20] = []
   \<and> handleScrollToQuote_iframe (Some (\<lambda>query. True)) (Some sky_doc) [CHR 0x20, CHR 0x0A, CHR 0x20]
       = (Ignored, Some sky_doc, None)
   \<and> fst (handleScrollToQuote_iframe (Some (\<lambda>query. True)) (Some sky_doc) ''nonexistent phrase xyz'') \<noteq> Faulted"
proof -
  have ps: "paragraphs (render_pane sky_state) = [[0, 0, 0], [0, 0, 1]]"
    by code_simp
  have g1: "get_at [0, 0, 0] (render_pane sky_state) = Some (Element ''p'' [] [Text ''Hello world. The sky is blue today.''])"
    by code_simp
  have g2: "get_at [0, 0, 1] (render_pane sky_state) = Some (Element ''p'' [] [Text ''R&D amp''])"
    by code_simp
  have n1: "\<not> js_includes ''Hello world. The sky is blue today.'' (js_trim ''nonexistent phrase xyz'')"
    by code_simp
  have n2: "\<not> js_includes ''R&D amp'' (js_trim ''nonexistent phrase xyz'')"
    by code_simp
  have t: "js_trim ''nonexistent phrase xyz'' \<noteq> []"
    by code_simp
  have bl: "js_trim [CHR 0x20, CHR 0x0A, CHR 0x20] = []"
    by code_simp
  have b: "body_index sky_doc = Some 1"
    by code_simp
  have tx: "texts (children sky_doc ! 1) = [''Hello world. The sky is blue today.'', ''R&D amp'']"
    by code_simp
  have hd: "\<forall>q \<in> set (paragraphs (render_pane sky_state)). \<forall>n. get_at q (render_pane sky_state) = Some n
      \<longrightarrow> \<not> js_includes (textContent n) (js_trim ''nonexistent phrase xyz'')"
    unfolding ps using n1 n2 g1 g2 by (auto simp del: get_at.simps)
  have hi: "\<forall>s \<in> set (texts (children sky_doc ! 1)). \<not> js_includes s (js_trim ''nonexistent phrase xyz'')"
    unfolding tx using n1 n2 by simp
  have nf: "\<not> (\<lambda>query. False) (js_trim ''nonexistent phrase xyz'')"
    by simp
  have bi: "body_index sky_doc \<noteq> None"
    using b by simp
  have w1: "handleScrollToQuote_direct (Some (render_pane sky_state)) ''nonexistent phrase xyz''
       = (Alerted ''Could not find exact text match for anchor.'', Some (render_pane sky_state), None)
     \<and> handleScrollToQuote_iframe (Some (\<lambda>query. False)) (Some sky_doc) ''nonexistent phrase xyz''
       = (Alerted ''Could not find the exact text in the article view.'', Some sky_doc, None)
     \<and> handleScrollToQuote_iframe None (Some sky_doc) ''nonexistent phrase xyz'' = (Ignored, Some sky_doc, None)"
    using anchor_not_found[where pane = "render_pane sky_state" and anchor = "''nonexistent phrase xyz''"
        and d = sky_doc and b = 1 and found = "\<lambda>query. False"] hd hi t b nf
    by blast
  have w2: "handleScrollToQuote_iframe (Some (\<lambda>query. True)) (Some sky_doc) [CHR 0x20, CHR 0x0A, CHR 0x20]
       = (Ignored, Some sky_doc, None)"
    using anchor_not_found[where anchor = "[CHR 0x20, CHR 0x0A, CHR 0x20]" and d = sky_doc
        and win_find = "Some (\<lambda>query. True)"] bl
    by blast
  have w3: "fst (handleScrollToQuote_iframe (Some (\<lambda>query. True)) (Some sky_doc) ''nonexistent phrase xyz'') \<noteq> Faulted"
    using anchor_not_found[where anchor = "''nonexistent phrase xyz''" and d = sky_doc
        and win_find = "Some (\<lambda>query. True)"] bi
    by blast
  from w1 w2 w3 ps n1 n2 t b tx bl show ?thesis by blast
qed

text \<open>
  C6 as stated fails three times. Direct render: no paragraph contains the anchor
  \<open>today. \<close> with its trailing blank, yet the call highlights the first paragraph, which
  contains the trimmed anchor, and raises no notice. Iframe: no text node contains the
  anchor of three blanks and the native search does not find it, yet the call returns
  without a notice; and where the platform has no native search, an anchor that stands
  nowhere in the document goes without a notice as well.
\<close>

theorem anchor_not_found_counterexample:
  "texts (render_pane sky_state) = [''Hello world. The sky is blue today.'', ''R&D amp'']
   \<and> \<not> js_includes ''Hello world. The sky is blue today.'' ''today. ''
   \<and> \<not> js_includes ''R&D amp'' ''today. ''
   \<and> fst (handleScrollToQuote_direct (Some (render_pane sky_state)) ''today. '') = Highlighted (Some [0, 0, 0])
   \<and> texts sky_doc = [''Hello world. The sky is blue today.'', ''R&D amp'']
   \<and> \<not> js_includes ''Hello world. The sky is blue today.'' ''   ''
   \<and> \<not> js_includes ''R&D amp'' ''   ''
   \<and> handleScrollToQuote_iframe (Some (\<lambda>query. False)) (Some sky_doc) ''   ''
       = (Ignored, Some sky_doc, None)
   \<and> \<not> js_includes ''Hello world. The sky is blue today.'' ''nonexistent phrase xyz''
   \<and> \<not> js_includes ''R&D amp'' ''nonexistent phrase xyz''
   \<and> handleScrollToQuote_iframe None (Some sky_doc) ''nonexistent phrase xyz''
       = (Ignored, Some sky_doc, None)"
  by code_simp

end
